(* ===== verification/Prelude.thy ===== *)
theory Prelude
  imports Main "HOL-Library.Monad_Syntax" "HOL-Library.State_Monad" "HOL-Library.AList"
    "HOL-Library.Sublist"
begin

text \<open>
  The shared prelude: the collections of automation the component theories fill, the vocabulary
  for programs over an explicit state (Go code that runs in sequence on a state is a value of
  the library's \<^typ>\<open>('s, 'a) state\<close>, written in do-notation), the predicate that says a
  program keeps an invariant with its compositional rules, and Go maps.
\<close>

named_theorems keeps_rules "compositional rules for invariants of stateful programs"
named_theorems run_rules "what the primitive programs do to the state"
named_theorems label_simps "values of normalised configuration labels"


section \<open>Programs over a state\<close>

abbreviation ret :: "'a \<Rightarrow> ('s, 'a) state" where
  "ret \<equiv> State_Monad.return"

definition gets :: "('s \<Rightarrow> 'a) \<Rightarrow> ('s, 'a) state" where
  "gets f = State (\<lambda>s. (f s, s))"

definition modify :: "('s \<Rightarrow> 's) \<Rightarrow> ('s, unit) state" where
  "modify f = State (\<lambda>s. ((), f s))"

lemma run_gets [simp]: "run_state (gets f) s = (f s, s)"
  by (simp add: gets_def)

lemma run_modify [simp]: "run_state (modify f) s = ((), f s)"
  by (simp add: modify_def)

text \<open>
  \<open>zoom\<close> runs a program of a part of the state inside the whole state: the part is read with
  \<open>get\<close> and written back with \<open>put\<close>.
\<close>

definition zoom :: "('s \<Rightarrow> 't) \<Rightarrow> ('t \<Rightarrow> 's \<Rightarrow> 's) \<Rightarrow> ('t, 'a) state \<Rightarrow> ('s, 'a) state" where
  "zoom get put m = State (\<lambda>s. let (a, t) = run_state m (get s) in (a, put t s))"

lemma run_zoom [simp]:
  "run_state (zoom get put m) s = (let (a, t) = run_state m (get s) in (a, put t s))"
  by (simp add: zoom_def)


section \<open>Invariants of programs\<close>

definition keeps :: "('s \<Rightarrow> bool) \<Rightarrow> ('s, 'a) state \<Rightarrow> bool" where
  "keeps I m \<longleftrightarrow> (\<forall>s. I s \<longrightarrow> I (snd (run_state m s)))"

lemma keepsI: "(\<And>s. I s \<Longrightarrow> I (snd (run_state m s))) \<Longrightarrow> keeps I m"
  by (simp add: keeps_def)

lemma keepsD: "keeps I m \<Longrightarrow> I s \<Longrightarrow> I (snd (run_state m s))"
  by (simp add: keeps_def)

lemma keeps_return [keeps_rules]: "keeps I (ret a)"
  by (simp add: keeps_def)

lemma keeps_gets [keeps_rules]: "keeps I (gets f)"
  by (simp add: keeps_def)

lemma keeps_bind [keeps_rules]:
  assumes "keeps I m" and "\<And>a. keeps I (f a)"
  shows "keeps I (State_Monad.bind m f)"
proof (rule keepsI)
  fix s assume "I s"
  obtain a t where r: "run_state m s = (a, t)" by force
  with assms(1) \<open>I s\<close> have "I t" by (auto dest: keepsD)
  with assms(2) [of a] r show "I (snd (run_state (State_Monad.bind m f) s))"
    by (auto dest: keepsD)
qed

lemma keeps_if [keeps_rules]:
  "(b \<Longrightarrow> keeps I m) \<Longrightarrow> (\<not> b \<Longrightarrow> keeps I n) \<Longrightarrow> keeps I (if b then m else n)"
  by simp

lemma keeps_option [keeps_rules]:
  "(r = None \<Longrightarrow> keeps I m) \<Longrightarrow> (\<And>x. r = Some x \<Longrightarrow> keeps I (f x)) \<Longrightarrow>
     keeps I (case r of None \<Rightarrow> m | Some x \<Rightarrow> f x)"
  by (cases r) auto

lemma keeps_sum [keeps_rules]:
  "(\<And>e. r = Inl e \<Longrightarrow> keeps I (f e)) \<Longrightarrow> (\<And>x. r = Inr x \<Longrightarrow> keeps I (g x)) \<Longrightarrow>
     keeps I (case r of Inl e \<Rightarrow> f e | Inr x \<Rightarrow> g x)"
  by (cases r) auto

lemma keeps_prod [keeps_rules]:
  "(\<And>a b. keeps I (f a b)) \<Longrightarrow> keeps I (case p of (a, b) \<Rightarrow> f a b)"
  by (cases p) auto

lemma keeps_list [keeps_rules]:
  "keeps I m \<Longrightarrow> (\<And>x xs. keeps I (f x xs)) \<Longrightarrow> keeps I (case r of [] \<Rightarrow> m | x # xs \<Rightarrow> f x xs)"
  by (cases r) auto

lemma keeps_let [keeps_rules]: "(\<And>x. keeps I (f x)) \<Longrightarrow> keeps I (let x = v in f x)"
  by simp

lemma keeps_conj: "keeps I m \<Longrightarrow> keeps J m \<Longrightarrow> keeps (\<lambda>s. I s \<and> J s) m"
  by (simp add: keeps_def)


section \<open>Go maps\<close>

text \<open>
  A Go \<open>map[string]string\<close> is the list of its entries, keys distinct. The order of the list
  carries no meaning of its own: \<open>range\<close> visits the entries in an order the runtime picks
  anew each time, which theory World models as a permutation chosen by the environment.
\<close>

type_synonym gomap = "(string \<times> string) list"

definition go_lookup :: "gomap \<Rightarrow> string \<Rightarrow> string" where
  "go_lookup m k = (case map_of m k of None \<Rightarrow> [] | Some v \<Rightarrow> v)"

definition go_map_ok :: "gomap \<Rightarrow> bool" where
  "go_map_ok m \<longleftrightarrow> distinct (map fst m)"

lemma go_map_ok_update [simp, intro]: "go_map_ok m \<Longrightarrow> go_map_ok (AList.update k v m)"
  by (simp add: go_map_ok_def distinct_update)

lemma go_map_ok_Nil [simp]: "go_map_ok []"
  by (simp add: go_map_ok_def)

lemma go_lookup_update:
  "go_lookup (AList.update k v m) k' = (if k = k' then v else go_lookup m k')"
  by (simp add: go_lookup_def update_conv')

lemma keys_update: "fst ` set (AList.update k v m) = insert k (fst ` set m)"
  by (induction m) auto

end
