(* ===== verification/Go_Strings.thy ===== *)
theory Go_Strings
  imports Prelude
begin

text \<open>
  The functions of Go's packages strings and strconv that the driver uses, on byte strings
  (\<^typ>\<open>string\<close>: a Go string is a sequence of bytes, a \<^typ>\<open>char\<close> is one byte). Go's
  \<open>ToLower\<close>, \<open>TrimSpace\<close> and \<open>Fields\<close> have a fast path for ASCII text, which is what is
  modelled: letters and white space outside ASCII are not folded or trimmed here.
\<close>

section \<open>strings\<close>

definition lower_char :: "char \<Rightarrow> char" where
  "lower_char c = (let n = (of_char c :: nat) in
     if 65 \<le> n \<and> n \<le> 90 then char_of (n + 32) else c)"

definition ToLower :: "string \<Rightarrow> string" where
  "ToLower s = map lower_char s"

definition is_space :: "char \<Rightarrow> bool" where
  "is_space c \<longleftrightarrow> c = CHR '' '' \<or> c = CHR 0x09 \<or> c = CHR 0x0A \<or> c = CHR 0x0B \<or> c = CHR 0x0C
     \<or> c = CHR 0x0D"

definition TrimSpace :: "string \<Rightarrow> string" where
  "TrimSpace s = rev (dropWhile is_space (rev (dropWhile is_space s)))"

definition TrimRightChar :: "string \<Rightarrow> char \<Rightarrow> string" where
  "TrimRightChar s c = rev (dropWhile (\<lambda>x. x = c) (rev s))"

definition HasPrefix :: "string \<Rightarrow> string \<Rightarrow> bool" where
  "HasPrefix s p \<longleftrightarrow> take (length p) s = p"

definition HasSuffix :: "string \<Rightarrow> string \<Rightarrow> bool" where
  "HasSuffix s p \<longleftrightarrow> length p \<le> length s \<and> drop (length s - length p) s = p"

definition TrimPrefix :: "string \<Rightarrow> string \<Rightarrow> string" where
  "TrimPrefix s p = (if HasPrefix s p then drop (length p) s else s)"

definition TrimSuffix :: "string \<Rightarrow> string \<Rightarrow> string" where
  "TrimSuffix s p = (if HasSuffix s p then take (length s - length p) s else s)"

text \<open>\<open>strings.ReplaceAll(s, old, "")\<close> for a one-byte \<open>old\<close>.\<close>

definition DeleteChar :: "char \<Rightarrow> string \<Rightarrow> string" where
  "DeleteChar c s = filter (\<lambda>x. x \<noteq> c) s"

text \<open>\<open>split_by p s\<close> cuts \<open>s\<close> at every byte that satisfies \<open>p\<close>; n cuts give n + 1 pieces.\<close>

fun split_by :: "(char \<Rightarrow> bool) \<Rightarrow> string \<Rightarrow> string list" where
  "split_by p [] = [[]]"
| "split_by p (x # xs) =
     (if p x then [] # split_by p xs
      else (x # hd (split_by p xs)) # tl (split_by p xs))"

definition Split :: "string \<Rightarrow> char \<Rightarrow> string list" where
  "Split s c = split_by (\<lambda>x. x = c) s"

definition Fields :: "string \<Rightarrow> string list" where
  "Fields s = filter (\<lambda>f. f \<noteq> []) (split_by is_space s)"

fun Join :: "string list \<Rightarrow> string \<Rightarrow> string" where
  "Join [] sep = []"
| "Join [x] sep = x"
| "Join (x # y # zs) sep = x @ sep @ Join (y # zs) sep"

definition Repeat :: "string \<Rightarrow> nat \<Rightarrow> string" where
  "Repeat s n = concat (replicate n s)"


section \<open>strconv\<close>

definition is_digit :: "char \<Rightarrow> bool" where
  "is_digit c \<longleftrightarrow> (let n = (of_char c :: nat) in 48 \<le> n \<and> n \<le> 57)"

definition digit_val :: "char \<Rightarrow> int" where
  "digit_val c = int (of_char c) - 48"

definition digits_val :: "string \<Rightarrow> int" where
  "digits_val s = foldl (\<lambda>a c. 10 * a + digit_val c) 0 s"

definition max_int64 :: int where
  "max_int64 = 9223372036854775807"

definition min_int64 :: int where
  "min_int64 = - 9223372036854775808"

text \<open>
  \<open>strconv.Atoi\<close>: an optional sign, then one or more decimal digits, in the range of \<open>int\<close>
  (64 bits); \<open>None\<close> is the error (syntax or range).
\<close>

definition Atoi :: "string \<Rightarrow> int option" where
  "Atoi s =
     (let neg = (s \<noteq> [] \<and> hd s = CHR ''-'');
          ds = (if s \<noteq> [] \<and> (hd s = CHR ''-'' \<or> hd s = CHR ''+'') then tl s else s);
          n = (if neg then - digits_val ds else digits_val ds)
      in if ds = [] \<or> \<not> list_all is_digit ds then None
         else if min_int64 \<le> n \<and> n \<le> max_int64 then Some n else None)"

definition ParseBool :: "string \<Rightarrow> bool option" where
  "ParseBool s =
     (if s \<in> set [''1'', ''t'', ''T'', ''TRUE'', ''true'', ''True''] then Some True
      else if s \<in> set [''0'', ''f'', ''F'', ''FALSE'', ''false'', ''False''] then Some False
      else None)"

text \<open>\<open>fmt.Sprintf("%d", n)\<close>.\<close>

fun nat_digits :: "nat \<Rightarrow> string" where
  "nat_digits n = (if n < 10 then [char_of (48 + n)]
     else nat_digits (n div 10) @ [char_of (48 + n mod 10)])"

declare nat_digits.simps [simp del]

definition Itoa :: "int \<Rightarrow> string" where
  "Itoa n = (if n < 0 then CHR ''-'' # nat_digits (nat (- n)) else nat_digits (nat n))"


section \<open>Lemmas\<close>

lemma HasPrefix_iff: "HasPrefix s p \<longleftrightarrow> (\<exists>t. s = p @ t)"
  by (metis HasPrefix_def append_eq_conv_conj)

lemma HasPrefix_prefix: "HasPrefix s p \<longleftrightarrow> prefix p s"
  by (auto simp: HasPrefix_iff prefix_def)

lemma HasPrefix_append [simp]: "HasPrefix (p @ t) p"
  by (auto simp: HasPrefix_iff)

lemma HasSuffix_iff: "HasSuffix s p \<longleftrightarrow> (\<exists>t. s = t @ p)"
proof
  assume "HasSuffix s p"
  then have "s = take (length s - length p) s @ p"
    by (metis HasSuffix_def append_take_drop_id)
  then show "\<exists>t. s = t @ p" by blast
qed (auto simp: HasSuffix_def)

lemma split_by_not_Nil [simp]: "split_by p s \<noteq> []"
  by (cases s) auto

lemma Split_not_Nil [simp]: "Split s c \<noteq> []"
  by (simp add: Split_def)

lemma split_by_no_sep: "\<forall>x \<in> set s. \<not> p x \<Longrightarrow> split_by p s = [s]"
  by (induction s) auto

lemma split_by_append:
  "p c \<Longrightarrow> split_by p (s @ c # t) = split_by p s @ split_by p t"
  by (induction s) auto

lemma split_by_piece:
  assumes "f \<in> set (split_by p s)" and "x \<in> set f"
  shows "\<not> p x \<and> x \<in> set s"
  using assms
proof (induction s arbitrary: f)
  case (Cons a s)
  show ?case
  proof (cases "p a")
    case True
    with Cons show ?thesis by auto
  next
    case False
    obtain y ys where sp: "split_by p s = y # ys"
      by (metis list.exhaust split_by_not_Nil)
    with False Cons.prems have "f = a # y \<or> f \<in> set ys" by simp
    with sp False Cons show ?thesis by fastforce
  qed
qed simp

lemma Split_piece: "f \<in> set (Split s c) \<Longrightarrow> c \<notin> set f"
  by (auto simp: Split_def dest: split_by_piece)

text \<open>Splitting what was joined by a byte that occurs in no piece gives the pieces back.\<close>

lemma Split_Join:
  "fs \<noteq> [] \<Longrightarrow> \<forall>f \<in> set fs. c \<notin> set f \<Longrightarrow> Split (Join fs [c]) c = fs"
proof (induction fs "[c]" rule: Join.induct)
  case (3 x y zs)
  then have "split_by (\<lambda>x. x = c) x = [x]" by (intro split_by_no_sep) auto
  with 3 show ?case
    by (auto simp: Split_def split_by_append)
next
  case (2 x)
  then have "split_by (\<lambda>x. x = c) x = [x]" by (intro split_by_no_sep) auto
  then show ?case by (simp add: Split_def)
qed simp

lemma Join_append:
  "xs \<noteq> [] \<Longrightarrow> ys \<noteq> [] \<Longrightarrow> Join (xs @ ys) sep = Join xs sep @ sep @ Join ys sep"
proof (induction xs sep rule: Join.induct)
  case (2 x sep)
  then show ?case by (cases ys) auto
qed auto

lemma Join_chars: "set (Join fs sep) \<subseteq> (\<Union>f \<in> set fs. set f) \<union> set sep"
  by (induction fs sep rule: Join.induct) auto

lemma Join_eq_Nil: "\<forall>f \<in> set fs. f \<noteq> [] \<Longrightarrow> Join fs sep = [] \<longleftrightarrow> fs = []"
  by (cases "(fs, sep)" rule: Join.cases) auto

lemma Fields_Join:
  assumes "\<forall>f \<in> set fs. f \<noteq> [] \<and> (\<forall>x \<in> set f. \<not> is_space x)"
  shows "Fields (Join fs '' '') = fs"
  using assms
proof (induction fs "'' ''" rule: Join.induct)
  case (3 x y zs)
  have "is_space CHR '' ''" by (simp add: is_space_def)
  with 3 show ?case
    by (auto simp: Fields_def split_by_append split_by_no_sep)
qed (auto simp: Fields_def split_by_no_sep)

lemma lower_char_idem [simp]: "lower_char (lower_char c) = lower_char c"
  by (auto simp: lower_char_def Let_def of_char_of)

lemma ToLower_idem [simp]: "ToLower (ToLower s) = ToLower s"
  by (simp add: ToLower_def)

lemma lower_char_underscore: "lower_char c = CHR ''_'' \<longleftrightarrow> c = CHR ''_''"
proof -
  have "char_of (n + 32) = CHR ''_'' \<Longrightarrow> 65 \<le> n \<Longrightarrow> n \<le> 90 \<Longrightarrow> False" for n :: nat
    by (drule arg_cong [where f = "of_char :: char \<Rightarrow> nat"]) (simp add: of_char_of)
  then show ?thesis
    by (auto simp: lower_char_def Let_def)
qed

lemma ToLower_DeleteChar:
  "ToLower (DeleteChar CHR ''_'' s) = DeleteChar CHR ''_'' (ToLower s)"
  by (induction s) (auto simp: ToLower_def DeleteChar_def lower_char_underscore)

lemma DeleteChar_notin [simp]: "c \<notin> set (DeleteChar c s)"
  by (simp add: DeleteChar_def)

lemma DeleteChar_id: "c \<notin> set s \<Longrightarrow> DeleteChar c s = s"
  by (auto simp: DeleteChar_def filter_id_conv)

lemma TrimSpace_no_space: "\<forall>x \<in> set s. \<not> is_space x \<Longrightarrow> TrimSpace s = s"
  by (metis TrimSpace_def dropWhile_eq_self_iff hd_in_set rev_rev_ident set_rev)

lemma TrimSpace_snoc:
  assumes "\<forall>x \<in> set s. \<not> is_space x" and "is_space c"
  shows "TrimSpace (s @ [c]) = s"
proof -
  have "dropWhile is_space (s @ [c]) = (if s = [] then [] else s @ [c])"
    using assms by (cases s) auto
  moreover have "dropWhile is_space (rev s) = rev s"
    using assms(1) by (metis dropWhile_eq_self_iff hd_in_set set_rev)
  ultimately show ?thesis
    using assms by (auto simp: TrimSpace_def)
qed

lemma Split_no_sep: "c \<notin> set s \<Longrightarrow> Split s c = [s]"
  by (auto simp: Split_def intro!: split_by_no_sep)

lemma hd_Split: "c \<notin> set s \<Longrightarrow> hd (Split (s @ c # t) c) = s"
  using Split_no_sep [of c s] by (simp add: Split_def split_by_append)

subsection \<open>Decimal numbers: printing and parsing\<close>

lemma of_char_digit [simp]: "(n::nat) < 10 \<Longrightarrow> of_char (char_of (48 + n) :: char) = (48 + n :: nat)"
  by (simp add: of_char_of)

lemma is_digit_char [simp]: "(n::nat) < 10 \<Longrightarrow> is_digit (char_of (48 + n))"
  by (simp add: is_digit_def)

lemma digit_val_char [simp]: "(n::nat) < 10 \<Longrightarrow> digit_val (char_of (48 + n)) = int n"
  by (simp add: digit_val_def)

lemma nat_digits_not_Nil [simp]: "nat_digits n \<noteq> []"
  by (subst nat_digits.simps) auto

lemma nat_digits_digit: "list_all is_digit (nat_digits n)"
proof (induction n rule: nat_digits.induct)
  case (1 n)
  then show ?case
    by (subst nat_digits.simps) auto
qed

lemma digits_val_snoc: "digits_val (s @ [c]) = 10 * digits_val s + digit_val c"
  by (simp add: digits_val_def)

lemma digits_val_nat_digits: "digits_val (nat_digits n) = int n"
proof (induction n rule: nat_digits.induct)
  case (1 n)
  have "10 * int (n div 10) + int (n mod 10) = int n" by presburger
  with 1 show ?case
    by (subst nat_digits.simps) (auto simp: digits_val_snoc, simp add: digits_val_def)
qed

lemma not_digit_sign: "is_digit c \<Longrightarrow> c \<noteq> CHR ''-'' \<and> c \<noteq> CHR ''+''"
  by (auto simp: is_digit_def)

lemma Atoi_Itoa: "min_int64 \<le> n \<Longrightarrow> n \<le> max_int64 \<Longrightarrow> Atoi (Itoa n) = Some n"
proof -
  assume r: "min_int64 \<le> n" "n \<le> max_int64"
  have h: "hd (nat_digits m) \<noteq> CHR ''-'' \<and> hd (nat_digits m) \<noteq> CHR ''+''" for m
    by (metis hd_in_set list_all_iff nat_digits_digit nat_digits_not_Nil not_digit_sign)
  show ?thesis
    using r h by (simp add: Atoi_def Itoa_def nat_digits_digit digits_val_nat_digits)
qed

lemma digit_not_space: "is_digit c \<Longrightarrow> \<not> is_space c"
  by (auto simp: is_digit_def is_space_def)

lemma Itoa_not_Nil [simp]: "Itoa n \<noteq> []"
  by (simp add: Itoa_def)

lemma Itoa_no_space: "\<forall>x \<in> set (Itoa n). \<not> is_space x"
  using nat_digits_digit digit_not_space
  by (auto simp: Itoa_def list_all_iff is_space_def)

lemma Itoa_nonneg_digits: "0 \<le> n \<Longrightarrow> x \<in> set (Itoa n) \<Longrightarrow> is_digit x"
  using nat_digits_digit by (auto simp: Itoa_def list_all_iff)

lemma Atoi_range: "Atoi s = Some n \<Longrightarrow> min_int64 \<le> n \<and> n \<le> max_int64"
  by (auto simp: Atoi_def Let_def split: if_splits)

end
