(* ===== verification/Errors.thy ===== *)
theory Errors
  imports Go_Strings
begin

text \<open>
  Go error values. A gRPC status error keeps its code; a formatted error keeps its format string
  and its arguments unrendered, so the text the driver would print is determined without a
  model of \<open>%q\<close> and \<open>%v\<close>. Errors of system calls keep the wrapper type and the errno, which
  \<open>os.IsNotExist\<close>, \<open>os.IsExist\<close> and the driver's \<open>IsCorruptedMount\<close> look at. A fallible
  function returns \<open>go_error + 'a\<close>; one that returns only an error returns a
  \<open>go_error option\<close> (\<^const>\<open>None\<close> is nil).
\<close>

datatype code = InvalidArgument | Internal | NotFound | Unimplemented

datatype errno =
  ENOENT | EEXIST | ENOTEMPTY | ENOTCONN | ESTALE | EIO | EACCES | EOTHER int

datatype errwrap = PathError | LinkError | SyscallError

datatype go_error =
    StatusErr code string "fmt_arg list"
  | XErr string "fmt_arg list"
  | SysErr errwrap errno
  | ExtErr string
and fmt_arg = AStr string | AInt int | AErr go_error | ANil

definition IsNotExist :: "go_error \<Rightarrow> bool" where
  "IsNotExist e = (case e of SysErr _ n \<Rightarrow> n = ENOENT | _ \<Rightarrow> False)"

definition IsExist :: "go_error \<Rightarrow> bool" where
  "IsExist e = (case e of SysErr _ n \<Rightarrow> n = EEXIST \<or> n = ENOTEMPTY | _ \<Rightarrow> False)"

text \<open>\<open>IsCorruptedMount\<close> of pkg/mounter/mount_helper_unix.go; a nil error is not corrupted.\<close>

definition IsCorruptedMount :: "go_error option \<Rightarrow> bool" where
  "IsCorruptedMount err =
     (case err of
        None \<Rightarrow> False
      | Some (SysErr _ n) \<Rightarrow> n = ENOTCONN \<or> n = ESTALE \<or> n = EIO \<or> n = EACCES
      | Some _ \<Rightarrow> False)"

fun code_of :: "go_error \<Rightarrow> code option" where
  "code_of (StatusErr c _ _) = Some c"
| "code_of _ = None"

end
