(* ===== verification/Go_Filepath.thy ===== *)
theory Go_Filepath
  imports Go_Strings
begin

text \<open>
  The lexical operations of Go's packages path and path/filepath on a Unix system: \<open>IsAbs\<close>,
  \<open>Clean\<close>, \<open>Join\<close>, \<open>Dir\<close>, \<open>Base\<close> and \<open>Rel\<close>. A path is cut into its
  elements at the slashes; \<open>Clean\<close> keeps a stack of elements, and \<open>Rel\<close> strips the common
  elements of two cleaned paths. The lemmas say what the elements of a cleaned absolute path
  are, that cleaning is idempotent there, and when a relative path climbs.
\<close>

abbreviation (input) slash :: char where "slash \<equiv> CHR ''/''"

definition IsAbs :: "string \<Rightarrow> bool" where
  "IsAbs s \<longleftrightarrow> s \<noteq> [] \<and> hd s = slash"

definition elems :: "string \<Rightarrow> string list" where
  "elems s = filter (\<lambda>e. e \<noteq> []) (Split s slash)"

text \<open>The stack of a clean run holds the elements seen, last one first.\<close>

definition clean_push :: "bool \<Rightarrow> string list \<Rightarrow> string \<Rightarrow> string list" where
  "clean_push rooted st e =
     (if e = ''.'' then st
      else if e = ''..'' then
        (case st of
           [] \<Rightarrow> if rooted then [] else [e]
         | x # xs \<Rightarrow> if x = ''..'' then e # st else xs)
      else e # st)"

definition clean_elems :: "bool \<Rightarrow> string list \<Rightarrow> string list" where
  "clean_elems rooted es = rev (foldl (clean_push rooted) [] es)"

definition Clean :: "string \<Rightarrow> string" where
  "Clean s =
     (if s = [] then ''.''
      else let cs = clean_elems (IsAbs s) (elems s) in
        if IsAbs s then slash # Join cs ''/''
        else if cs = [] then ''.'' else Join cs ''/'')"

definition JoinPath :: "string list \<Rightarrow> string" where
  "JoinPath parts =
     (let ps = filter (\<lambda>p. p \<noteq> []) parts in if ps = [] then [] else Clean (Join ps ''/''))"

text \<open>\<open>Dir\<close> cleans everything up to and with the last slash.\<close>

definition Dir :: "string \<Rightarrow> string" where
  "Dir s = Clean (rev (dropWhile (\<lambda>c. c \<noteq> slash) (rev s)))"

definition Base :: "string \<Rightarrow> string" where
  "Base s =
     (if s = [] then ''.''
      else let t = TrimRightChar s slash in
        if t = [] then ''/'' else rev (takeWhile (\<lambda>c. c \<noteq> slash) (rev t)))"

fun strip_common :: "string list \<Rightarrow> string list \<Rightarrow> string list \<times> string list" where
  "strip_common (b # bs) (t # ts) = (if b = t then strip_common bs ts else (b # bs, t # ts))"
| "strip_common bs ts = (bs, ts)"

text \<open>
  \<open>Rel(basepath, targpath)\<close>: \<^const>\<open>None\<close> is the error "can't make relative". The elements
  of the base that are left over are climbed with \<open>..\<close>.
\<close>

definition Rel :: "string \<Rightarrow> string \<Rightarrow> string option" where
  "Rel basepath targpath =
     (let base = Clean basepath; targ = Clean targpath in
      if targ = base then Some ''.''
      else
        let base' = (if base = ''.'' then [] else base) in
        if IsAbs base' \<noteq> IsAbs targ then None
        else
          (case strip_common (elems base') (elems targ) of (bs, ts) \<Rightarrow>
             if bs \<noteq> [] \<and> hd bs = ''..'' then None
             else Some (Join (replicate (length bs) ''..'' @ ts) ''/'')))"


section \<open>Elements\<close>

definition plain_elem :: "string \<Rightarrow> bool" where
  "plain_elem e \<longleftrightarrow> e \<noteq> [] \<and> slash \<notin> set e \<and> e \<noteq> ''.'' \<and> e \<noteq> ''..''"

lemma elems_elem: "e \<in> set (elems s) \<Longrightarrow> e \<noteq> [] \<and> slash \<notin> set e"
  by (auto simp: elems_def dest: Split_piece)

lemma elems_Nil [simp]: "elems [] = []"
  by (simp add: elems_def Split_def)

lemma elems_slash_Cons [simp]: "elems (slash # s) = elems s"
  by (simp add: elems_def Split_def)

lemma elems_Join:
  assumes "\<forall>e \<in> set es. e \<noteq> [] \<and> slash \<notin> set e"
  shows "elems (Join es ''/'') = es"
proof (cases "es = []")
  case False
  with assms have "Split (Join es ''/'') slash = es" by (intro Split_Join) auto
  with assms show ?thesis by (auto simp: elems_def filter_id_conv)
qed simp

lemma elems_append_slash: "elems (s @ slash # t) = elems s @ elems t"
  by (simp add: elems_def Split_def split_by_append)

lemma elems_plain [simp]: "e \<noteq> [] \<Longrightarrow> slash \<notin> set e \<Longrightarrow> elems e = [e]"
proof -
  assume "e \<noteq> []" "slash \<notin> set e"
  then show ?thesis
    using elems_Join [of "[e]"] by simp
qed

lemma clean_push_subset: "set (clean_push r st e) \<subseteq> insert e (set st)"
  by (auto simp: clean_push_def split: list.splits if_splits)

lemma clean_fold_subset: "set (foldl (clean_push r) st es) \<subseteq> set st \<union> set es"
proof (induction es arbitrary: st)
  case (Cons e es)
  have "set (foldl (clean_push r) (clean_push r st e) es) \<subseteq> set (clean_push r st e) \<union> set es"
    by (rule Cons.IH)
  with clean_push_subset [of r st e] show ?case by auto
qed simp

lemma clean_elems_subset: "set (clean_elems r es) \<subseteq> set es"
  using clean_fold_subset [of r "[]" es] by (simp add: clean_elems_def)

lemma clean_push_rooted:
  "\<forall>x \<in> set st. x \<noteq> ''.'' \<and> x \<noteq> ''..'' \<Longrightarrow>
   \<forall>x \<in> set (clean_push True st e). x \<noteq> ''.'' \<and> x \<noteq> ''..''"
  by (cases st) (simp_all add: clean_push_def)

lemma clean_fold_rooted:
  "\<forall>x \<in> set st. x \<noteq> ''.'' \<and> x \<noteq> ''..'' \<Longrightarrow>
   \<forall>x \<in> set (foldl (clean_push True) st es). x \<noteq> ''.'' \<and> x \<noteq> ''..''"
proof (induction es arbitrary: st)
  case (Cons e es)
  show ?case
    using Cons.IH [OF clean_push_rooted [OF Cons.prems]] by simp
qed simp

text \<open>A cleaned absolute path has only plain elements: no empty one, no dot, no dot-dot.\<close>

lemma clean_elems_plain: "e \<in> set (clean_elems True (elems s)) \<Longrightarrow> plain_elem e"
proof -
  assume e: "e \<in> set (clean_elems True (elems s))"
  with clean_elems_subset have "e \<in> set (elems s)" by blast
  moreover from e have "e \<noteq> ''.'' \<and> e \<noteq> ''..''"
    using clean_fold_rooted [of "[]" "elems s"] by (auto simp: clean_elems_def)
  ultimately show ?thesis by (auto simp: plain_elem_def dest: elems_elem)
qed

lemma clean_fold_plain:
  "\<forall>e \<in> set es. plain_elem e \<Longrightarrow> foldl (clean_push r) st es = rev es @ st"
  by (induction es arbitrary: st) (auto simp: clean_push_def plain_elem_def)

lemma clean_elems_id: "\<forall>e \<in> set es. plain_elem e \<Longrightarrow> clean_elems r es = es"
  by (simp add: clean_elems_def clean_fold_plain)

lemma clean_elems_append_plain:
  "\<forall>e \<in> set fs. plain_elem e \<Longrightarrow> clean_elems r (es @ fs) = clean_elems r es @ fs"
  by (simp add: clean_elems_def clean_fold_plain)

abbreviation abs_elems :: "string \<Rightarrow> string list" where
  "abs_elems s \<equiv> clean_elems True (elems s)"


section \<open>Cleaned absolute paths\<close>

lemma IsAbs_Cons [simp]: "IsAbs (slash # s)"
  by (simp add: IsAbs_def)

lemma not_IsAbs_Nil [simp]: "\<not> IsAbs []"
  by (simp add: IsAbs_def)

lemma Clean_abs: "IsAbs s \<Longrightarrow> Clean s = slash # Join (abs_elems s) ''/''"
  by (auto simp: Clean_def Let_def)

lemma elems_Clean_abs: "IsAbs s \<Longrightarrow> elems (Clean s) = abs_elems s"
proof -
  assume "IsAbs s"
  moreover have "elems (Join (abs_elems s) ''/'') = abs_elems s"
    by (rule elems_Join) (auto dest: clean_elems_plain simp: plain_elem_def)
  ultimately show ?thesis by (simp add: Clean_abs)
qed

lemma IsAbs_Clean: "IsAbs s \<Longrightarrow> IsAbs (Clean s)"
  by (simp add: Clean_abs)

lemma Clean_idem_abs: "IsAbs s \<Longrightarrow> Clean (Clean s) = Clean s"
proof -
  assume a: "IsAbs s"
  have "abs_elems (Clean s) = abs_elems s"
    using a by (simp add: elems_Clean_abs clean_elems_id clean_elems_plain)
  with a show ?thesis by (metis Clean_abs IsAbs_Clean)
qed

lemma Clean_eq_iff: "IsAbs s \<Longrightarrow> IsAbs t \<Longrightarrow> Clean s = Clean t \<longleftrightarrow> abs_elems s = abs_elems t"
  by (metis Clean_abs elems_Clean_abs)


section \<open>Rel\<close>

lemma strip_common_prefix:
  "strip_common bs (bs @ ts) = ([], ts)"
  by (induction bs) simp_all

lemma strip_common_spec:
  "strip_common bs ts = (b, t) \<Longrightarrow> \<exists>c. bs = c @ b \<and> ts = c @ t \<and> (b = [] \<or> t = [] \<or> hd b \<noteq> hd t)"
proof (induction bs ts arbitrary: b t rule: strip_common.induct)
  case (1 b' bs t' ts)
  show ?case
  proof (cases "b' = t'")
    case True
    with 1 obtain c where "bs = c @ b \<and> ts = c @ t \<and> (b = [] \<or> t = [] \<or> hd b \<noteq> hd t)"
      by auto
    with True show ?thesis by (intro exI [of _ "b' # c"]) simp
  qed (use 1 in auto)
qed auto

lemma strip_common_Nil_iff: "fst (strip_common bs ts) = [] \<longleftrightarrow> prefix bs ts"
  by (induction bs ts rule: strip_common.induct) auto

lemma HasPrefix_dots_Join:
  "n > 0 \<Longrightarrow> HasPrefix (Join (replicate n ''..'' @ ts) ''/'') ''..''"
  by (cases n; cases "replicate (n - 1) ''..'' @ ts") (auto simp: HasPrefix_def)

lemma HasPrefix_dots_slash: "slash \<notin> set x \<Longrightarrow> HasPrefix (x @ slash # r) ''..'' \<longleftrightarrow> HasPrefix x ''..''"
  by (cases x; cases "tl x") (auto simp: HasPrefix_def)

lemma HasPrefix_Join_hd:
  assumes "ts \<noteq> []" and "slash \<notin> set (hd ts)"
  shows "HasPrefix (Join ts ''/'') ''..'' \<longleftrightarrow> HasPrefix (hd ts) ''..''"
  using assms by (cases "(ts, ''/'')" rule: Join.cases) (auto simp: HasPrefix_dots_slash)

text \<open>
  For two absolute paths: no error, and either the base's elements are a prefix of the
  target's and the result is the rest, or the result climbs.
\<close>

lemma Rel_abs:
  assumes "IsAbs p" and "IsAbs q"
  shows "Rel p q =
    (if abs_elems q = abs_elems p then Some ''.''
     else (case strip_common (abs_elems p) (abs_elems q) of (bs, ts) \<Rightarrow>
       Some (Join (replicate (length bs) ''..'' @ ts) ''/'')))"
proof -
  have nd: "Clean p \<noteq> ''.''" using assms(1) by (simp add: Clean_abs)
  have hd: "hd b \<noteq> ''..''" if "strip_common (abs_elems p) (abs_elems q) = (b, t)" "b \<noteq> []" for b t
  proof -
    from strip_common_spec [OF that(1)] that(2) have "hd b \<in> set (abs_elems p)" by auto
    then show ?thesis by (auto dest: clean_elems_plain simp: plain_elem_def)
  qed
  show ?thesis
    using assms nd hd
    by (auto simp: Rel_def Let_def Clean_eq_iff IsAbs_Clean elems_Clean_abs split: prod.splits)
qed

end
