(* ===== verification/Config.thy ===== *)
theory Config
  imports Errors Go_Filepath "HOL-Library.Multiset"
begin

text \<open>
  pkg/common/config.go and constants.go: the normal form of configuration keys, the merge of the
  four sources of configuration, redaction, and the endpoint parsers over \<open>net/url\<close>, whose
  \<open>ParseRequestURI\<close> is a parameter.

  Functions that \<open>range\<close> over a map take its entries in the order the runtime visits them.
\<close>

record config =
  Endpoint :: string
  NodeID :: string
  SecretPath :: string
  PoolServiceEndpoint :: string
  PrometheusExporterPort :: int
  StoragePath :: string

definition driverName :: string where
  "driverName = ''irods.csi.cyverse.org''"

definition GetDriverName :: string where
  "GetDriverName = driverName"

definition NormalizeConfigKey :: "string \<Rightarrow> string" where
  "NormalizeConfigKey key0 =
     (let key = ToLower key0 in
      if key = ''driver'' then ''client'' else DeleteChar CHR ''_'' key)"

text \<open>One of the three loops of MergeConfig: non-empty values are stored under the normal key.\<close>

fun merge_entries :: "gomap \<Rightarrow> gomap \<Rightarrow> gomap" where
  "merge_entries configs [] = configs"
| "merge_entries configs ((k, v) # es) =
     merge_entries (if length v > 0 then AList.update (NormalizeConfigKey k) v configs else configs) es"

definition MergeConfig :: "config \<Rightarrow> gomap \<Rightarrow> gomap \<Rightarrow> gomap \<Rightarrow> gomap" where
  "MergeConfig driverConfig driverSecrets volSecrets volParams =
     (let configs = merge_entries [] volSecrets;
          configs = merge_entries configs volParams;
          configs = merge_entries configs driverSecrets;
          configs = (if length (PoolServiceEndpoint driverConfig) > 0
            then AList.update (NormalizeConfigKey ''pool_endpoint'') (PoolServiceEndpoint driverConfig) configs
            else configs);
          configs = (if length (StoragePath driverConfig) > 0
            then AList.update (NormalizeConfigKey ''storage_path'') (StoragePath driverConfig) configs
            else configs)
      in configs)"

fun redact_entries :: "gomap \<Rightarrow> gomap \<Rightarrow> gomap" where
  "redact_entries newConfigs [] = newConfigs"
| "redact_entries newConfigs ((k, v) # es) =
     redact_entries
       (if k = NormalizeConfigKey ''password'' \<or> k = NormalizeConfigKey ''irods_user_password''
        then AList.update k ''**REDACTED**'' newConfigs
        else AList.update k v newConfigs) es"

definition RedactConfig :: "gomap \<Rightarrow> gomap" where
  "RedactConfig config = redact_entries [] config"

subsection \<open>Endpoints\<close>

record url =
  url_Scheme :: string
  url_Host :: string
  url_Path :: string

type_synonym uri_parser = "string \<Rightarrow> go_error + url"

definition parseRawURL :: "uri_parser \<Rightarrow> string \<Rightarrow> go_error + string \<times> string \<times> string" where
  "parseRawURL parse rawurl =
     (if length (TrimSpace rawurl) = 0 then Inl (XErr ''empty raw url'' [])
      else
        let retry = (\<lambda>err. case parse (''tcp://'' @ rawurl) of
              Inl repErr \<Rightarrow> Inl (XErr ''could not parse raw url: %s, error: %w'' [AStr rawurl, err])
            | Inr u \<Rightarrow> Inr (''tcp'', url_Host u, []))
        in case parse rawurl of
             Inl err \<Rightarrow> retry (AErr err)
           | Inr u \<Rightarrow>
               if url_Host u = [] \<and> url_Path u = [] then retry ANil
               else
                 let scheme = ToLower (url_Scheme u) in
                 if scheme = ''unix'' then Inr (''unix'', [], url_Path u)
                 else if scheme = ''tcp'' then Inr (''tcp'', url_Host u, [])
                 else Inr (url_Scheme u, url_Host u, url_Path u))"

definition ParsePoolServerEndpoint :: "uri_parser \<Rightarrow> string \<Rightarrow> go_error + string \<times> string" where
  "ParsePoolServerEndpoint parse endpoint =
     (case parseRawURL parse endpoint of
        Inl err \<Rightarrow> Inl err
      | Inr (scheme0, host, p) \<Rightarrow>
          let scheme = ToLower scheme0 in
          if scheme = ''tcp'' then Inr (''tcp'', host)
          else if scheme = ''unix'' then Inr (''unix'', JoinPath [''/'', TrimPrefix p ''/''])
          else if scheme = [] then
            (if length host > 0 then Inr (''tcp'', host) else Inl (XErr ''unknown host: %q'' [AStr host]))
          else Inl (XErr ''unsupported protocol: %q'' [AStr scheme]))"


section \<open>Normal form of keys\<close>

lemma NormalizeConfigKey_no_underscore: "CHR ''_'' \<notin> set (NormalizeConfigKey k)"
  by (simp add: NormalizeConfigKey_def Let_def)

lemma ToLower_client [simp]: "ToLower ''client'' = ''client''"
  by (simp add: ToLower_def lower_char_def)

lemma NormalizeConfigKey_lower: "ToLower (NormalizeConfigKey k) = NormalizeConfigKey k"
  by (simp add: NormalizeConfigKey_def Let_def ToLower_DeleteChar)

text \<open>A second normalisation changes a key only where the first one produced \<open>driver\<close>.\<close>

lemma NormalizeConfigKey_twice:
  "NormalizeConfigKey (NormalizeConfigKey k) =
     (if NormalizeConfigKey k = ''driver'' then ''client'' else NormalizeConfigKey k)"
  using NormalizeConfigKey_no_underscore [of k]
  by (auto simp: NormalizeConfigKey_def [of "NormalizeConfigKey k"] Let_def
      NormalizeConfigKey_lower DeleteChar_id)

text \<open>The labels the driver looks up, evaluated once.\<close>

lemma norm_labels [label_simps]:
  "NormalizeConfigKey ''client'' = ''client''"
  "NormalizeConfigKey ''pool_endpoint'' = ''poolendpoint''"
  "NormalizeConfigKey ''storage_path'' = ''storagepath''"
  "NormalizeConfigKey ''password'' = ''password''"
  "NormalizeConfigKey ''irods_user_password'' = ''irodsuserpassword''"
  "NormalizeConfigKey ''user_password'' = ''userpassword''"
  "NormalizeConfigKey ''enforce_proxy_access'' = ''enforceproxyaccess''"
  "NormalizeConfigKey ''mount_path_whitelist'' = ''mountpathwhitelist''"
  "NormalizeConfigKey ''provisioning_mode'' = ''provisioningmode''"
  "NormalizeConfigKey ''path'' = ''path''"
  "NormalizeConfigKey ''volume_root_path'' = ''volumerootpath''"
  "NormalizeConfigKey ''retain_data'' = ''retaindata''"
  "NormalizeConfigKey ''no_volume_dir'' = ''novolumedir''"
  "NormalizeConfigKey ''volume_encrypt_key'' = ''volumeencryptkey''"
  by code_simp+


section \<open>Merging\<close>

text \<open>The entries that count, under their normal keys, the last visited one first.\<close>

definition normed :: "gomap \<Rightarrow> gomap" where
  "normed es = rev (map (\<lambda>(k, v). (NormalizeConfigKey k, v)) (filter (\<lambda>(k, v). v \<noteq> []) es))"

lemma normed_Nil [simp]: "normed [] = []"
  by (simp add: normed_def)

lemma merge_entries_map_of: "map_of (merge_entries c es) = map_of c ++ map_of (normed es)"
proof (induction c es rule: merge_entries.induct)
  case (2 c k v es)
  then show ?case
    by (auto simp: normed_def update_conv' map_add_def fun_eq_iff split: option.splits)
qed simp

lemma merge_entries_ok: "go_map_ok c \<Longrightarrow> go_map_ok (merge_entries c es)"
  by (induction c es rule: merge_entries.induct) auto

lemma go_map_ok_MergeConfig: "go_map_ok (MergeConfig dc ds vs vp)"
  by (simp add: MergeConfig_def Let_def merge_entries_ok)

lemma map_of_MergeConfig:
  "map_of (MergeConfig dc ds vs vp) k =
     (if k = ''storagepath'' \<and> StoragePath dc \<noteq> [] then Some (StoragePath dc)
      else if k = ''poolendpoint'' \<and> PoolServiceEndpoint dc \<noteq> [] then Some (PoolServiceEndpoint dc)
      else case map_of (normed ds) k of
          Some v \<Rightarrow> Some v
        | None \<Rightarrow> (case map_of (normed vp) k of
              Some v \<Rightarrow> Some v
            | None \<Rightarrow> map_of (normed vs) k))"
  by (simp add: MergeConfig_def Let_def merge_entries_map_of update_conv' map_add_def label_simps
      split: option.splits)

lemma normed_value: "map_of (normed es) k = Some v \<Longrightarrow> v \<noteq> []"
  by (auto simp: normed_def dest!: map_of_SomeD)

lemma normed_key: "map_of (normed es) k = Some v \<Longrightarrow> \<exists>k'. (k', v) \<in> set es \<and> k = NormalizeConfigKey k'"
  by (auto simp: normed_def dest!: map_of_SomeD)

text \<open>Where the counting entries have distinct normal keys, the visiting order does not matter.\<close>

definition no_alias :: "gomap \<Rightarrow> bool" where
  "no_alias es \<longleftrightarrow> distinct (map (\<lambda>(k, v). NormalizeConfigKey k) (filter (\<lambda>(k, v). v \<noteq> []) es))"

lemma normed_perm:
  assumes "mset es = mset es'" and "no_alias es"
  shows "map_of (normed es) = map_of (normed es')"
proof (rule map_of_inject_set [THEN iffD2])
  have keys: "map fst (normed es) = rev (map (\<lambda>(k, v). NormalizeConfigKey k) (filter (\<lambda>(k, v). v \<noteq> []) es))"
    for es by (simp add: normed_def rev_map [symmetric] comp_def case_prod_beta)
  show "distinct (map fst (normed es))"
    using assms(2) by (simp add: keys no_alias_def)
  have "mset (filter (\<lambda>(k, v). v \<noteq> []) es) = mset (filter (\<lambda>(k, v). v \<noteq> []) es')"
    using assms(1) by simp
  then have m: "mset (normed es) = mset (normed es')"
    by (simp add: normed_def)
  have "mset (map fst (normed es)) = mset (map fst (normed es'))"
    using m by (metis mset_map)
  then show "distinct (map fst (normed es'))"
    using \<open>distinct (map fst (normed es))\<close> by (metis distinct_map mset_eq_imp_distinct_iff)
  show "set (normed es) = set (normed es')"
    using m by (rule mset_eq_setD)
qed

lemma map_of_redact_entries:
  "go_map_ok c \<Longrightarrow> go_map_ok es \<Longrightarrow> fst ` set c \<inter> fst ` set es = {} \<Longrightarrow>
   map_of (redact_entries c es) k =
     (case map_of es k of
        None \<Rightarrow> map_of c k
      | Some v \<Rightarrow> Some (if k = ''password'' \<or> k = ''irodsuserpassword'' then ''**REDACTED**'' else v))"
proof (induction c es rule: redact_entries.induct)
  case (2 c k' v es)
  then have "map_of es k' = None"
    by (simp add: go_map_ok_def map_of_eq_None_iff)
  with 2 show ?case
    by (auto simp: go_map_ok_def label_simps keys_update update_conv' distinct_update
        simp del: map_of_eq_Some_iff split: option.splits)
qed simp


section \<open>Pool endpoints\<close>

lemma ParsePoolServerEndpoint_cases:
  "ParsePoolServerEndpoint parse ep = Inr (s, a) \<Longrightarrow> s = ''tcp'' \<or> (s = ''unix'' \<and> IsAbs a \<and> Clean a = a)"
proof -
  assume r: "ParsePoolServerEndpoint parse ep = Inr (s, a)"
  have "IsAbs (JoinPath [''/'', t]) \<and> Clean (JoinPath [''/'', t]) = JoinPath [''/'', t]" for t
    by (simp add: JoinPath_def Clean_idem_abs IsAbs_Clean)
  with r show ?thesis
    by (auto simp: ParsePoolServerEndpoint_def Let_def split: sum.splits prod.splits if_splits)
qed

end
