(* ===== verification/Whitelist.thy ===== *)
theory Whitelist
  imports Go_Filepath
begin

text \<open>
  pkg/mounter/whitelist.go: the check that an iRODS path lies below an allowed collection.
  \<open>isSubDir\<close> asks whether the relative path from the item to the path starts with two dots.
  The lemmas compare it with the intended meaning, that the elements of the cleaned item are
  a prefix of the elements of the cleaned path.
\<close>

definition isSubDir :: "string \<Rightarrow> string \<Rightarrow> bool" where
  "isSubDir parent sub =
     (case Rel parent sub of
        None \<Rightarrow> False
      | Some rel \<Rightarrow> if \<not> HasPrefix rel ''..'' then True else False)"

fun IsMountPathAllowed :: "string list \<Rightarrow> string \<Rightarrow> bool" where
  "IsMountPathAllowed [] path = False"
| "IsMountPathAllowed (item # whitelist) path =
     (if isSubDir item path then True else IsMountPathAllowed whitelist path)"

text \<open>The specification: \<open>path\<close> is \<open>item\<close> or lies below it, after cleaning.\<close>

definition lies_below :: "string \<Rightarrow> string \<Rightarrow> bool" where
  "lies_below item path \<longleftrightarrow> IsAbs item \<and> IsAbs path \<and> prefix (abs_elems item) (abs_elems path)"

definition next_elem_dotted :: "string \<Rightarrow> string \<Rightarrow> bool" where
  "next_elem_dotted item path \<longleftrightarrow>
     (let r = drop (length (abs_elems item)) (abs_elems path) in r \<noteq> [] \<and> HasPrefix (hd r) ''..'')"

lemma IsMountPathAllowed_iff: "IsMountPathAllowed ws p \<longleftrightarrow> (\<exists>w \<in> set ws. isSubDir w p)"
  by (induction ws) auto

lemma Clean_not_abs: "\<not> IsAbs s \<Longrightarrow> \<not> IsAbs (Clean s)"
proof -
  assume n: "\<not> IsAbs s"
  let ?cs = "clean_elems False (elems s)"
  have "\<not> IsAbs (Join ?cs ''/'')"
  proof (cases "(?cs, ''/'')" rule: Join.cases)
    case (3 x y zs sep)
    then have "x \<in> set ?cs" by simp
    with clean_elems_subset have "x \<noteq> [] \<and> slash \<notin> set x" by (blast dest: elems_elem)
    with 3 show ?thesis by (cases x) (auto simp: IsAbs_def)
  next
    case (2 x sep)
    then have "x \<in> set ?cs" by simp
    with clean_elems_subset have "x \<noteq> [] \<and> slash \<notin> set x" by (blast dest: elems_elem)
    with 2 show ?thesis by (cases x) (auto simp: IsAbs_def)
  qed (simp add: IsAbs_def)
  moreover have "\<not> IsAbs ''.''" by (simp add: IsAbs_def)
  ultimately show ?thesis using n by (simp add: Clean_def Let_def)
qed

lemma Rel_mixed: "\<not> IsAbs p \<Longrightarrow> IsAbs q \<Longrightarrow> Rel p q = None"
proof -
  assume n: "\<not> IsAbs p" and a: "IsAbs q"
  then have "\<not> IsAbs (Clean p)" "IsAbs (Clean q)" by (simp_all add: Clean_not_abs IsAbs_Clean)
  moreover from this have "Clean q \<noteq> Clean p" by auto
  ultimately show ?thesis by (simp add: Rel_def Let_def)
qed

lemma isSubDir_abs:
  assumes "IsAbs p" and "IsAbs q"
  shows "isSubDir p q \<longleftrightarrow> lies_below p q \<and> \<not> next_elem_dotted p q"
proof (cases "abs_elems q = abs_elems p")
  case True
  then show ?thesis
    using assms by (simp add: isSubDir_def Rel_abs lies_below_def next_elem_dotted_def HasPrefix_def)
next
  case False
  obtain b t where s: "strip_common (abs_elems p) (abs_elems q) = (b, t)" by force
  from strip_common_spec [OF s] obtain c where c: "abs_elems p = c @ b" "abs_elems q = c @ t" by auto
  show ?thesis
  proof (cases "b = []")
    case True
    with c False have t: "t \<noteq> []" by auto
    with c have "hd t \<in> set (abs_elems q)" by auto
    then have "slash \<notin> set (hd t)" by (auto dest: clean_elems_plain simp: plain_elem_def)
    with True t c False s assms show ?thesis
      by (simp add: isSubDir_def Rel_abs lies_below_def next_elem_dotted_def HasPrefix_Join_hd)
  next
    case nb: False
    then have "\<not> prefix (abs_elems p) (abs_elems q)"
      using strip_common_Nil_iff [of "abs_elems p" "abs_elems q"] s by simp
    with nb False s assms show ?thesis
      by (simp add: isSubDir_def Rel_abs lies_below_def HasPrefix_dots_Join)
  qed
qed

lemma isSubDir_iff:
  "IsAbs q \<Longrightarrow> isSubDir p q \<longleftrightarrow> lies_below p q \<and> \<not> next_elem_dotted p q"
  by (cases "IsAbs p") (simp_all add: isSubDir_abs, simp add: isSubDir_def Rel_mixed lies_below_def)

lemma lies_below_root: "IsAbs path \<Longrightarrow> lies_below ''/'' path"
  by (simp add: lies_below_def clean_elems_def)

end
