(* ===== verification/Client_Common.thy ===== *)
theory Client_Common
  imports Config Whitelist
begin

text \<open>
  pkg/client/common/common.go and kernel.go, and the overlay driver selection of
  pkg/client/irods/overlayfs.go: client types, the settings read straight from the merged
  configuration, the paths of a volume's private data, and kernel versions.
\<close>

section \<open>Client types\<close>

datatype client_type = IrodsFuseClientType | WebdavClientType | NfsClientType

definition client_type_string :: "client_type \<Rightarrow> string" where
  "client_type_string t =
     (case t of IrodsFuseClientType \<Rightarrow> ''irodsfuse'' | WebdavClientType \<Rightarrow> ''webdav'' | NfsClientType \<Rightarrow> ''nfs'')"

definition IsValidClientType :: "string \<Rightarrow> bool" where
  "IsValidClientType client =
     (if client = client_type_string IrodsFuseClientType then True
      else if client = client_type_string WebdavClientType then True
      else if client = client_type_string NfsClientType then True
      else False)"

definition GetValidClientType :: "string \<Rightarrow> client_type" where
  "GetValidClientType client =
     (let c = ToLower client in
      if c = client_type_string IrodsFuseClientType then IrodsFuseClientType
      else if c = client_type_string WebdavClientType then WebdavClientType
      else if c = client_type_string NfsClientType then NfsClientType
      else IrodsFuseClientType)"

definition GetClientType :: "gomap \<Rightarrow> client_type" where
  "GetClientType params = GetValidClientType (go_lookup params (NormalizeConfigKey ''client''))"


section \<open>Settings\<close>

definition GetConfigEnforceProxyAccess :: "gomap \<Rightarrow> bool" where
  "GetConfigEnforceProxyAccess configs =
     (case ParseBool (go_lookup configs (NormalizeConfigKey ''enforce_proxy_access'')) of
        None \<Rightarrow> False
      | Some b \<Rightarrow> b)"

definition whitelist_item :: "string \<Rightarrow> string" where
  "whitelist_item raw =
     (let item = TrimSpace raw in if length item = 0 then ''/'' else item)"

definition GetConfigMountPathWhitelist :: "gomap \<Rightarrow> string list" where
  "GetConfigMountPathWhitelist configs =
     (case map_of configs (NormalizeConfigKey ''mount_path_whitelist'') of
        Some whitelist \<Rightarrow>
          if length whitelist > 0 then map whitelist_item (Split whitelist CHR '','') else [''/'']
      | None \<Rightarrow> [''/''])"

text \<open>
  The four data paths look the storage path up under the key \<open>storage_path\<close> and normalise the
  value found, where the merged configuration has the key \<open>storagepath\<close>.
\<close>

definition storage_base :: "gomap \<Rightarrow> string" where
  "storage_base configs = NormalizeConfigKey (go_lookup configs ''storage_path'')"

definition GetConfigDataRootPath :: "gomap \<Rightarrow> string \<Rightarrow> string" where
  "GetConfigDataRootPath configs volID =
     JoinPath [storage_base configs, client_type_string (GetClientType configs), volID]"

definition GetConfigOverlayFSLowerPath :: "gomap \<Rightarrow> string \<Rightarrow> string" where
  "GetConfigOverlayFSLowerPath configs volID =
     JoinPath [storage_base configs, client_type_string (GetClientType configs), volID @ ''-overlayfs-lower'']"

definition GetConfigOverlayFSUpperPath :: "gomap \<Rightarrow> string \<Rightarrow> string" where
  "GetConfigOverlayFSUpperPath configs volID =
     JoinPath [storage_base configs, client_type_string (GetClientType configs), volID @ ''-overlayfs-upper'']"

definition GetConfigOverlayFSWorkDirPath :: "gomap \<Rightarrow> string \<Rightarrow> string" where
  "GetConfigOverlayFSWorkDirPath configs volID =
     JoinPath [storage_base configs, client_type_string (GetClientType configs), volID @ ''-overlayfs-workdir'']"


section \<open>Kernel versions\<close>

record kernel_info =
  Major :: int
  Minor :: int
  Patch :: int

text \<open>\<open>GetKernelInfo\<close> after the file was read: \<open>data\<close> is what \<open>os.ReadFile\<close> returned.\<close>

definition GetKernelInfo :: "go_error + string \<Rightarrow> go_error + kernel_info" where
  "GetKernelInfo data =
     (case data of
        Inl err \<Rightarrow> Inl (XErr ''failed to read os release file at %q'' [AStr ''/proc/sys/kernel/osrelease''])
      | Inr txt \<Rightarrow>
          let kernelVersion = TrimSpace txt;
              kernelVersionSplits = Split kernelVersion CHR ''-'' in
          if length kernelVersionSplits = 0
          then Inl (XErr ''failed to get kernel verion info out of string %q'' [AStr kernelVersion])
          else
            let first = hd kernelVersionSplits;
                parts = Split first CHR ''.'' in
            if length parts \<noteq> 3
            then Inl (XErr ''version string %q doesn't have 3 parts'' [AStr first])
            else
              let conv = (\<lambda>i. XErr ''failed to convert string %q to int'' [AStr (parts ! i)]) in
              (case Atoi (parts ! 0) of None \<Rightarrow> Inl (conv 0) | Some kv1 \<Rightarrow>
              (case Atoi (parts ! 1) of None \<Rightarrow> Inl (conv 1) | Some kv2 \<Rightarrow>
              (case Atoi (parts ! 2) of None \<Rightarrow> Inl (conv 2) | Some kv3 \<Rightarrow>
                 Inr \<lparr>Major = kv1, Minor = kv2, Patch = kv3\<rparr>))))"

definition HasHigherKernelVersionThan :: "kernel_info \<Rightarrow> int \<Rightarrow> int \<Rightarrow> int \<Rightarrow> bool" where
  "HasHigherKernelVersionThan info major minor patch =
     (if Major info > major then True
      else if Major info < major then False
      else if Minor info > minor then True
      else if Minor info < minor then False
      else if Patch info > patch then True
      else if Patch info < patch then False
      else True)"

section \<open>Overlay drivers\<close>

datatype overlay_driver = OverlayDriverType | FuseOverlayFSDriverType

definition overlay_driver_string :: "overlay_driver \<Rightarrow> string" where
  "overlay_driver_string d =
     (case d of OverlayDriverType \<Rightarrow> ''overlay'' | FuseOverlayFSDriverType \<Rightarrow> ''fuse-overlayfs'')"

definition GetOverlayFSDriverType :: "string \<Rightarrow> overlay_driver" where
  "GetOverlayFSDriverType driver =
     (let d = ToLower driver in
      if d = overlay_driver_string OverlayDriverType then OverlayDriverType
      else if d = overlay_driver_string FuseOverlayFSDriverType then FuseOverlayFSDriverType
      else OverlayDriverType)"

definition overlay_supported :: "go_error + kernel_info \<Rightarrow> bool" where
  "overlay_supported info =
     (case info of Inl err \<Rightarrow> False | Inr i \<Rightarrow> HasHigherKernelVersionThan i 5 15 0)"


section \<open>Lemmas\<close>

lemma GetValidClientType_string [simp]: "GetValidClientType (client_type_string t) = t"
  by (cases t) (simp_all add: GetValidClientType_def client_type_string_def ToLower_def lower_char_def)

lemma GetOverlayFSDriverType_string [simp]: "GetOverlayFSDriverType (overlay_driver_string d) = d"
  by (cases d) (simp_all add: GetOverlayFSDriverType_def overlay_driver_string_def ToLower_def lower_char_def)

lemma IsValidClientType_iff: "IsValidClientType s \<longleftrightarrow> (\<exists>t. s = client_type_string t)"
proof
  assume "IsValidClientType s"
  then show "\<exists>t. s = client_type_string t"
    unfolding IsValidClientType_def by (metis (full_types))
next
  assume "\<exists>t. s = client_type_string t"
  then obtain t where "s = client_type_string t" ..
  then show "IsValidClientType s"
    by (cases t) (simp_all add: IsValidClientType_def)
qed

lemma whitelist_item_not_Nil: "whitelist_item s \<noteq> []"
  by (simp add: whitelist_item_def Let_def)

lemma GetConfigMountPathWhitelist_not_Nil: "GetConfigMountPathWhitelist c \<noteq> []"
  by (auto simp: GetConfigMountPathWhitelist_def split: option.splits)

lemma HasHigherKernelVersionThan_lex:
  "HasHigherKernelVersionThan i a b c \<longleftrightarrow>
     a < Major i \<or> a = Major i \<and> (b < Minor i \<or> b = Minor i \<and> c \<le> Patch i)"
  by (auto simp: HasHigherKernelVersionThan_def)

text \<open>Kernel versions in their lexicographic order: the method is the test against a lower bound.\<close>

instantiation kernel_info_ext :: (linorder) linorder
begin

definition less_eq_kernel_info_ext :: "'a kernel_info_scheme \<Rightarrow> 'a kernel_info_scheme \<Rightarrow> bool" where
  "i \<le> j \<longleftrightarrow> Major i < Major j \<or> Major i = Major j \<and> (Minor i < Minor j \<or> Minor i = Minor j \<and>
     (Patch i < Patch j \<or> Patch i = Patch j \<and> kernel_info.more i \<le> kernel_info.more j))"

definition less_kernel_info_ext :: "'a kernel_info_scheme \<Rightarrow> 'a kernel_info_scheme \<Rightarrow> bool" where
  "i < j \<longleftrightarrow> i \<le> j \<and> \<not> j \<le> (i :: 'a kernel_info_scheme)"

instance
  by standard (auto simp: less_eq_kernel_info_ext_def less_kernel_info_ext_def intro: kernel_info.equality)

end

lemma HasHigherKernelVersionThan_le:
  "HasHigherKernelVersionThan i a b c \<longleftrightarrow> \<lparr>Major = a, Minor = b, Patch = c\<rparr> \<le> i"
  by (auto simp: HasHigherKernelVersionThan_def less_eq_kernel_info_ext_def)

lemma overlay_supported_mono: "overlay_supported (Inr i) \<Longrightarrow> i \<le> j \<Longrightarrow> overlay_supported (Inr j)"
  by (simp add: overlay_supported_def HasHigherKernelVersionThan_le)

text \<open>The merged configuration never has a key with an underscore, so the base is always empty.\<close>

lemma storage_base_merged: "storage_base (MergeConfig dc ds vs vp) = []"
proof -
  have "map_of (normed es) ''storage_path'' = None" for es
  proof -
    have "CHR ''_'' \<in> set ''storage_path''" by simp
    then have n: "''storage_path'' \<noteq> NormalizeConfigKey k" for k
      using NormalizeConfigKey_no_underscore by metis
    show ?thesis
    proof (rule ccontr)
      assume "map_of (normed es) ''storage_path'' \<noteq> None"
      then obtain v where "map_of (normed es) ''storage_path'' = Some v" by blast
      with n show False by (blast dest: normed_key)
    qed
  qed
  then have "go_lookup (MergeConfig dc ds vs vp) ''storage_path'' = []"
    by (simp add: go_lookup_def map_of_MergeConfig)
  then show ?thesis
    by (simp add: storage_base_def NormalizeConfigKey_def ToLower_def DeleteChar_def)
qed

text \<open>
  The kernel version is read back from what the kernel prints, \<open>major.minor.patch\<close> with an
  optional suffix after a dash, and a newline.
\<close>

lemma GetKernelInfo_print:
  assumes nums: "0 \<le> a" "a \<le> max_int64" "0 \<le> b" "b \<le> max_int64" "0 \<le> c" "c \<le> max_int64"
    and sfx: "sfx = [] \<or> hd sfx = CHR ''-''" "\<forall>x \<in> set sfx. \<not> is_space x"
  shows "GetKernelInfo (Inr (Join [Itoa a, Itoa b, Itoa c] ''.'' @ sfx @ [CHR 0x0A]))
    = Inr \<lparr>Major = a, Minor = b, Patch = c\<rparr>"
proof -
  let ?v = "Join [Itoa a, Itoa b, Itoa c] ''.''"
  have dig: "is_digit x \<or> x = CHR ''.''" if "x \<in> set ?v" for x
    using that nums by (auto dest: Itoa_nonneg_digits)
  have "\<not> is_digit CHR ''-''" and "\<not> is_space CHR ''.''"
    by (simp_all add: is_digit_def is_space_def)
  then have nd: "CHR ''-'' \<notin> set ?v" "\<forall>x \<in> set ?v. \<not> is_space x"
    using dig digit_not_space by fastforce+
  have trim: "TrimSpace (?v @ sfx @ [CHR 0x0A]) = ?v @ sfx"
  proof -
    have "is_space CHR 0x0A" by (simp add: is_space_def)
    moreover have "\<forall>x \<in> set (?v @ sfx). \<not> is_space x" using nd(2) sfx(2) by auto
    ultimately have "TrimSpace ((?v @ sfx) @ [CHR 0x0A]) = ?v @ sfx" by (intro TrimSpace_snoc)
    then show ?thesis by (simp only: append_assoc)
  qed
  have first: "hd (Split (?v @ sfx) CHR ''-'') = ?v"
    using sfx(1) hd_Split [OF nd(1)] Split_no_sep [OF nd(1)] by (cases sfx) auto
  have "Split ?v CHR ''.'' = [Itoa a, Itoa b, Itoa c]"
    by (rule Split_Join) (use nums in \<open>auto dest!: Itoa_nonneg_digits simp: is_digit_def\<close>)
  moreover have "Atoi (Itoa a) = Some a" "Atoi (Itoa b) = Some b" "Atoi (Itoa c) = Some c"
    using nums by (simp_all add: Atoi_Itoa min_int64_def)
  ultimately show ?thesis
    using trim first by (simp add: GetKernelInfo_def Let_def del: Join.simps)
qed

end
