(* ===== verification/Irods_Connection.thy ===== *)
theory Irods_Connection
  imports Client_Common
begin

text \<open>
  pkg/client/irods/connection_info.go: the connection information of an iRODS volume, read from
  the merged configuration and validated. The Go struct embeds \<open>irodsfs_commons.Config\<close>, a
  third-party struct; the record lists the fields the driver reads or writes, and one opaque
  field for the rest. What the third-party packages compute (defaults, the two \<open>Fix\<close> methods,
  the validation of path mappings, JSON decoding into their structs, URI parsing) is the
  parameter \<open>irods_lib\<close>.
\<close>

section \<open>Types\<close>

record vpath_mapping =
  IRODSPath :: string
  MappingPath :: string
  ResourceType :: string
  vpath_rest :: string

record irodsfs_config =
  AuthenticationScheme :: string
  ClientServerNegotiation :: string
  ClientServerPolicy :: string
  Host :: string
  Port :: int
  ZoneName :: string
  ClientZoneName :: string
  Username :: string
  ClientUsername :: string
  DefaultResource :: string
  EncryptionAlgorithm :: string
  EncryptionKeySize :: int
  EncryptionSaltSize :: int
  EncryptionNumHashRounds :: int
  SSLCACertificateFile :: string
  SSLCACertificatePath :: string
  SSLVerifyServer :: string
  Password :: string
  SSLServerName :: string
  PathMappings :: "vpath_mapping list"
  ReadAheadMax :: int
  NoPermissionCheck :: bool
  NoSetXattr :: bool
  UID :: int
  GID :: int
  SystemUser :: string
  MetadataConnection :: "string option"
  IOConnection :: "string option"
  Cache :: "string option"
  PoolEndpoint :: string
  Profile :: bool
  ProfileServicePort :: int
  Debug :: bool
  Readonly :: bool
  DataRootPath :: string
  InstanceID :: string
  config_rest :: string

record conn_info = irodsfs_config +
  MountTimeout :: int
  OverlayFS :: bool
  OverlayFSDriver :: string

text \<open>
  \<open>MetadataConnection\<close>, \<open>IOConnection\<close> and \<open>Cache\<close> are third-party structs that the driver
  only resets to their defaults and overlays with a JSON text: \<^const>\<open>None\<close> is the default,
  \<open>Some js\<close> the default overlaid with \<open>js\<close>.
\<close>

datatype json_target = JMetadata | JIO | JCache

record irods_lib =
  lib_default_config :: irodsfs_config
  lib_fix_auth :: "irodsfs_config \<Rightarrow> irodsfs_config"
  lib_fix_system_user :: "irodsfs_config \<Rightarrow> irodsfs_config \<times> go_error option"
  lib_validate_mappings :: "vpath_mapping list \<Rightarrow> go_error option"
  lib_json_mappings :: "string \<Rightarrow> go_error + vpath_mapping list"
  lib_json_section :: "json_target \<Rightarrow> string \<Rightarrow> go_error option"
  lib_parse_uri :: uri_parser

definition irodsfsAnonymousUser :: string where
  "irodsfsAnonymousUser = ''anonymous''"

definition irodsfsDefaultMountTimeout :: int where
  "irodsfsDefaultMountTimeout = 60"

definition set_config :: "irodsfs_config \<Rightarrow> conn_info \<Rightarrow> conn_info" where
  "set_config cfg ci = irodsfs_config.extend cfg (irodsfs_config.more ci)"

definition get_config :: "conn_info \<Rightarrow> irodsfs_config" where
  "get_config ci = irodsfs_config.truncate ci"

definition NewIRODSFSConnectionInfo :: "irods_lib \<Rightarrow> conn_info" where
  "NewIRODSFSConnectionInfo lib =
     irodsfs_config.extend (lib_default_config lib)
       \<lparr>MountTimeout = irodsfsDefaultMountTimeout, OverlayFS = False,
        OverlayFSDriver = overlay_driver_string OverlayDriverType\<rparr>"

definition SetAnonymousUser :: "conn_info \<Rightarrow> conn_info" where
  "SetAnonymousUser ci = ci\<lparr>Username := irodsfsAnonymousUser\<rparr>"

definition IsAnonymousUser :: "conn_info \<Rightarrow> bool" where
  "IsAnonymousUser ci \<longleftrightarrow> Username ci = irodsfsAnonymousUser"

definition IsValidClientUser :: "conn_info \<Rightarrow> bool" where
  "IsValidClientUser ci =
     (if length (Username ci) > 0 \<and> Username ci \<noteq> irodsfsAnonymousUser
      then ClientUsername ci = irodsfsAnonymousUser
      else False)"


section \<open>Reading the configuration\<close>

text \<open>The cases of the switch in \<open>getConnectionInfoFromMap\<close>.\<close>

datatype conn_key =
    CK_AuthScheme | CK_Negotiation | CK_Policy | CK_Host | CK_Port | CK_Zone | CK_ClientZone
  | CK_User | CK_ClientUser | CK_Resource | CK_EncAlgorithm | CK_EncKeySize | CK_EncSaltSize
  | CK_HashRounds | CK_CaFile | CK_CaPath | CK_VerifyServer | CK_Password | CK_SslServerName
  | CK_Mappings | CK_Path | CK_ReadAhead | CK_NoPermCheck | CK_NoSetXattr | CK_Uid | CK_Gid
  | CK_SystemUser | CK_Metadata | CK_IO | CK_Cache | CK_PoolEndpoint | CK_Profile | CK_ProfilePort
  | CK_OverlayFS | CK_OverlayDriver | CK_MountTimeout | CK_Debug | CK_ReadOnly

definition conn_labels :: "(string \<times> conn_key) list" where
  "conn_labels =
    [(''irods_authentication_scheme'', CK_AuthScheme), (''authentication_scheme'', CK_AuthScheme),
     (''auth_scheme'', CK_AuthScheme),
     (''irods_client_server_negotiation'', CK_Negotiation), (''client_server_negotiation'', CK_Negotiation),
     (''irods_client_server_policy'', CK_Policy), (''client_server_negotiation_policy'', CK_Policy),
     (''cs_negotiation_policy'', CK_Policy),
     (''irods_host'', CK_Host), (''hostname'', CK_Host), (''host'', CK_Host),
     (''irods_port'', CK_Port), (''port'', CK_Port),
     (''irods_zone_name'', CK_Zone), (''zone_name'', CK_Zone), (''zone'', CK_Zone),
     (''irods_client_zone_name'', CK_ClientZone), (''client_zone_name'', CK_ClientZone),
     (''client_zone'', CK_ClientZone),
     (''irods_user_name'', CK_User), (''user'', CK_User), (''user_name'', CK_User),
     (''irods_client_user_name'', CK_ClientUser), (''client_user'', CK_ClientUser),
     (''client_user_name'', CK_ClientUser),
     (''irods_default_resource'', CK_Resource), (''default_resource'', CK_Resource),
     (''resource'', CK_Resource),
     (''irods_encryption_algorithm'', CK_EncAlgorithm), (''encryption_algorithm'', CK_EncAlgorithm),
     (''irods_encryption_key_size'', CK_EncKeySize), (''encryption_key_size'', CK_EncKeySize),
     (''irods_encryption_salt_size'', CK_EncSaltSize), (''encryption_salt_size'', CK_EncSaltSize),
     (''irods_encryption_num_hash_rounds'', CK_HashRounds), (''encryption_num_hash_rounds'', CK_HashRounds),
     (''hash_rounds'', CK_HashRounds),
     (''irods_ssl_ca_certificate_file'', CK_CaFile), (''ca_certificate_file'', CK_CaFile),
     (''irods_ssl_ca_certificate_path'', CK_CaPath), (''ca_certificate_path'', CK_CaPath),
     (''irods_ssl_verify_server'', CK_VerifyServer), (''verify_server'', CK_VerifyServer),
     (''irods_user_password'', CK_Password), (''user_password'', CK_Password), (''password'', CK_Password),
     (''irods_ssl_server_name'', CK_SslServerName), (''ssl_server_name'', CK_SslServerName),
     (''path_mappings'', CK_Mappings), (''path_mapping_json'', CK_Mappings),
     (''path'', CK_Path),
     (''read_ahead_max'', CK_ReadAhead),
     (''no_permission_check'', CK_NoPermCheck),
     (''no_set_xattr'', CK_NoSetXattr),
     (''uid'', CK_Uid), (''user_id'', CK_Uid),
     (''gid'', CK_Gid), (''group_id'', CK_Gid),
     (''system_user'', CK_SystemUser),
     (''metadata_connection'', CK_Metadata), (''metadata_connection_json'', CK_Metadata),
     (''io_connection'', CK_IO), (''io_connection_json'', CK_IO),
     (''cache'', CK_Cache), (''cache_json'', CK_Cache),
     (''pool_endpoint'', CK_PoolEndpoint),
     (''enable_profile'', CK_Profile), (''profile'', CK_Profile),
     (''profile_service_port'', CK_ProfilePort), (''profile_port'', CK_ProfilePort),
     (''enable_overlayfs'', CK_OverlayFS), (''overlayfs'', CK_OverlayFS),
     (''overlayfs_driver'', CK_OverlayDriver),
     (''mount_timeout'', CK_MountTimeout),
     (''debug'', CK_Debug),
     (''read_only'', CK_ReadOnly)]"

definition conn_key_of :: "string \<Rightarrow> conn_key option" where
  "conn_key_of nk = map_of (map (\<lambda>(l, c). (NormalizeConfigKey l, c)) conn_labels) nk"

definition arg_err :: "string \<Rightarrow> string \<Rightarrow> string \<Rightarrow> go_error" where
  "arg_err fmt k v = StatusErr InvalidArgument fmt [AStr k, AErr (XErr ''strconv: parsing %q'' [AStr v])]"

definition atoi_arg :: "string \<Rightarrow> string \<Rightarrow> string \<Rightarrow> (int \<Rightarrow> conn_info) \<Rightarrow> go_error + conn_info" where
  "atoi_arg fmt k v f = (case Atoi v of None \<Rightarrow> Inl (arg_err fmt k v) | Some n \<Rightarrow> Inr (f n))"

definition bool_arg :: "string \<Rightarrow> string \<Rightarrow> (bool \<Rightarrow> conn_info) \<Rightarrow> go_error + conn_info" where
  "bool_arg k v f =
     (case ParseBool v of
        None \<Rightarrow> Inl (arg_err ''Argument %q must be a valid boolean string - %v'' k v)
      | Some b \<Rightarrow> Inr (f b))"

definition json_arg :: "string \<Rightarrow> go_error option \<Rightarrow> conn_info \<Rightarrow> go_error + conn_info" where
  "json_arg k err ci =
     (case err of
        Some e \<Rightarrow> Inl (StatusErr InvalidArgument ''Argument %q must be a valid json string - %v'' [AStr k, AErr e])
      | None \<Rightarrow> Inr ci)"

abbreviation "fmt_port \<equiv> ''Argument %q must be a valid port number - %v''"
abbreviation "fmt_number \<equiv> ''Argument %q must be a valid number - %v''"

definition set_conn :: "irods_lib \<Rightarrow> conn_key \<Rightarrow> string \<Rightarrow> string \<Rightarrow> conn_info \<Rightarrow> go_error + conn_info" where
  "set_conn lib ck k v ci =
    (case ck of
       CK_AuthScheme \<Rightarrow> Inr (ci\<lparr>AuthenticationScheme := v\<rparr>)
     | CK_Negotiation \<Rightarrow> Inr (ci\<lparr>ClientServerNegotiation := v\<rparr>)
     | CK_Policy \<Rightarrow> Inr (ci\<lparr>ClientServerPolicy := v\<rparr>)
     | CK_Host \<Rightarrow> Inr (ci\<lparr>Host := v\<rparr>)
     | CK_Port \<Rightarrow> atoi_arg fmt_port k v (\<lambda>p. ci\<lparr>Port := p\<rparr>)
     | CK_Zone \<Rightarrow> Inr (ci\<lparr>ZoneName := v\<rparr>)
     | CK_ClientZone \<Rightarrow> Inr (ci\<lparr>ClientZoneName := v\<rparr>)
     | CK_User \<Rightarrow> Inr (ci\<lparr>Username := v\<rparr>)
     | CK_ClientUser \<Rightarrow> Inr (ci\<lparr>ClientUsername := v\<rparr>)
     | CK_Resource \<Rightarrow> Inr (ci\<lparr>DefaultResource := v\<rparr>)
     | CK_EncAlgorithm \<Rightarrow> Inr (ci\<lparr>EncryptionAlgorithm := v\<rparr>)
     | CK_EncKeySize \<Rightarrow> atoi_arg fmt_number k v (\<lambda>s. ci\<lparr>EncryptionKeySize := s\<rparr>)
     | CK_EncSaltSize \<Rightarrow> atoi_arg fmt_number k v (\<lambda>s. ci\<lparr>EncryptionSaltSize := s\<rparr>)
     | CK_HashRounds \<Rightarrow> atoi_arg fmt_number k v (\<lambda>s. ci\<lparr>EncryptionNumHashRounds := s\<rparr>)
     | CK_CaFile \<Rightarrow> Inr (ci\<lparr>SSLCACertificateFile := v\<rparr>)
     | CK_CaPath \<Rightarrow> Inr (ci\<lparr>SSLCACertificatePath := v\<rparr>)
     | CK_VerifyServer \<Rightarrow> Inr (ci\<lparr>SSLVerifyServer := v\<rparr>)
     | CK_Password \<Rightarrow> Inr (ci\<lparr>Password := v\<rparr>)
     | CK_SslServerName \<Rightarrow> Inr (ci\<lparr>SSLServerName := v\<rparr>)
     | CK_Mappings \<Rightarrow>
         (case lib_json_mappings lib v of
            Inl e \<Rightarrow> Inl (StatusErr InvalidArgument ''Argument %q must be a valid json string - %v'' [AStr k, AErr e])
          | Inr ms \<Rightarrow> Inr (ci\<lparr>PathMappings := ms\<rparr>))
     | CK_Path \<Rightarrow>
         (if \<not> IsAbs v then Inl (StatusErr InvalidArgument ''Argument %q must be an absolute path'' [AStr k])
          else Inr (ci\<lparr>PathMappings :=
            [\<lparr>IRODSPath = v, MappingPath = ''/'', ResourceType = ''dir'', vpath_rest = []\<rparr>]\<rparr>))
     | CK_ReadAhead \<Rightarrow> atoi_arg fmt_number k v (\<lambda>n. ci\<lparr>ReadAheadMax := n\<rparr>)
     | CK_NoPermCheck \<Rightarrow> bool_arg k v (\<lambda>b. ci\<lparr>NoPermissionCheck := b\<rparr>)
     | CK_NoSetXattr \<Rightarrow> bool_arg k v (\<lambda>b. ci\<lparr>NoSetXattr := b\<rparr>)
     | CK_Uid \<Rightarrow> atoi_arg ''Argument %q must be a valid uid number - %v'' k v (\<lambda>u. ci\<lparr>UID := u\<rparr>)
     | CK_Gid \<Rightarrow> atoi_arg ''Argument %q must be a valid gid number - %v'' k v (\<lambda>g. ci\<lparr>GID := g\<rparr>)
     | CK_SystemUser \<Rightarrow> Inr (ci\<lparr>SystemUser := v\<rparr>)
     | CK_Metadata \<Rightarrow> json_arg k (lib_json_section lib JMetadata v) (ci\<lparr>MetadataConnection := Some v\<rparr>)
     | CK_IO \<Rightarrow> json_arg k (lib_json_section lib JIO v) (ci\<lparr>IOConnection := Some v\<rparr>)
     | CK_Cache \<Rightarrow> json_arg k (lib_json_section lib JCache v) (ci\<lparr>Cache := Some v\<rparr>)
     | CK_PoolEndpoint \<Rightarrow> Inr (ci\<lparr>PoolEndpoint := v\<rparr>)
     | CK_Profile \<Rightarrow> bool_arg k v (\<lambda>b. ci\<lparr>Profile := b\<rparr>)
     | CK_ProfilePort \<Rightarrow> atoi_arg fmt_port k v (\<lambda>p. ci\<lparr>ProfileServicePort := p\<rparr>)
     | CK_OverlayFS \<Rightarrow> bool_arg k v (\<lambda>b. ci\<lparr>OverlayFS := b\<rparr>)
     | CK_OverlayDriver \<Rightarrow> Inr (ci\<lparr>OverlayFSDriver := overlay_driver_string (GetOverlayFSDriverType v)\<rparr>)
     | CK_MountTimeout \<Rightarrow> atoi_arg fmt_number k v (\<lambda>t. ci\<lparr>MountTimeout := t\<rparr>)
     | CK_Debug \<Rightarrow> bool_arg k v (\<lambda>b. ci\<lparr>Debug := b\<rparr>)
     | CK_ReadOnly \<Rightarrow> bool_arg k v (\<lambda>b. ci\<lparr>Readonly := b\<rparr>))"

fun irods_getConnectionInfoFromMap :: "irods_lib \<Rightarrow> gomap \<Rightarrow> conn_info \<Rightarrow> go_error + conn_info" where
  "irods_getConnectionInfoFromMap lib [] ci = Inr ci"
| "irods_getConnectionInfoFromMap lib ((k, v) # params) ci =
     (case conn_key_of (NormalizeConfigKey k) of
        None \<Rightarrow> irods_getConnectionInfoFromMap lib params ci
      | Some ck \<Rightarrow>
          (case set_conn lib ck k v ci of
             Inl err \<Rightarrow> Inl err
           | Inr ci' \<Rightarrow> irods_getConnectionInfoFromMap lib params ci'))"

end
