(* ===== verification/Parallel_Jobs.thy ===== *)
theory Parallel_Jobs
  imports Errors "HOL-Library.Sublist"
begin

text \<open>
  pkg/client/irods/parallel.go: the manager of parallel jobs. One goroutine schedules jobs and
  then waits, one (\<open>Start\<close>) takes them from a channel and starts a goroutine for each, with a limit on
  the threads in use and with barriers. The interleaving is a step relation on a state that holds
  the program counter of every goroutine; a step is what a goroutine does between two points where
  another one can act. Sections under the mutex are single steps, except where the code inside
  reads or writes \<open>currentThreads\<close>, which the job goroutines change without the mutex: there the reads and
  the writes are steps of their own. A \<open>sync.WaitGroup\<close> is a counter that panics below zero.
\<close>

section \<open>Jobs and the state\<close>

text \<open>A task is a value of type \<^typ>\<open>'a\<close>; what it does is not part of the manager. A barrier's task does nothing.
  A name is only logged; it is kept as its format string and arguments.\<close>

type_synonym message = "string \<times> fmt_arg list"

record 'a pjob =
  job_index :: int
  job_name :: message
  job_task :: "'a option"
  job_threads :: int
  job_barrier :: bool

definition newParallelJob :: "int \<Rightarrow> message \<Rightarrow> 'a option \<Rightarrow> int \<Rightarrow> bool \<Rightarrow> 'a pjob" where
  "newParallelJob idx name task threads barrier =
     \<lparr>job_index = idx, job_name = name, job_task = task, job_threads = threads, job_barrier = barrier\<rparr>"

text \<open>The calls the scheduling goroutine makes, in order; \<open>DoneScheduling\<close> and \<open>Wait\<close> follow the last.\<close>

datatype 'a cmd = Schedule message 'a int | ScheduleBarrier message

fun scheduled_job :: "int \<Rightarrow> 'a cmd \<Rightarrow> 'a pjob" where
  "scheduled_job idx (Schedule name task threads) = newParallelJob idx name (Some task) threads False"
| "scheduled_job idx (ScheduleBarrier name) = newParallelJob idx name None 1 True"

datatype 'a sched_pc =
    S_Next | S_Send "'a pjob" | S_Add | S_Waiting | S_Reading | S_Returned "go_error option"

text \<open>
  The running goroutine: it receives a job, looks at the last error, takes the mutex, waits until the
  threads suffice (\<open>R_Fit\<close>) and, for a barrier, until no thread is in use (\<open>R_Clear\<close>), adds the job's threads
  and starts its goroutine. In the sleeping states it waits on the condition, without the mutex.
\<close>

datatype 'a runner_pc =
    R_Recv | R_Check "'a pjob" | R_Skip "'a pjob" | R_Lock "'a pjob"
  | R_Fit "'a pjob" | R_SleepFit "'a pjob" | R_WokenFit "'a pjob"
  | R_Clear "'a pjob" | R_SleepClear "'a pjob" | R_WokenClear "'a pjob"
  | R_Add "'a pjob" | R_Write "'a pjob" int | R_Drain | R_Exit

datatype worker_pc = W_Run | W_Mark go_error | W_Sub | W_Write int | W_Done | W_Bcast

record 'a pjm =
  jm_nextJobIndex :: int
  jm_pendingJobs :: "'a pjob list"
  jm_closed :: bool
  jm_maxThreads :: int
  jm_lastError :: "go_error option"
  jm_jobWait :: int
  jm_currentThreads :: int
  jm_cmds :: "'a cmd list"
  jm_sched :: "'a sched_pc"
  jm_runner :: "'a runner_pc"
  jm_workers :: "('a pjob \<times> worker_pc) list"
  jm_panicked :: bool
  jm_started :: "'a pjob list"

text \<open>
  The manager after \<open>NewParallelJobManager\<close> and \<open>Start\<close>. \<open>jm_started\<close> lists the started jobs, the latest first; no
  step looks at it. \<open>scheduleWait\<close> is zero exactly where the channel is closed.
\<close>

definition NewParallelJobManager :: "int \<Rightarrow> 'a cmd list \<Rightarrow> 'a pjm" where
  "NewParallelJobManager maxThreads cmds =
     \<lparr>jm_nextJobIndex = 0, jm_pendingJobs = [], jm_closed = False, jm_maxThreads = maxThreads,
      jm_lastError = None, jm_jobWait = 0, jm_currentThreads = 0, jm_cmds = cmds, jm_sched = S_Next,
      jm_runner = R_Recv, jm_workers = [], jm_panicked = False, jm_started = []\<rparr>"

definition channel_capacity :: nat where
  "channel_capacity = 100"


section \<open>Steps\<close>

definition mutex_free :: "'a pjm \<Rightarrow> bool" where
  "mutex_free s \<longleftrightarrow>
     (case jm_runner s of R_Fit _ \<Rightarrow> False | R_Clear _ \<Rightarrow> False | R_Add _ \<Rightarrow> False | R_Write _ _ \<Rightarrow> False | _ \<Rightarrow> True)"

fun woken :: "'a runner_pc \<Rightarrow> 'a runner_pc" where
  "woken (R_SleepFit j) = R_WokenFit j"
| "woken (R_SleepClear j) = R_WokenClear j"
| "woken r = r"

text \<open>\<open>jobWait.Done()\<close>.\<close>

definition job_done :: "'a pjm \<Rightarrow> 'a pjm" where
  "job_done s = s\<lparr>jm_jobWait := jm_jobWait s - 1, jm_panicked := jm_jobWait s - 1 < 0\<rparr>"

inductive sched_step :: "'a pjm \<Rightarrow> 'a pjm \<Rightarrow> bool" where
  accept: "jm_sched s = S_Next \<Longrightarrow> jm_cmds s = c # cs \<Longrightarrow> mutex_free s \<Longrightarrow> jm_lastError s = None \<Longrightarrow>
    sched_step s (s\<lparr>jm_cmds := cs, jm_nextJobIndex := jm_nextJobIndex s + 1,
      jm_sched := S_Send (scheduled_job (jm_nextJobIndex s) c)\<rparr>)"
| refuse: "jm_sched s = S_Next \<Longrightarrow> jm_cmds s = c # cs \<Longrightarrow> mutex_free s \<Longrightarrow> jm_lastError s = Some e \<Longrightarrow>
    sched_step s (s\<lparr>jm_cmds := cs\<rparr>)"
| send: "jm_sched s = S_Send j \<Longrightarrow> length (jm_pendingJobs s) < channel_capacity \<Longrightarrow>
    sched_step s (s\<lparr>jm_pendingJobs := jm_pendingJobs s @ [j], jm_sched := S_Add\<rparr>)"
| add: "jm_sched s = S_Add \<Longrightarrow> sched_step s (s\<lparr>jm_jobWait := jm_jobWait s + 1, jm_sched := S_Next\<rparr>)"
| done_scheduling: "jm_sched s = S_Next \<Longrightarrow> jm_cmds s = [] \<Longrightarrow>
    sched_step s (s\<lparr>jm_closed := True, jm_sched := S_Waiting\<rparr>)"
| waited: "jm_sched s = S_Waiting \<Longrightarrow> jm_jobWait s = 0 \<Longrightarrow> sched_step s (s\<lparr>jm_sched := S_Reading\<rparr>)"
| read_error: "jm_sched s = S_Reading \<Longrightarrow> mutex_free s \<Longrightarrow>
    sched_step s (s\<lparr>jm_sched := S_Returned (jm_lastError s)\<rparr>)"

inductive runner_step :: "'a pjm \<Rightarrow> 'a pjm \<Rightarrow> bool" where
  receive: "jm_runner s = R_Recv \<Longrightarrow> jm_pendingJobs s = j # js \<Longrightarrow>
    runner_step s (s\<lparr>jm_pendingJobs := js, jm_runner := R_Check j\<rparr>)"
| all_received: "jm_runner s = R_Recv \<Longrightarrow> jm_pendingJobs s = [] \<Longrightarrow> jm_closed s \<Longrightarrow>
    runner_step s (s\<lparr>jm_runner := R_Drain\<rparr>)"
| no_error: "jm_runner s = R_Check j \<Longrightarrow> jm_lastError s = None \<Longrightarrow> runner_step s (s\<lparr>jm_runner := R_Lock j\<rparr>)"
| had_error: "jm_runner s = R_Check j \<Longrightarrow> jm_lastError s = Some e \<Longrightarrow> runner_step s (s\<lparr>jm_runner := R_Skip j\<rparr>)"
| skip: "jm_runner s = R_Skip j \<Longrightarrow> runner_step s ((job_done s)\<lparr>jm_runner := R_Recv\<rparr>)"
| lock_busy: "jm_runner s = R_Lock j \<Longrightarrow> jm_currentThreads s > 0 \<Longrightarrow> runner_step s (s\<lparr>jm_runner := R_Fit j\<rparr>)"
| lock_idle: "jm_runner s = R_Lock j \<Longrightarrow> \<not> jm_currentThreads s > 0 \<Longrightarrow> runner_step s (s\<lparr>jm_runner := R_Add j\<rparr>)"
| fit_wait: "jm_runner s = R_Fit j \<Longrightarrow> jm_currentThreads s + job_threads j > jm_maxThreads s \<Longrightarrow>
    runner_step s (s\<lparr>jm_runner := R_SleepFit j\<rparr>)"
| fit: "jm_runner s = R_Fit j \<Longrightarrow> \<not> jm_currentThreads s + job_threads j > jm_maxThreads s \<Longrightarrow>
    runner_step s (s\<lparr>jm_runner := R_Clear j\<rparr>)"
| refit: "jm_runner s = R_WokenFit j \<Longrightarrow> runner_step s (s\<lparr>jm_runner := R_Fit j\<rparr>)"
| clear_wait: "jm_runner s = R_Clear j \<Longrightarrow> job_barrier j \<and> jm_currentThreads s > 0 \<Longrightarrow>
    runner_step s (s\<lparr>jm_runner := R_SleepClear j\<rparr>)"
| clear: "jm_runner s = R_Clear j \<Longrightarrow> \<not> (job_barrier j \<and> jm_currentThreads s > 0) \<Longrightarrow>
    runner_step s (s\<lparr>jm_runner := R_Add j\<rparr>)"
| reclear: "jm_runner s = R_WokenClear j \<Longrightarrow> runner_step s (s\<lparr>jm_runner := R_Clear j\<rparr>)"
| read_threads: "jm_runner s = R_Add j \<Longrightarrow> runner_step s (s\<lparr>jm_runner := R_Write j (jm_currentThreads s)\<rparr>)"
| start: "jm_runner s = R_Write j v \<Longrightarrow>
    runner_step s (s\<lparr>jm_currentThreads := v + job_threads j, jm_workers := (j, W_Run) # jm_workers s,
      jm_started := j # jm_started s, jm_runner := R_Recv\<rparr>)"
| drained: "jm_runner s = R_Drain \<Longrightarrow> jm_jobWait s = 0 \<Longrightarrow> runner_step s (s\<lparr>jm_runner := R_Exit\<rparr>)"

text \<open>The goroutine of one job; whether its task fails is left open, a barrier's task does not.\<close>

inductive worker_step :: "'a pjm \<Rightarrow> 'a pjm \<Rightarrow> bool" where
  task_ok: "jm_workers s = us @ (j, W_Run) # vs \<Longrightarrow> worker_step s (s\<lparr>jm_workers := us @ (j, W_Sub) # vs\<rparr>)"
| task_failed: "jm_workers s = us @ (j, W_Run) # vs \<Longrightarrow> \<not> job_barrier j \<Longrightarrow>
    worker_step s (s\<lparr>jm_workers := us @ (j, W_Mark e) # vs\<rparr>)"
| mark_error: "jm_workers s = us @ (j, W_Mark e) # vs \<Longrightarrow> mutex_free s \<Longrightarrow>
    worker_step s (s\<lparr>jm_lastError := Some e, jm_workers := us @ (j, W_Sub) # vs\<rparr>)"
| sub_read: "jm_workers s = us @ (j, W_Sub) # vs \<Longrightarrow>
    worker_step s (s\<lparr>jm_workers := us @ (j, W_Write (jm_currentThreads s)) # vs\<rparr>)"
| sub_write: "jm_workers s = us @ (j, W_Write v) # vs \<Longrightarrow>
    worker_step s (s\<lparr>jm_currentThreads := v - job_threads j, jm_workers := us @ (j, W_Done) # vs\<rparr>)"
| wait_done: "jm_workers s = us @ (j, W_Done) # vs \<Longrightarrow>
    worker_step s ((job_done s)\<lparr>jm_workers := us @ (j, W_Bcast) # vs\<rparr>)"
| broadcast: "jm_workers s = us @ (j, W_Bcast) # vs \<Longrightarrow> mutex_free s \<Longrightarrow>
    worker_step s (s\<lparr>jm_runner := woken (jm_runner s), jm_workers := us @ vs\<rparr>)"

text \<open>A panic stops the process.\<close>

definition pstep :: "'a pjm \<Rightarrow> 'a pjm \<Rightarrow> bool" where
  "pstep s s' \<longleftrightarrow> \<not> jm_panicked s \<and> (sched_step s s' \<or> runner_step s s' \<or> worker_step s s')"

lemmas pstep_cases = sched_step.cases runner_step.cases worker_step.cases


section \<open>What every step keeps\<close>

text \<open>Where the jobs are; the jobs still to come from the commands.\<close>

fun runner_jobs :: "'a runner_pc \<Rightarrow> 'a pjob list" where
  "runner_jobs (R_Check j) = [j]" | "runner_jobs (R_Skip j) = [j]" | "runner_jobs (R_Lock j) = [j]"
| "runner_jobs (R_Fit j) = [j]" | "runner_jobs (R_SleepFit j) = [j]" | "runner_jobs (R_WokenFit j) = [j]"
| "runner_jobs (R_Clear j) = [j]" | "runner_jobs (R_SleepClear j) = [j]" | "runner_jobs (R_WokenClear j) = [j]"
| "runner_jobs (R_Add j) = [j]" | "runner_jobs (R_Write j v) = [j]" | "runner_jobs _ = []"

fun sched_jobs :: "'a sched_pc \<Rightarrow> 'a pjob list" where
  "sched_jobs (S_Send j) = [j]" | "sched_jobs _ = []"

fun jobs_from :: "int \<Rightarrow> 'a cmd list \<Rightarrow> 'a pjob list" where
  "jobs_from idx [] = []"
| "jobs_from idx (c # cs) = scheduled_job idx c # jobs_from (idx + 1) cs"

lemma woken_jobs [simp]: "runner_jobs (woken r) = runner_jobs r"
  by (cases r) auto

lemma woken_ends [simp]:
  "woken r = R_Drain \<longleftrightarrow> r = R_Drain" "woken r = R_Exit \<longleftrightarrow> r = R_Exit" "woken r = R_Skip j \<longleftrightarrow> r = R_Skip j"
  by (cases r; simp)+

text \<open>The jobs are started in the order of the commands, while no task has failed.\<close>

definition in_order :: "'a cmd list \<Rightarrow> 'a pjm \<Rightarrow> bool" where
  "in_order cmds s \<longleftrightarrow> (jm_lastError s = None \<longrightarrow>
     (\<forall>j. jm_runner s \<noteq> R_Skip j) \<and>
     rev (jm_started s) @ runner_jobs (jm_runner s) @ jm_pendingJobs s @ sched_jobs (jm_sched s)
       @ jobs_from (jm_nextJobIndex s) (jm_cmds s) = jobs_from 0 cmds)"

lemma in_order_step: "pstep s s' \<Longrightarrow> in_order cmds s \<Longrightarrow> in_order cmds s'"
  unfolding pstep_def
  by (elim conjE disjE; erule pstep_cases)
    (auto simp: in_order_def job_done_def)

text \<open>The counter of the wait group: the jobs sent and not done, where the scheduler has added the last one.\<close>

definition undone :: "worker_pc \<Rightarrow> bool" where
  "undone pc \<longleftrightarrow> pc \<noteq> W_Bcast"

definition counted :: "'a pjm \<Rightarrow> bool" where
  "counted s \<longleftrightarrow> jm_jobWait s + (if jm_sched s = S_Add then 1 else 0) =
     int (length (jm_pendingJobs s) + length (runner_jobs (jm_runner s)) + length (filter (undone \<circ> snd) (jm_workers s)))"

lemma counted_step: "pstep s s' \<Longrightarrow> counted s \<Longrightarrow> counted s'"
  unfolding pstep_def
  by (elim conjE disjE; erule pstep_cases) (auto simp: counted_def job_done_def undone_def)

text \<open>A panic comes between the scheduler's send and its \<open>Add\<close>.\<close>

lemma panic_only_in_add:
  assumes "pstep s s'" and "counted s" and "jm_panicked s'"
  shows "jm_sched s = S_Add"
  using assms unfolding pstep_def
  by (elim conjE disjE; elim pstep_cases) (auto simp: counted_def job_done_def undone_def split: if_splits)

text \<open>Where the program is at its end.\<close>

definition closes :: "'a pjm \<Rightarrow> bool" where
  "closes s \<longleftrightarrow> (jm_closed s \<longleftrightarrow> jm_sched s \<in> {S_Waiting, S_Reading} \<union> range S_Returned) \<and>
     (jm_closed s \<longrightarrow> jm_cmds s = []) \<and>
     (jm_runner s \<in> {R_Drain, R_Exit} \<longrightarrow> jm_closed s \<and> jm_pendingJobs s = [])"

lemma closes_step: "pstep s s' \<Longrightarrow> closes s \<Longrightarrow> closes s'"
  unfolding pstep_def
  by (elim conjE disjE; erule pstep_cases) (auto simp: closes_def job_done_def)


text \<open>Once the wait is over, no job is left.\<close>

definition waited_for :: "'a pjm \<Rightarrow> bool" where
  "waited_for s \<longleftrightarrow> (jm_sched s \<in> {S_Reading} \<union> range S_Returned \<longrightarrow> jm_jobWait s = 0)"

lemma waited_for_step: "pstep s s' \<Longrightarrow> counted s \<Longrightarrow> waited_for s \<Longrightarrow> waited_for s'"
  unfolding pstep_def
  by (elim conjE disjE; erule pstep_cases)
    (auto simp: waited_for_def counted_def job_done_def undone_def)


section \<open>Without overlapping updates\<close>

text \<open>
  An update of \<open>currentThreads\<close> is a read and a write; a run is free of races where no two updates are
  under way at once. What the manager promises is proved for these runs.
\<close>

fun runner_reads :: "'a runner_pc \<Rightarrow> int list" where
  "runner_reads (R_Write j v) = [v]" | "runner_reads _ = []"

fun worker_reads :: "('a pjob \<times> worker_pc) list \<Rightarrow> int list" where
  "worker_reads [] = []"
| "worker_reads ((j, W_Write v) # ws) = v # worker_reads ws"
| "worker_reads (_ # ws) = worker_reads ws"

text \<open>The values read for the updates under way.\<close>

definition reads :: "'a pjm \<Rightarrow> int list" where
  "reads s = runner_reads (jm_runner s) @ worker_reads (jm_workers s)"

definition race_free :: "'a pjm \<Rightarrow> bool" where
  "race_free s \<longleftrightarrow> length (reads s) \<le> 1"

lemma woken_reads [simp]: "runner_reads (woken r) = runner_reads r"
  by (cases r) auto

lemma worker_reads_append [simp]: "worker_reads (us @ vs) = worker_reads us @ worker_reads vs"
  by (induction us rule: worker_reads.induct) auto

text \<open>The jobs whose task may still be running, the latest first, and the threads they use.\<close>

definition active :: "worker_pc \<Rightarrow> bool" where
  "active pc \<longleftrightarrow> pc \<noteq> W_Done \<and> pc \<noteq> W_Bcast"

fun running_jobs :: "('a pjob \<times> worker_pc) list \<Rightarrow> 'a pjob list" where
  "running_jobs [] = []"
| "running_jobs ((j, pc) # ws) = (if active pc then j # running_jobs ws else running_jobs ws)"

lemma running_jobs_append [simp]: "running_jobs (us @ vs) = running_jobs us @ running_jobs vs"
  by (induction us rule: running_jobs.induct) auto

abbreviation running :: "'a pjm \<Rightarrow> 'a pjob list" where
  "running s \<equiv> running_jobs (jm_workers s)"

abbreviation load :: "'a pjm \<Rightarrow> int" where
  "load s \<equiv> sum_list (map job_threads (running s))"

text \<open>The thread count is the load, and a value read for an update is still the count.\<close>

definition accurate :: "'a pjm \<Rightarrow> bool" where
  "accurate s \<longleftrightarrow> jm_currentThreads s = load s \<and> list_all (\<lambda>v. v = jm_currentThreads s) (reads s)"

lemma accurate_step: "pstep s s' \<Longrightarrow> race_free s \<Longrightarrow> accurate s \<Longrightarrow> accurate s'"
  unfolding pstep_def
  by (elim conjE disjE; elim pstep_cases)
    (auto simp: accurate_def reads_def race_free_def active_def job_done_def)

text \<open>Every job uses at least one thread and at most all of them.\<close>

definition job_fits :: "int \<Rightarrow> 'a pjob \<Rightarrow> bool" where
  "job_fits m j \<longleftrightarrow> 0 < job_threads j \<and> job_threads j \<le> m"

fun cmd_fits :: "int \<Rightarrow> 'a cmd \<Rightarrow> bool" where
  "cmd_fits m (Schedule name task threads) \<longleftrightarrow> 0 < threads \<and> threads \<le> m"
| "cmd_fits m (ScheduleBarrier name) \<longleftrightarrow> 1 \<le> m"

lemma job_fits_scheduled [simp]: "job_fits m (scheduled_job i c) \<longleftrightarrow> cmd_fits m c"
  by (cases c) (auto simp: job_fits_def newParallelJob_def)

definition fitting :: "'a pjm \<Rightarrow> bool" where
  "fitting s \<longleftrightarrow> 0 \<le> jm_maxThreads s \<and> list_all (job_fits (jm_maxThreads s)) (map fst (jm_workers s)) \<and>
     list_all (job_fits (jm_maxThreads s)) (runner_jobs (jm_runner s) @ jm_pendingJobs s @ sched_jobs (jm_sched s)) \<and>
     list_all (cmd_fits (jm_maxThreads s)) (jm_cmds s)"

lemma fitting_step: "pstep s s' \<Longrightarrow> fitting s \<Longrightarrow> fitting s'"
  unfolding pstep_def
  by (elim conjE disjE; elim pstep_cases) (auto simp: fitting_def job_done_def)

lemma max_step: "pstep s s' \<Longrightarrow> jm_maxThreads s' = jm_maxThreads s"
  unfolding pstep_def by (elim conjE disjE; elim pstep_cases) (auto simp: job_done_def)

text \<open>Where the runner is about to start a job there is room for it, and for a barrier there is nothing else.\<close>

definition room :: "'a pjm \<Rightarrow> 'a pjob \<Rightarrow> bool" where
  "room s j \<longleftrightarrow> jm_currentThreads s + job_threads j \<le> jm_maxThreads s \<and> (job_barrier j \<longrightarrow> jm_currentThreads s = 0)"

fun has_room :: "'a pjm \<Rightarrow> 'a runner_pc \<Rightarrow> bool" where
  "has_room s (R_Clear j) \<longleftrightarrow> jm_currentThreads s + job_threads j \<le> jm_maxThreads s"
| "has_room s (R_SleepClear j) \<longleftrightarrow> jm_currentThreads s + job_threads j \<le> jm_maxThreads s"
| "has_room s (R_WokenClear j) \<longleftrightarrow> jm_currentThreads s + job_threads j \<le> jm_maxThreads s"
| "has_room s (R_Add j) \<longleftrightarrow> room s j"
| "has_room s (R_Write j v) \<longleftrightarrow> room s j"
| "has_room s _ \<longleftrightarrow> True"

definition bounded :: "'a pjm \<Rightarrow> bool" where
  "bounded s \<longleftrightarrow> jm_currentThreads s \<le> jm_maxThreads s \<and> has_room s (jm_runner s)"

lemma load_nonneg: "list_all (job_fits m) (map fst ws) \<Longrightarrow> 0 \<le> sum_list (map job_threads (running_jobs ws))"
  by (induction ws rule: running_jobs.induct) (auto simp: job_fits_def)

lemma load_zero: "list_all (job_fits m) (map fst ws) \<Longrightarrow> sum_list (map job_threads (running_jobs ws)) = 0 \<Longrightarrow> running_jobs ws = []"
  using load_nonneg [of m]
  by (induction ws rule: running_jobs.induct) (fastforce simp: job_fits_def split: if_splits)+

lemma has_room_less:
  "has_room s r \<Longrightarrow> jm_currentThreads s' \<le> jm_currentThreads s \<Longrightarrow> 0 \<le> jm_currentThreads s' \<Longrightarrow>
   jm_maxThreads s' = jm_maxThreads s \<Longrightarrow> has_room s' r"
  by (cases r) (auto simp: room_def)

lemma has_room_woken: "has_room s r \<Longrightarrow> has_room s (woken r)"
  by (cases r) auto

lemma accurate_nonneg: "accurate s \<Longrightarrow> fitting s \<Longrightarrow> 0 \<le> jm_currentThreads s"
  using load_nonneg [of "jm_maxThreads s" "jm_workers s"] by (simp add: accurate_def fitting_def)

lemma bounded_step:
  assumes "pstep s s'" and "race_free s" and "accurate s" and "fitting s" and "bounded s"
  shows "bounded s'"
proof -
  have acc': "accurate s'" by (rule accurate_step [OF assms(1-3)])
  have n: "0 \<le> jm_currentThreads s'" by (rule accurate_nonneg [OF acc' fitting_step [OF assms(1,4)]])
  have n0: "0 \<le> jm_currentThreads s" by (rule accurate_nonneg [OF assms(3,4)])
  have f: "\<forall>j \<in> set (map fst (jm_workers s) @ runner_jobs (jm_runner s)). job_fits (jm_maxThreads s) j"
    using assms(4) by (auto simp: fitting_def list_all_iff)
  have eq: "v = jm_currentThreads s" if "v \<in> set (reads s)" for v
    using assms(3) that by (auto simp: accurate_def list_all_iff)
  have reads: "v = jm_currentThreads s" if "jm_runner s = R_Write j v" for j v
    by (rule eq) (simp add: reads_def that)
  have wreads: "v = jm_currentThreads s" if "jm_workers s = us @ (j, W_Write v) # vs" for us j v vs
    by (rule eq) (simp add: reads_def that)
  have room: "has_room s (jm_runner s)" and b: "jm_currentThreads s \<le> jm_maxThreads s"
    using assms(5) by (simp_all add: bounded_def)
  have "sched_step s s' \<or> runner_step s s' \<or> worker_step s s'" using assms(1) by (simp add: pstep_def)
  then show ?thesis
  proof (elim disjE)
    assume "sched_step s s'"
    then show ?thesis
      using room b n0 by cases (auto simp: bounded_def intro: has_room_less [of s])
  next
    assume "runner_step s s'"
    then show ?thesis
      using room b n0 f
      by cases (auto simp: bounded_def job_done_def room_def job_fits_def dest: reads)
  next
    assume "worker_step s s'"
    then show ?thesis
    proof cases
      case (sub_write us j v vs)
      have "job_fits (jm_maxThreads s) j" using f sub_write(2) by auto
      then have "jm_currentThreads s' \<le> jm_currentThreads s"
        using sub_write(1) wreads [OF sub_write(2)] by (simp add: job_fits_def)
      with sub_write(1) room b n show ?thesis
        by (auto simp: bounded_def intro: has_room_less [of s])
    qed (use room b n0 in \<open>auto simp: bounded_def job_done_def intro!: has_room_less [of s] has_room_woken\<close>)
  qed
qed

text \<open>The jobs started since the last barrier, that barrier included, the latest first.\<close>

fun since_barrier :: "'a pjob list \<Rightarrow> 'a pjob list" where
  "since_barrier [] = []"
| "since_barrier (j # js) = (if job_barrier j then [j] else j # since_barrier js)"

definition separated :: "'a pjm \<Rightarrow> bool" where
  "separated s \<longleftrightarrow> subseq (running s) (since_barrier (jm_started s))"

lemma separated_step:
  assumes "pstep s s'" and "accurate s" and "fitting s" and "bounded s" and "separated s"
  shows "separated s'"
proof -
  have empty: "running s = []" if "jm_runner s = R_Write j v" "job_barrier j" for j v
  proof (rule load_zero)
    show "list_all (job_fits (jm_maxThreads s)) (map fst (jm_workers s))"
      using assms(3) by (simp add: fitting_def)
    show "load s = 0" using assms(2,4) that by (simp add: accurate_def bounded_def room_def)
  qed
  have drop: "subseq (xs @ ys) zs" if "subseq (xs @ j # ys) zs" for xs ys zs and j :: "'a pjob"
  proof -
    have "subseq (xs @ ys) (xs @ j # ys)" by (rule list_emb_append_mono) auto
    with that show ?thesis by (rule subseq_order.trans [rotated])
  qed
  have "sched_step s s' \<or> runner_step s s' \<or> worker_step s s'" using assms(1) by (simp add: pstep_def)
  then show ?thesis
  proof (elim disjE)
    assume "sched_step s s'"
    then show ?thesis using assms(5) by cases (auto simp: separated_def)
  next
    assume "runner_step s s'"
    then show ?thesis
      using assms(5) by cases (auto simp: separated_def job_done_def active_def dest: empty)
  next
    assume "worker_step s s'"
    then show ?thesis
    proof cases
      case (sub_write us j v vs)
      with assms(5) show ?thesis
        using drop [of "running_jobs us" j "running_jobs vs"] by (simp add: separated_def active_def)
    qed (use assms(5) in \<open>auto simp: separated_def job_done_def active_def\<close>)
  qed
qed

text \<open>A sleeping runner is woken: some goroutine still has to broadcast.\<close>

definition awaited :: "'a pjm \<Rightarrow> bool" where
  "awaited s \<longleftrightarrow> (\<forall>j. jm_runner s \<in> {R_SleepFit j, R_SleepClear j} \<longrightarrow> jm_workers s \<noteq> [])"

lemma woken_awake [simp]: "woken r \<noteq> R_SleepFit j" "woken r \<noteq> R_SleepClear j"
  by (cases r; simp)+

lemma awaited_step:
  assumes "pstep s s'" and "accurate s" and "fitting s" and "awaited s"
  shows "awaited s'"
proof -
  have busy: "jm_workers s \<noteq> []" if "0 < jm_currentThreads s"
    using assms(2) that by (auto simp: accurate_def)
  have fits: "job_threads j \<le> jm_maxThreads s" if "jm_runner s = R_Fit j" for j
    using assms(3) that by (simp add: fitting_def job_fits_def)
  have "sched_step s s' \<or> runner_step s s' \<or> worker_step s s'" using assms(1) by (simp add: pstep_def)
  then show ?thesis
  proof (elim disjE)
    assume "sched_step s s'"
    then show ?thesis using assms(4) by cases (auto simp: awaited_def)
  next
    assume "runner_step s s'"
    then show ?thesis
      using assms(4) busy by cases (auto simp: awaited_def job_done_def dest: fits)
  next
    assume "worker_step s s'"
    then show ?thesis using assms(4) by cases (auto simp: awaited_def job_done_def)
  qed
qed


section \<open>Reachable states\<close>

definition safe_step :: "'a pjm \<Rightarrow> 'a pjm \<Rightarrow> bool" where
  "safe_step s s' \<longleftrightarrow> pstep s s' \<and> race_free s'"

text \<open>The invariant of the runs without overlapping updates.\<close>

definition pjm_inv :: "'a cmd list \<Rightarrow> 'a pjm \<Rightarrow> bool" where
  "pjm_inv cmds s \<longleftrightarrow> in_order cmds s \<and> closes s \<and> fitting s \<and> race_free s \<and> accurate s \<and> bounded s \<and>
     separated s \<and> awaited s \<and> (jm_panicked s \<or> counted s \<and> waited_for s)"

lemma pjm_inv_init:
  assumes "0 \<le> m" and "list_all (cmd_fits m) cmds"
  shows "pjm_inv cmds (NewParallelJobManager m cmds)"
  using assms
  by (auto simp: pjm_inv_def NewParallelJobManager_def in_order_def closes_def fitting_def race_free_def reads_def
      accurate_def bounded_def separated_def awaited_def counted_def waited_for_def)

lemma pjm_inv_step:
  assumes "safe_step s s'" and "pjm_inv cmds s"
  shows "pjm_inv cmds s'"
proof -
  have p: "pstep s s'" "race_free s'" "\<not> jm_panicked s" using assms(1) by (auto simp: safe_step_def pstep_def)
  with assms(2) show ?thesis
    unfolding pjm_inv_def
    by (auto intro: in_order_step closes_step fitting_step accurate_step bounded_step separated_step
        awaited_step counted_step waited_for_step)
qed

lemma pjm_inv_reachable:
  assumes "safe_step\<^sup>*\<^sup>* (NewParallelJobManager m cmds) s" and "0 \<le> m" and "list_all (cmd_fits m) cmds"
  shows "pjm_inv cmds s"
  using assms(1) by (induction rule: rtranclp_induct) (auto intro: pjm_inv_init [OF assms(2,3)] pjm_inv_step)


section \<open>Every run ends\<close>

text \<open>Each step uses up work; waking the runner is paid for by the goroutine that broadcasts.\<close>

fun sched_work :: "'a sched_pc \<Rightarrow> nat" where
  "sched_work S_Next = 4" | "sched_work (S_Send j) = 25" | "sched_work S_Add = 5"
| "sched_work S_Waiting = 3" | "sched_work S_Reading = 2" | "sched_work (S_Returned e) = 1"

fun runner_work :: "'a runner_pc \<Rightarrow> nat" where
  "runner_work R_Recv = 2" | "runner_work (R_Check j) = 20" | "runner_work (R_Skip j) = 3"
| "runner_work (R_Lock j) = 19" | "runner_work (R_Fit j) = 17" | "runner_work (R_SleepFit j) = 16"
| "runner_work (R_WokenFit j) = 18" | "runner_work (R_Clear j) = 14" | "runner_work (R_SleepClear j) = 13"
| "runner_work (R_WokenClear j) = 15" | "runner_work (R_Add j) = 13" | "runner_work (R_Write j v) = 12"
| "runner_work R_Drain = 1" | "runner_work R_Exit = 0"

fun worker_work :: "worker_pc \<Rightarrow> nat" where
  "worker_work W_Run = 9" | "worker_work (W_Mark e) = 8" | "worker_work W_Sub = 7"
| "worker_work (W_Write v) = 6" | "worker_work W_Done = 5" | "worker_work W_Bcast = 4"

definition work :: "'a pjm \<Rightarrow> nat" where
  "work s = 26 * length (jm_cmds s) + sched_work (jm_sched s) + 19 * length (jm_pendingJobs s)
     + runner_work (jm_runner s) + sum_list (map (worker_work \<circ> snd) (jm_workers s))"

lemma woken_work: "runner_work (woken r) \<le> runner_work r + 2"
  by (cases r) auto

lemma work_less: "pstep s s' \<Longrightarrow> work s' < work s"
  unfolding pstep_def
  by (elim conjE disjE; elim pstep_cases)
    (use woken_work in \<open>fastforce simp: work_def job_done_def intro: le_less_trans\<close>)+

definition finished :: "'a pjm \<Rightarrow> bool" where
  "finished s \<longleftrightarrow> jm_sched s \<in> range S_Returned \<and> jm_runner s = R_Exit \<and> jm_workers s = []"

lemma reads_step: "pstep s s' \<Longrightarrow> length (reads s') \<le> length (reads s) + 1"
  unfolding pstep_def
  by (elim conjE disjE; elim pstep_cases) (auto simp: reads_def job_done_def)

text \<open>An update under way can be completed; without one, some goroutine can act unless all are done.\<close>

lemma worker_reads_split: "worker_reads ws \<noteq> [] \<Longrightarrow> \<exists>us j v vs. ws = us @ (j, W_Write v) # vs"
proof (induction ws rule: worker_reads.induct)
  case (2 j v ws)
  show ?case by (intro exI [of _ "[]"]) simp
qed (auto simp: Cons_eq_append_conv)

lemma update_step:
  assumes "reads s \<noteq> []" and "race_free s" and "\<not> jm_panicked s"
  shows "\<exists>s'. safe_step s s'"
proof (cases "runner_reads (jm_runner s) = []")
  case False
  then obtain j v where r: "jm_runner s = R_Write j v" by (cases "jm_runner s") auto
  let ?t = "s\<lparr>jm_currentThreads := v + job_threads j, jm_workers := (j, W_Run) # jm_workers s,
      jm_started := j # jm_started s, jm_runner := R_Recv\<rparr>"
  have "race_free ?t" using assms(2) r by (simp add: race_free_def reads_def)
  with r assms(3) show ?thesis by (auto simp: safe_step_def pstep_def intro!: exI [of _ ?t] runner_step.start)
next
  case True
  then have "worker_reads (jm_workers s) \<noteq> []" using assms(1) by (simp add: reads_def)
  from worker_reads_split [OF this] obtain us j v vs where w: "jm_workers s = us @ (j, W_Write v) # vs" by blast
  let ?t = "s\<lparr>jm_currentThreads := v - job_threads j, jm_workers := us @ (j, W_Done) # vs\<rparr>"
  have "race_free ?t" using assms(2) w by (simp add: race_free_def reads_def)
  with w assms(3) show ?thesis
    by (auto simp: safe_step_def pstep_def intro!: exI [of _ ?t] worker_step.sub_write)
qed

lemma worker_progress:
  assumes "jm_workers s = w # ws" and "mutex_free s"
  shows "\<exists>s'. worker_step s s'"
proof -
  obtain j pc where w: "jm_workers s = [] @ (j, pc) # ws" using assms(1) by (cases w) simp
  show ?thesis
  proof (cases pc)
    case W_Run then show ?thesis using worker_step.task_ok w by blast
  next
    case (W_Mark e) then show ?thesis using worker_step.mark_error w assms(2) by blast
  next
    case W_Sub then show ?thesis using worker_step.sub_read w by blast
  next
    case (W_Write v) then show ?thesis using worker_step.sub_write w by blast
  next
    case W_Done then show ?thesis using worker_step.wait_done w by blast
  next
    case W_Bcast then show ?thesis using worker_step.broadcast w assms(2) by blast
  qed
qed

lemma runner_progress:
  assumes "runner_jobs (jm_runner s) = [j]" and "jm_runner s \<noteq> R_SleepFit j" and "jm_runner s \<noteq> R_SleepClear j"
  shows "\<exists>s'. runner_step s s'"
proof (cases "jm_runner s")
  case (R_Check i)
  then show ?thesis using runner_step.no_error runner_step.had_error by (cases "jm_lastError s") blast+
next
  case (R_Skip i) then show ?thesis using runner_step.skip by blast
next
  case (R_Lock i) then show ?thesis using runner_step.lock_busy runner_step.lock_idle by blast
next
  case (R_Fit i) then show ?thesis using runner_step.fit_wait runner_step.fit by blast
next
  case (R_WokenFit i) then show ?thesis using runner_step.refit by blast
next
  case (R_Clear i) then show ?thesis using runner_step.clear_wait runner_step.clear by blast
next
  case (R_WokenClear i) then show ?thesis using runner_step.reclear by blast
next
  case (R_Add i) then show ?thesis using runner_step.read_threads by blast
next
  case (R_Write i v) then show ?thesis using runner_step.start by blast
qed (use assms in auto)

lemma idle_progress:
  assumes "closes s" and "counted s" and "jm_workers s = []" and "jm_runner s \<in> {R_Recv, R_Drain, R_Exit}"
    and "\<not> finished s"
  shows "\<exists>s'. sched_step s s' \<or> runner_step s s'"
proof (cases "jm_runner s = R_Recv \<and> jm_pendingJobs s \<noteq> []")
  case True
  then show ?thesis using runner_step.receive by (cases "jm_pendingJobs s") blast+
next
  case False
  then have p: "jm_pendingJobs s = []" using assms(1,4) by (auto simp: closes_def)
  have m: "mutex_free s" using assms(4) by (auto simp: mutex_free_def)
  show ?thesis
  proof (cases "jm_closed s")
    case False
    then have r: "jm_sched s \<notin> {S_Waiting, S_Reading} \<union> range S_Returned" using assms(1) by (auto simp: closes_def)
    show ?thesis
    proof (cases "jm_sched s")
      case S_Next
      then show ?thesis
        using m sched_step.accept sched_step.refuse sched_step.done_scheduling
        by (cases "jm_cmds s"; cases "jm_lastError s") blast+
    next
      case (S_Send j)
      then show ?thesis using p sched_step.send [of s j] by (auto simp: channel_capacity_def)
    qed (use r sched_step.add in auto)
  next
    case True
    then have s: "jm_sched s \<in> {S_Waiting, S_Reading} \<union> range S_Returned" using assms(1) by (simp add: closes_def)
    then have w: "jm_jobWait s = 0" using assms(2-4) p by (auto simp: counted_def)
    show ?thesis
    proof (cases "jm_runner s = R_Exit")
      case True
      with s assms(3,5) have "jm_sched s = S_Waiting \<or> jm_sched s = S_Reading" by (auto simp: finished_def)
      then show ?thesis using w m sched_step.waited sched_step.read_error by blast
    next
      case False
      with assms(4) have "jm_runner s = R_Recv \<or> jm_runner s = R_Drain" by auto
      then show ?thesis using p w True runner_step.all_received runner_step.drained by blast
    qed
  qed
qed

lemma progress:
  assumes "pjm_inv cmds s" and "\<not> jm_panicked s" and "\<not> finished s"
  shows "\<exists>s'. safe_step s s'"
proof (cases "reads s = []")
  case False
  then show ?thesis using update_step assms(1,2) by (auto simp: pjm_inv_def)
next
  case True
  have "\<exists>s'. pstep s s'"
  proof (cases "mutex_free s \<and> jm_workers s \<noteq> []")
    case True
    then obtain w ws where "jm_workers s = w # ws" by (cases "jm_workers s") auto
    from worker_progress [OF this] True assms(2) show ?thesis by (auto simp: pstep_def)
  next
    case False
    show ?thesis
    proof (cases "runner_jobs (jm_runner s)")
      case Nil
      then have r: "jm_runner s \<in> {R_Recv, R_Drain, R_Exit}" by (cases "jm_runner s") auto
      then have "jm_workers s = []" using False by (auto simp: mutex_free_def)
      with r idle_progress [of s] assms show ?thesis by (auto simp: pjm_inv_def pstep_def)
    next
      case (Cons j js)
      then have j: "runner_jobs (jm_runner s) = [j]" by (cases "jm_runner s") auto
      have "jm_runner s \<noteq> R_SleepFit j" "jm_runner s \<noteq> R_SleepClear j"
        using assms(1) False by (auto simp: pjm_inv_def awaited_def mutex_free_def)
      with runner_progress [OF j] assms(2) show ?thesis by (auto simp: pstep_def)
    qed
  qed
  then obtain s' where p: "pstep s s'" ..
  with reads_step [OF p] True show ?thesis by (auto simp: safe_step_def race_free_def)
qed

text \<open>When the wait has returned without an error, every job was started, in order, and is done.\<close>

lemma returned_all:
  assumes "pjm_inv cmds s" and "jm_sched s = S_Returned r" and "\<not> jm_panicked s" and "jm_lastError s = None"
  shows "rev (jm_started s) = jobs_from 0 cmds \<and> list_all (\<lambda>(j, pc). pc = W_Bcast) (jm_workers s)"
proof -
  have c: "counted s" "jm_jobWait s = 0" "closes s" "in_order cmds s"
    using assms by (simp_all add: pjm_inv_def waited_for_def)
  have "int (length (jm_pendingJobs s) + length (runner_jobs (jm_runner s)) + length (filter (undone \<circ> snd) (jm_workers s)))
      = jm_jobWait s + (if jm_sched s = S_Add then 1 else 0)"
    using c(1) unfolding counted_def by (rule sym)
  also have "\<dots> = 0" using c(2) assms(2) by simp
  finally have "length (jm_pendingJobs s) + length (runner_jobs (jm_runner s)) +
      length (filter (undone \<circ> snd) (jm_workers s)) = 0" by (simp only: of_nat_eq_0_iff)
  then have "jm_pendingJobs s = [] \<and> runner_jobs (jm_runner s) = [] \<and> filter (undone \<circ> snd) (jm_workers s) = []"
    by simp
  with c assms(2,4) show ?thesis
    by (auto simp: in_order_def closes_def filter_empty_conv undone_def list_all_iff)
qed

text \<open>A finished run without an error has started every job, in order.\<close>

lemma finished_all:
  assumes "pjm_inv cmds s" and "finished s" and "jm_lastError s = None"
  shows "rev (jm_started s) = jobs_from 0 cmds"
  using assms by (auto simp: pjm_inv_def finished_def in_order_def closes_def)

lemma runs_end:
  assumes "pjm_inv cmds s"
  shows "\<exists>t. safe_step\<^sup>*\<^sup>* s t \<and> pjm_inv cmds t \<and> (jm_panicked t \<or> finished t)"
  using assms
proof (induction "work s" arbitrary: s rule: less_induct)
  case less
  show ?case
  proof (cases "jm_panicked s \<or> finished s")
    case True
    with less.prems show ?thesis by blast
  next
    case False
    with progress [OF less.prems] obtain s' where s': "safe_step s s'" by blast
    then have "work s' < work s" by (simp add: safe_step_def work_less)
    from less.hyps [OF this pjm_inv_step [OF s' less.prems]] s' show ?thesis
      by (meson converse_rtranclp_into_rtranclp)
  qed
qed


section \<open>Running a schedule\<close>

text \<open>An interpreter: which goroutine acts next, and for a job's goroutine where it is in the list.\<close>

datatype actor = Scheduler | Runner | Worker nat

fun act :: "actor \<Rightarrow> 'a pjm \<Rightarrow> 'a pjm option" where
  "act Scheduler s =
     (case jm_sched s of
        S_Next \<Rightarrow>
          (case jm_cmds s of
             [] \<Rightarrow> Some (s\<lparr>jm_closed := True, jm_sched := S_Waiting\<rparr>)
           | c # cs \<Rightarrow> if \<not> mutex_free s then None else
               (case jm_lastError s of
                  None \<Rightarrow> Some (s\<lparr>jm_cmds := cs, jm_nextJobIndex := jm_nextJobIndex s + 1,
                    jm_sched := S_Send (scheduled_job (jm_nextJobIndex s) c)\<rparr>)
                | Some e \<Rightarrow> Some (s\<lparr>jm_cmds := cs\<rparr>)))
      | S_Send j \<Rightarrow> if length (jm_pendingJobs s) < channel_capacity
          then Some (s\<lparr>jm_pendingJobs := jm_pendingJobs s @ [j], jm_sched := S_Add\<rparr>) else None
      | S_Add \<Rightarrow> Some (s\<lparr>jm_jobWait := jm_jobWait s + 1, jm_sched := S_Next\<rparr>)
      | S_Waiting \<Rightarrow> if jm_jobWait s = 0 then Some (s\<lparr>jm_sched := S_Reading\<rparr>) else None
      | S_Reading \<Rightarrow> if mutex_free s then Some (s\<lparr>jm_sched := S_Returned (jm_lastError s)\<rparr>) else None
      | S_Returned e \<Rightarrow> None)"
| "act Runner s =
     (case jm_runner s of
        R_Recv \<Rightarrow>
          (case jm_pendingJobs s of
             [] \<Rightarrow> if jm_closed s then Some (s\<lparr>jm_runner := R_Drain\<rparr>) else None
           | j # js \<Rightarrow> Some (s\<lparr>jm_pendingJobs := js, jm_runner := R_Check j\<rparr>))
      | R_Check j \<Rightarrow> Some (case jm_lastError s of None \<Rightarrow> s\<lparr>jm_runner := R_Lock j\<rparr> | Some e \<Rightarrow> s\<lparr>jm_runner := R_Skip j\<rparr>)
      | R_Skip j \<Rightarrow> Some ((job_done s)\<lparr>jm_runner := R_Recv\<rparr>)
      | R_Lock j \<Rightarrow> Some (if jm_currentThreads s > 0 then s\<lparr>jm_runner := R_Fit j\<rparr> else s\<lparr>jm_runner := R_Add j\<rparr>)
      | R_Fit j \<Rightarrow> Some (if jm_currentThreads s + job_threads j > jm_maxThreads s
          then s\<lparr>jm_runner := R_SleepFit j\<rparr> else s\<lparr>jm_runner := R_Clear j\<rparr>)
      | R_WokenFit j \<Rightarrow> Some (s\<lparr>jm_runner := R_Fit j\<rparr>)
      | R_Clear j \<Rightarrow> Some (if job_barrier j \<and> jm_currentThreads s > 0
          then s\<lparr>jm_runner := R_SleepClear j\<rparr> else s\<lparr>jm_runner := R_Add j\<rparr>)
      | R_WokenClear j \<Rightarrow> Some (s\<lparr>jm_runner := R_Clear j\<rparr>)
      | R_Add j \<Rightarrow> Some (s\<lparr>jm_runner := R_Write j (jm_currentThreads s)\<rparr>)
      | R_Write j v \<Rightarrow> Some (s\<lparr>jm_currentThreads := v + job_threads j, jm_workers := (j, W_Run) # jm_workers s,
          jm_started := j # jm_started s, jm_runner := R_Recv\<rparr>)
      | R_Drain \<Rightarrow> if jm_jobWait s = 0 then Some (s\<lparr>jm_runner := R_Exit\<rparr>) else None
      | _ \<Rightarrow> None)"
| "act (Worker n) s =
     (case drop n (jm_workers s) of
        [] \<Rightarrow> None
      | (j, pc) # vs \<Rightarrow>
          let us = take n (jm_workers s) in
          (case pc of
             W_Run \<Rightarrow> Some (s\<lparr>jm_workers := us @ (j, W_Sub) # vs\<rparr>)
           | W_Mark e \<Rightarrow> if mutex_free s
               then Some (s\<lparr>jm_lastError := Some e, jm_workers := us @ (j, W_Sub) # vs\<rparr>) else None
           | W_Sub \<Rightarrow> Some (s\<lparr>jm_workers := us @ (j, W_Write (jm_currentThreads s)) # vs\<rparr>)
           | W_Write v \<Rightarrow> Some (s\<lparr>jm_currentThreads := v - job_threads j, jm_workers := us @ (j, W_Done) # vs\<rparr>)
           | W_Done \<Rightarrow> Some ((job_done s)\<lparr>jm_workers := us @ (j, W_Bcast) # vs\<rparr>)
           | W_Bcast \<Rightarrow> if mutex_free s
               then Some (s\<lparr>jm_runner := woken (jm_runner s), jm_workers := us @ vs\<rparr>) else None))"

lemma act_sched: "act Scheduler s = Some s' \<Longrightarrow> sched_step s s'"
  by (auto split: sched_pc.splits list.splits option.splits if_splits intro: sched_step.intros)

lemma act_runner: "act Runner s = Some s' \<Longrightarrow> runner_step s s'"
  by (auto split: runner_pc.splits list.splits option.splits if_splits intro: runner_step.intros)

lemma act_worker: "act (Worker n) s = Some s' \<Longrightarrow> worker_step s s'"
proof -
  assume a: "act (Worker n) s = Some s'"
  then obtain j pc vs where d: "drop n (jm_workers s) = (j, pc) # vs"
    by (auto split: list.splits)
  then have w: "jm_workers s = take n (jm_workers s) @ (j, pc) # vs" by (metis append_take_drop_id)
  show ?thesis
    using a d worker_step.task_ok [of s _ j] worker_step.mark_error [of s _ j] worker_step.sub_read [of s _ j]
      worker_step.sub_write [of s _ j] worker_step.wait_done [of s _ j] worker_step.broadcast [of s _ j] w
    by (cases pc) (auto simp: Let_def split: if_splits)
qed

lemma act_pstep: "act a s = Some t \<Longrightarrow> \<not> jm_panicked s \<Longrightarrow> pstep s t"
  by (cases a) (auto simp: pstep_def simp del: act.simps dest: act_sched act_runner act_worker)

fun perform :: "actor list \<Rightarrow> 'a pjm \<Rightarrow> 'a pjm option" where
  "perform [] s = Some s"
| "perform (a # as) s = (if jm_panicked s then None else (case act a s of None \<Rightarrow> None | Some t \<Rightarrow> perform as t))"

lemma perform_steps: "perform as s = Some t \<Longrightarrow> pstep\<^sup>*\<^sup>* s t"
proof (induction as s rule: perform.induct)
  case (2 a as s)
  then obtain u where u: "act a s = Some u" "perform as u = Some t" "\<not> jm_panicked s"
    by (auto split: if_splits option.splits)
  then have "pstep s u" by (simp add: act_pstep)
  with 2(1) u show ?case by (meson converse_rtranclp_into_rtranclp)
qed simp

text \<open>The same, refusing a step that leaves two updates of the thread count under way.\<close>

fun perform_safe :: "actor list \<Rightarrow> 'a pjm \<Rightarrow> 'a pjm option" where
  "perform_safe [] s = Some s"
| "perform_safe (a # as) s =
     (if jm_panicked s then None
      else (case act a s of None \<Rightarrow> None | Some t \<Rightarrow> if race_free t then perform_safe as t else None))"

lemma perform_safe_steps: "perform_safe as s = Some t \<Longrightarrow> safe_step\<^sup>*\<^sup>* s t"
proof (induction as s rule: perform_safe.induct)
  case (2 a as s)
  then obtain u where u: "act a s = Some u" "race_free u" "perform_safe as u = Some t" "\<not> jm_panicked s"
    by (auto split: if_splits option.splits)
  then have "safe_step s u" by (simp add: safe_step_def act_pstep)
  with 2(1) u show ?case by (meson converse_rtranclp_into_rtranclp)
qed simp

subsection \<open>Three runs of two jobs and a barrier\<close>

definition example_jobs :: "string cmd list" where
  "example_jobs = [Schedule (''a'', []) ''task a'' 1, Schedule (''b'', []) ''task b'' 1, ScheduleBarrier (''c'', [])]"

abbreviation example_manager :: "string pjm" where
  "example_manager \<equiv> NewParallelJobManager 4 example_jobs"

text \<open>Both jobs are started and both tasks run.\<close>

definition overlapping_schedule :: "actor list" where
  "overlapping_schedule = replicate 6 Scheduler @ replicate 5 Runner @ replicate 7 Runner"

text \<open>The first job is started and done before the scheduler has counted it.\<close>

definition early_schedule :: "actor list" where
  "early_schedule = replicate 2 Scheduler @ replicate 5 Runner @ replicate 4 (Worker 0)"

text \<open>The runner adds the second job's thread while the first job subtracts its own.\<close>

definition racing_schedule :: "actor list" where
  "racing_schedule = replicate 6 Scheduler @ replicate 10 Runner @ [Worker 0, Worker 0, Runner, Worker 0, Runner]
     @ replicate 2 (Worker 1) @ replicate 5 (Worker 0) @ replicate 3 Scheduler @ replicate 5 Runner @ [Scheduler]"

definition after :: "actor list \<Rightarrow> string pjm" where
  "after as = (case perform as example_manager of Some s \<Rightarrow> s | None \<Rightarrow> example_manager)"

definition after_safe :: "actor list \<Rightarrow> string pjm" where
  "after_safe as = (case perform_safe as example_manager of Some s \<Rightarrow> s | None \<Rightarrow> example_manager)"

lemma after_steps: "pstep\<^sup>*\<^sup>* example_manager (after as)"
  by (auto simp: after_def split: option.splits dest: perform_steps)

lemma after_safe_steps: "safe_step\<^sup>*\<^sup>* example_manager (after_safe as)"
  by (auto simp: after_safe_def split: option.splits dest: perform_safe_steps)

end
