(* ===== verification/Overlay_Sync.thy ===== *)
theory Overlay_Sync
  imports Irods_Connection Go_Filepath Parallel_Jobs
begin

text \<open>
  pkg/client/irods/overlay.go: after an overlay volume is unmounted, what was written to its upper
  layer is carried over to iRODS. The upper layer is walked; each directory, file and whiteout becomes
  a task for the job manager, with a barrier wherever the walk comes to another directory, and the
  tasks stat, remove, make and upload in iRODS. The iRODS client is a record of operations on a state
  of type \<^typ>\<open>'w\<close>; the local layer is a tree. Messages stay unrendered.
\<close>

section \<open>What the code uses of other packages\<close>

text \<open>
  The methods of the iRODS client with the arguments the code gives them (of the upload, the local and
  the iRODS path: the rest is constant), the sync status file, and \<open>xattr.Get\<close>. A stat answers whether the
  entry is a directory, a list gives each entry's path and kind.
\<close>

record 'w irods_fs =
  fs_stat :: "string \<Rightarrow> ('w, go_error + bool) state"
  fs_make_dir :: "string \<Rightarrow> bool \<Rightarrow> ('w, go_error option) state"
  fs_remove_dir :: "string \<Rightarrow> bool \<Rightarrow> bool \<Rightarrow> ('w, go_error option) state"
  fs_remove_file :: "string \<Rightarrow> bool \<Rightarrow> ('w, go_error option) state"
  fs_upload :: "string \<Rightarrow> string \<Rightarrow> ('w, go_error option) state"
  fs_list :: "string \<Rightarrow> ('w, go_error + (string \<times> bool) list) state"
  fs_open_file :: "string \<Rightarrow> string \<Rightarrow> string \<Rightarrow> ('w, go_error option) state"
  fs_write :: "message \<Rightarrow> ('w, unit) state"
  fs_close :: "('w, unit) state"
  fs_xattr :: "string \<Rightarrow> string \<Rightarrow> ('w, go_error + string) state"
  fs_not_found :: "go_error \<Rightarrow> bool"

text \<open>An entry of the virtual paths: whether it is a virtual directory, and the iRODS path of a path below it.\<close>

record vpath_entry =
  ve_virtual_dir :: bool
  ve_irods_path :: "string \<Rightarrow> go_error + string"

type_synonym vpath_manager = "string \<Rightarrow> vpath_entry option"

text \<open>
  Making the client and the virtual paths for a connection, the working directory, releasing the client,
  and removing a local tree.
\<close>

record 'w sync_lib =
  sl_new_client :: "irodsfs_config \<Rightarrow> ('w, go_error + 'w irods_fs) state"
  sl_new_vpaths :: "'w irods_fs \<Rightarrow> vpath_mapping list \<Rightarrow> ('w, go_error + vpath_manager) state"
  sl_getwd :: "('w, go_error + string) state"
  sl_release :: "'w irods_fs \<Rightarrow> ('w, unit) state"
  sl_remove_all :: "string \<Rightarrow> ('w, go_error option) state"


section \<open>The syncher\<close>

definition overlayFSOpaqueXAttr :: string where
  "overlayFSOpaqueXAttr = ''trusted.overlay.opaque''"

definition syncStatusFileSuffix :: string where
  "syncStatusFileSuffix = ''.csi.overlay.sync.log''"

record 'w syncher =
  sy_volumeID :: string
  sy_irodsConnectionInfo :: conn_info
  sy_irodsFsClient :: "'w irods_fs option"
  sy_irodsFsVPathManager :: vpath_manager
  sy_maxThreads :: int
  sy_upperLayerPath :: string

text \<open>\<open>filepath.Abs\<close> with the working directory.\<close>

definition Abs :: "(go_error + string) \<Rightarrow> string \<Rightarrow> go_error + string" where
  "Abs wd path = (if IsAbs path then Inr (Clean path)
     else (case wd of Inl e \<Rightarrow> Inl e | Inr d \<Rightarrow> Inr (JoinPath [d, path])))"

definition NewOverlayFSSyncher ::
    "'w sync_lib \<Rightarrow> string \<Rightarrow> conn_info \<Rightarrow> string \<Rightarrow> ('w, go_error + 'w syncher) state" where
  "NewOverlayFSSyncher lib volumeID irodsConnInfo upper = do {
     client \<leftarrow> sl_new_client lib (get_config irodsConnInfo);
     case client of
       Inl e \<Rightarrow> ret (Inl (XErr ''failed to create fs client: %w'' [AErr e]))
     | Inr fs \<Rightarrow> do {
     vpaths \<leftarrow> sl_new_vpaths lib fs (PathMappings irodsConnInfo);
     case vpaths of
       Inl e \<Rightarrow> ret (Inl (XErr ''failed to create Virtual Path Manager: %w'' [AErr e]))
     | Inr vpathManager \<Rightarrow> do {
     wd \<leftarrow> sl_getwd lib;
     case Abs wd upper of
       Inl e \<Rightarrow> ret (Inl (XErr ''failed to get abs upper path for %q: %w'' [AStr upper, AErr e]))
     | Inr absUpper \<Rightarrow> ret (Inr
         \<lparr>sy_volumeID = volumeID, sy_irodsConnectionInfo = irodsConnInfo, sy_irodsFsClient = Some fs,
          sy_irodsFsVPathManager = vpathManager, sy_maxThreads = 4, sy_upperLayerPath = absUpper\<rparr>) } } }"

definition Release :: "'w sync_lib \<Rightarrow> 'w syncher \<Rightarrow> ('w, 'w syncher) state" where
  "Release lib s =
     (case sy_irodsFsClient s of
        None \<Rightarrow> ret s
      | Some fs \<Rightarrow> do { _ \<leftarrow> sl_release lib fs; ret (s\<lparr>sy_irodsFsClient := None\<rparr>) })"

definition GetUpperLayerPath :: "'w syncher \<Rightarrow> string" where
  "GetUpperLayerPath s = sy_upperLayerPath s"

definition getStatusFilePath :: "'w syncher \<Rightarrow> string" where
  "getStatusFilePath s =
     ''/'' @ ClientZoneName (sy_irodsConnectionInfo s) @ ''/home/'' @ ClientUsername (sy_irodsConnectionInfo s)
       @ ''/.'' @ sy_volumeID s @ syncStatusFileSuffix"

text \<open>The iRODS path of a local path; an empty one where it lies in a virtual directory.\<close>

definition getIRODSPath :: "'w syncher \<Rightarrow> string \<Rightarrow> go_error + string" where
  "getIRODSPath s localPath =
     (case Rel (sy_upperLayerPath s) localPath of
        None \<Rightarrow> Inl (XErr ''failed to get relative path from %q to %q'' [AStr (sy_upperLayerPath s), AStr localPath])
      | Some relpath \<Rightarrow>
          let vpath = JoinPath [''/'', relpath] in
          (case sy_irodsFsVPathManager s vpath of
             None \<Rightarrow> Inl (XErr ''failed to find closest vpath entry for path %q'' [AStr vpath])
           | Some entry \<Rightarrow>
               if ve_virtual_dir entry then Inr []
               else (case ve_irods_path entry vpath of
                       Inl e \<Rightarrow> Inl (XErr ''failed to get iRODS path for path %q: %w'' [AStr vpath, AErr e])
                     | Inr irodsPath \<Rightarrow> Inr irodsPath)))"

definition isIgnoredFile :: "string \<Rightarrow> bool" where
  "isIgnoredFile path \<longleftrightarrow> HasPrefix (Base path) ''.wh.'' \<and> HasSuffix (Base path) ''.opq''"


section \<open>The tasks\<close>

text \<open>The status file, where the handle is not nil; errors of the write are ignored.\<close>

definition status_line :: "'w irods_fs \<Rightarrow> bool \<Rightarrow> string \<Rightarrow> fmt_arg list \<Rightarrow> ('w, unit) state" where
  "status_line fs statusFile fmt args =
     (if statusFile then fs_write fs (fmt @ [CHR 0x0A], args) else ret ())"

text \<open>A failed step is noted in the status file, and returned.\<close>

definition sync_failed ::
    "'w irods_fs \<Rightarrow> bool \<Rightarrow> string \<Rightarrow> string \<Rightarrow> string \<Rightarrow> go_error \<Rightarrow> ('w, go_error option) state" where
  "sync_failed fs statusFile note what irodsPath err = do {
     _ \<leftarrow> status_line fs statusFile (''> Fail. failed to '' @ note @ '' %q. %s'') [AStr irodsPath, AErr err];
     ret (Some (XErr (''failed to '' @ what @ '' %q: %w'') [AStr irodsPath, AErr err])) }"

text \<open>A removal is recursive, where there is a choice, and does not go through the trash.\<close>

definition syncWhiteout :: "'w irods_fs \<Rightarrow> 'w syncher \<Rightarrow> bool \<Rightarrow> string \<Rightarrow> ('w, go_error option) state" where
  "syncWhiteout fs s statusFile path =
     (case getIRODSPath s path of
        Inl e \<Rightarrow> ret (Some e)
      | Inr irodsPath \<Rightarrow>
          if length irodsPath = 0 then ret None
          else do {
            _ \<leftarrow> status_line fs statusFile ''Processing whiteout %q'' [AStr irodsPath];
            entry \<leftarrow> fs_stat fs irodsPath;
            case entry of
              Inl e \<Rightarrow>
                if fs_not_found fs e then do {
                  _ \<leftarrow> status_line fs statusFile ''> Failed. file or dir %q not exist, ignored'' [AStr irodsPath];
                  ret None }
                else sync_failed fs statusFile ''stat'' ''stat'' irodsPath e
            | Inr isDir \<Rightarrow> do {
                err \<leftarrow> (if isDir then fs_remove_dir fs irodsPath True True else fs_remove_file fs irodsPath True);
                case err of
                  Some e \<Rightarrow>
                    if isDir then sync_failed fs statusFile ''remove dir'' ''remove dir'' irodsPath e
                    else sync_failed fs statusFile ''remove file'' ''remove file'' irodsPath e
                | None \<Rightarrow> do {
                    _ \<leftarrow> status_line fs statusFile ''> Done. processed whiteout %q'' [AStr irodsPath];
                    ret None } } })"

definition upload_file :: "'w irods_fs \<Rightarrow> bool \<Rightarrow> string \<Rightarrow> string \<Rightarrow> ('w, go_error option) state" where
  "upload_file fs statusFile path irodsPath = do {
     err \<leftarrow> fs_upload fs path irodsPath;
     case err of
       Some e \<Rightarrow> sync_failed fs statusFile ''upload file'' ''upload file'' irodsPath e
     | None \<Rightarrow> do {
         _ \<leftarrow> status_line fs statusFile ''> Done. processed file %q'' [AStr irodsPath];
         ret None } }"

definition syncFile :: "'w irods_fs \<Rightarrow> 'w syncher \<Rightarrow> bool \<Rightarrow> string \<Rightarrow> ('w, go_error option) state" where
  "syncFile fs s statusFile path =
     (case getIRODSPath s path of
        Inl e \<Rightarrow> ret (Some e)
      | Inr irodsPath \<Rightarrow>
          if length irodsPath = 0 then ret None
          else do {
            _ \<leftarrow> status_line fs statusFile ''Processing file %q'' [AStr irodsPath];
            entry \<leftarrow> fs_stat fs irodsPath;
            case entry of
              Inl e \<Rightarrow>
                if \<not> fs_not_found fs e then sync_failed fs statusFile ''stat'' ''stat'' irodsPath e
                else upload_file fs statusFile path irodsPath
            | Inr isDir \<Rightarrow>
                if isDir then do {
                  err \<leftarrow> fs_remove_dir fs irodsPath True True;
                  case err of
                    Some e \<Rightarrow> sync_failed fs statusFile ''remove dir'' ''remove dir'' irodsPath e
                  | None \<Rightarrow> upload_file fs statusFile path irodsPath }
                else upload_file fs statusFile path irodsPath })"

fun clear_entries :: "'w irods_fs \<Rightarrow> (string \<times> bool) list \<Rightarrow> ('w, go_error option) state" where
  "clear_entries fs [] = ret None"
| "clear_entries fs ((path, isDir) # entries) = do {
     err \<leftarrow> (if isDir then fs_remove_dir fs path True True else fs_remove_file fs path True);
     case err of
       Some e \<Rightarrow> ret (Some (XErr (if isDir then ''failed to remove dir %q: %w'' else ''failed to remove %q: %w'')
         [AStr path, AErr e]))
     | None \<Rightarrow> clear_entries fs entries }"

definition clearDirEntries :: "'w irods_fs \<Rightarrow> string \<Rightarrow> ('w, go_error option) state" where
  "clearDirEntries fs path = do {
     entries \<leftarrow> fs_list fs path;
     case entries of
       Inl e \<Rightarrow> ret (Some (XErr ''failed to read dir %q: %w'' [AStr path, AErr e]))
     | Inr es \<Rightarrow> clear_entries fs es }"

definition make_synced_dir :: "'w irods_fs \<Rightarrow> bool \<Rightarrow> string \<Rightarrow> ('w, go_error option) state" where
  "make_synced_dir fs statusFile irodsPath = do {
     err \<leftarrow> fs_make_dir fs irodsPath True;
     case err of
       Some e \<Rightarrow> sync_failed fs statusFile ''make dir'' ''make dir'' irodsPath e
     | None \<Rightarrow> do {
         _ \<leftarrow> status_line fs statusFile ''> Done. processed dir %q'' [AStr irodsPath];
         ret None } }"

definition opaque_value :: "(go_error + string) \<Rightarrow> bool" where
  "opaque_value r = (case r of Inl e \<Rightarrow> False | Inr v \<Rightarrow> ToLower v = ''y'')"

text \<open>What is done once the stat has answered: \<open>entry\<close> is what is there.\<close>

definition syncDir_entry ::
    "'w irods_fs \<Rightarrow> bool \<Rightarrow> string \<Rightarrow> bool \<Rightarrow> go_error + bool \<Rightarrow> ('w, go_error option) state" where
  "syncDir_entry fs statusFile irodsPath opaqueDir entry =
     (case entry of
        Inl e \<Rightarrow>
          if fs_not_found fs e then make_synced_dir fs statusFile irodsPath
          else sync_failed fs statusFile ''stat'' ''stat'' irodsPath e
      | Inr isDir \<Rightarrow>
          if \<not> isDir then do {
            err \<leftarrow> fs_remove_file fs irodsPath True;
            case err of
              Some e \<Rightarrow> sync_failed fs statusFile ''remove file'' ''remove file'' irodsPath e
            | None \<Rightarrow> make_synced_dir fs statusFile irodsPath }
          else if opaqueDir then do {
            err \<leftarrow> clearDirEntries fs irodsPath;
            case err of
              Some e \<Rightarrow> sync_failed fs statusFile ''clear dir'' ''clear'' irodsPath e
            | None \<Rightarrow> ret None }
          else ret None)"

definition syncDir :: "'w irods_fs \<Rightarrow> 'w syncher \<Rightarrow> bool \<Rightarrow> string \<Rightarrow> ('w, go_error option) state" where
  "syncDir fs s statusFile path =
     (case getIRODSPath s path of
        Inl e \<Rightarrow> ret (Some e)
      | Inr irodsPath \<Rightarrow>
          if length irodsPath = 0 then ret None
          else do {
            _ \<leftarrow> status_line fs statusFile ''Processing dir %q'' [AStr irodsPath];
            xattrVal \<leftarrow> fs_xattr fs path overlayFSOpaqueXAttr;
            entry \<leftarrow> fs_stat fs irodsPath;
            syncDir_entry fs statusFile irodsPath (opaque_value xattrVal) entry })"


section \<open>The walk\<close>

text \<open>
  The upper layer: a directory with the error of reading it, if any, and its entries in the order of
  their names; a character device (a whiteout); anything else. The order is the one \<open>os.ReadDir\<close> gives.
\<close>

datatype node = NDir "go_error option" "(string \<times> node) list" | NCharDevice | NFile

datatype sync_task = SyncDir string | SyncWhiteout string | SyncFile string

fun task_path :: "sync_task \<Rightarrow> string" where
  "task_path (SyncDir path) = path" | "task_path (SyncWhiteout path) = path" | "task_path (SyncFile path) = path"

text \<open>The closure's variable \<open>currentDirPath\<close>, and the calls accepted by the job manager so far.\<close>

record walk =
  wk_currentDirPath :: string
  wk_cmds :: "sync_task cmd list"

text \<open>
  Scheduling: \<open>last_error\<close> is what the call finds in the manager's last error; with one, nothing is
  scheduled.
\<close>

type_synonym last_error = "sync_task cmd list \<Rightarrow> go_error option"

definition schedule :: "last_error \<Rightarrow> sync_task cmd \<Rightarrow> (walk, go_error option) state" where
  "schedule last_error c = do {
     cmds \<leftarrow> gets wk_cmds;
     case last_error cmds of
       Some e \<Rightarrow> ret (Some e)
     | None \<Rightarrow> do { _ \<leftarrow> modify (wk_cmds_update (\<lambda>cs. cs @ [c])); ret None } }"

text \<open>The barrier at another directory; the answer is whether to go on.\<close>

definition enter_dir :: "'w syncher \<Rightarrow> last_error \<Rightarrow> string \<Rightarrow> (walk, bool) state" where
  "enter_dir s last_error parentDirPath = do {
     currentDirPath \<leftarrow> gets wk_currentDirPath;
     if currentDirPath \<noteq> parentDirPath then do {
       scheduleErr \<leftarrow> schedule last_error
         (ScheduleBarrier (''barrier - %q for volume %q'', [AStr parentDirPath, AStr (sy_volumeID s)]));
       case scheduleErr of
         Some e \<Rightarrow> ret False
       | None \<Rightarrow> do { _ \<leftarrow> modify (wk_currentDirPath_update (\<lambda>_. parentDirPath)); ret True } }
     else ret True }"

text \<open>A task that cannot be scheduled is dropped, and the walk goes on.\<close>

definition schedule_task :: "'w syncher \<Rightarrow> last_error \<Rightarrow> string \<Rightarrow> sync_task \<Rightarrow> (walk, go_error option) state" where
  "schedule_task s last_error fmt task = do {
     _ \<leftarrow> schedule last_error (Schedule (fmt, [AStr (task_path task), AStr (sy_volumeID s)]) task 1);
     ret None }"

definition walkFunc ::
    "'w syncher \<Rightarrow> last_error \<Rightarrow> string \<Rightarrow> go_error + node \<Rightarrow> (walk, go_error option) state" where
  "walkFunc s last_error path d =
     (case d of
        Inl e \<Rightarrow> ret (Some (XErr ''failed to walk %q for volume %q: %w'' [AStr path, AStr (sy_volumeID s), AErr e]))
      | Inr d \<Rightarrow> do {
          entered \<leftarrow> enter_dir s last_error (Dir path);
          if \<not> entered then ret None
          else (case d of
             NDir _ _ \<Rightarrow>
               if path = sy_upperLayerPath s then ret None
               else schedule_task s last_error ''sync dir - %q for volume %q'' (SyncDir path)
           | NCharDevice \<Rightarrow>
               if isIgnoredFile path then ret None
               else schedule_task s last_error ''sync whiteout - %q for volume %q, '' (SyncWhiteout path)
           | NFile \<Rightarrow>
               if isIgnoredFile path then ret None
               else schedule_task s last_error ''sync file - %q for volume %q'' (SyncFile path)) })"

text \<open>\<open>filepath.WalkDir\<close> with this function, which never returns \<open>SkipDir\<close>.\<close>

fun walkDir :: "'w syncher \<Rightarrow> last_error \<Rightarrow> string \<Rightarrow> node \<Rightarrow> (walk, go_error option) state"
  and walkEntries :: "'w syncher \<Rightarrow> last_error \<Rightarrow> string \<Rightarrow> (string \<times> node) list \<Rightarrow> (walk, go_error option) state"
where
  "walkDir s last_error path (NDir read_err entries) = do {
     err \<leftarrow> walkFunc s last_error path (Inr (NDir read_err entries));
     case err of
       Some e \<Rightarrow> ret (Some e)
     | None \<Rightarrow>
         (case read_err of
            Some e \<Rightarrow> do {
              err \<leftarrow> walkFunc s last_error path (Inl e);
              case err of
                Some e \<Rightarrow> ret (Some e)
              | None \<Rightarrow> walkEntries s last_error path entries }
          | None \<Rightarrow> walkEntries s last_error path entries) }"
| "walkDir s last_error path NCharDevice = walkFunc s last_error path (Inr NCharDevice)"
| "walkDir s last_error path NFile = walkFunc s last_error path (Inr NFile)"
| "walkEntries s last_error path [] = ret None"
| "walkEntries s last_error path ((name, d) # entries) = do {
     err \<leftarrow> walkDir s last_error (JoinPath [path, name]) d;
     case err of
       Some e \<Rightarrow> ret (Some e)
     | None \<Rightarrow> walkEntries s last_error path entries }"

definition WalkDir :: "'w syncher \<Rightarrow> last_error \<Rightarrow> go_error + node \<Rightarrow> (walk, go_error option) state" where
  "WalkDir s last_error root =
     (case root of
        Inl e \<Rightarrow> walkFunc s last_error (sy_upperLayerPath s) (Inl e)
      | Inr d \<Rightarrow> walkDir s last_error (sy_upperLayerPath s) d)"

end
