(* ===== verification/Irods_Tree.thy ===== *)
theory Irods_Tree
  imports Main
begin

text \<open>
  A collection of iRODS as a tree: collections with named entries, and data objects with their content.
  A node that is not there is \<^const>\<open>None\<close>. An update at a path changes the node there, makes the
  collections above it where the node is to exist, and leaves the rest.
\<close>

datatype 'c itree = Coll "string \<Rightarrow> 'c itree option" | Data 'c

fun is_coll :: "'c itree \<Rightarrow> bool" where
  "is_coll (Coll m) = True" | "is_coll (Data c) = False"

fun children :: "'c itree option \<Rightarrow> string \<Rightarrow> 'c itree option" where
  "children (Some (Coll m)) = m" | "children _ = Map.empty"

fun set_child :: "string \<Rightarrow> 'c itree option \<Rightarrow> 'c itree option \<Rightarrow> 'c itree option" where
  "set_child x (Some u) t = Some (Coll ((children t)(x \<mapsto> u)))"
| "set_child x None (Some (Coll m)) = Some (Coll (m(x := None)))"
| "set_child x None t = t"

fun lookup_at :: "string list \<Rightarrow> 'c itree option \<Rightarrow> 'c itree option" where
  "lookup_at [] t = t"
| "lookup_at (x # es) t = lookup_at es (children t x)"

fun update_at :: "string list \<Rightarrow> ('c itree option \<Rightarrow> 'c itree option) \<Rightarrow> 'c itree option \<Rightarrow> 'c itree option" where
  "update_at [] f t = f t"
| "update_at (x # es) f t = set_child x (update_at es f (children t x)) t"

lemma children_set_child [simp]: "children (set_child x u t) = (children t)(x := u)"
  by (cases "(x, u, t)" rule: set_child.cases) auto

lemma set_child_same [simp]: "set_child x (children t x) t = t"
proof (cases "children t x")
  case None
  then show ?thesis by (cases "(x, None :: 'a itree option, t)" rule: set_child.cases) auto
next
  case (Some u)
  then show ?thesis by (cases t rule: children.cases) (auto simp: fun_upd_idem)
qed

lemma set_child_comm: "x \<noteq> y \<Longrightarrow> set_child x u (set_child y v t) = set_child y v (set_child x u t)"
  by (cases t rule: children.cases; cases u; cases v) (auto simp: fun_upd_twist)

lemma set_child_twice: "(u = None \<Longrightarrow> v = None) \<Longrightarrow> set_child x u (set_child x v t) = set_child x u t"
  by (cases t rule: children.cases; cases u; cases v) auto

lemma set_child_Coll [simp]: "set_child x u (Some (Coll m)) = Some (Coll (m(x := u)))"
  by (cases u) auto

lemma set_child_Some: "set_child x u (Some t) \<noteq> None"
  by (cases u; cases t) auto

lemma update_at_append: "update_at (p @ q) f t = update_at p (update_at q f) t"
  by (induction p arbitrary: t) auto

lemma lookup_at_append: "lookup_at (p @ q) t = lookup_at q (lookup_at p t)"
  by (induction p arbitrary: t) auto

lemma lookup_update [simp]: "lookup_at p (update_at p f t) = f (lookup_at p t)"
  by (induction p arbitrary: t) auto

text \<open>Only the function's value at the node matters.\<close>

lemma update_at_cong: "f (lookup_at p t) = g (lookup_at p t) \<Longrightarrow> update_at p f t = update_at p g t"
  by (induction p arbitrary: t) auto

lemma update_at_same: "f (lookup_at p t) = lookup_at p t \<Longrightarrow> update_at p f t = t"
  by (induction p arbitrary: t) auto

lemma update_at_Some: "p \<noteq> [] \<Longrightarrow> update_at p f (Some t) \<noteq> None"
  by (cases p) (auto simp: set_child_Some)

lemma update_at_compose:
  "(\<And>t. F (Some t) \<noteq> None) \<Longrightarrow> update_at p F (update_at p G t) = update_at p (\<lambda>t. F (G t)) t"
proof (induction p arbitrary: t)
  case (Cons x p)
  have "update_at p F (Some u) \<noteq> None" for u
    using Cons.prems by (cases p) (auto simp: set_child_Some)
  then have "update_at p F (update_at p G (children t x)) = None \<Longrightarrow> update_at p G (children t x) = None"
    by (cases "update_at p G (children t x)") auto
  with Cons show ?case by (simp add: set_child_twice)
qed simp

text \<open>Updates of two entries of one collection do not depend on their order.\<close>

lemma update_at_comm:
  assumes "x \<noteq> y"
  shows "update_at (p @ [x]) f (update_at (p @ [y]) g t) = update_at (p @ [y]) g (update_at (p @ [x]) f t)"
proof (induction p arbitrary: t)
  case Nil
  show ?case using assms by (simp add: set_child_comm)
next
  case (Cons z p)
  have two: "update_at (z # p @ [e]) h (update_at (z # p @ [e']) k t) =
      set_child z (update_at (p @ [e]) h (update_at (p @ [e']) k (children t z))) t" for e h e' k
  proof -
    have "update_at (p @ [e]) h v = None \<Longrightarrow> v = None" for v
      using update_at_Some [of "p @ [e]" h] by (cases v) auto
    then show ?thesis by (simp add: set_child_twice)
  qed
  have "update_at (z # p @ [x]) f (update_at (z # p @ [y]) g t) = update_at (z # p @ [y]) g (update_at (z # p @ [x]) f t)"
    unfolding two using Cons [of "children t z"] by (rule arg_cong)
  then show ?case by simp
qed

end
