(* ===== verification/Abs_Path.thy ===== *)
theory Abs_Path
  imports Go_Filepath
begin

text \<open>
  Absolute paths by their elements: what the operations of Go_Filepath do on the path with given plain
  elements, and below it.
\<close>

abbreviation plain :: "string list \<Rightarrow> bool" where
  "plain es \<equiv> \<forall>e \<in> set es. plain_elem e"

definition abs_path :: "string list \<Rightarrow> string" where
  "abs_path es = slash # Join es ''/''"

lemma IsAbs_abs_path [simp]: "IsAbs (abs_path es)"
  by (simp add: abs_path_def)

lemma elems_abs_path: "plain es \<Longrightarrow> elems (abs_path es) = es"
  by (simp add: abs_path_def elems_Join plain_elem_def)

lemma abs_elems_abs_path: "plain es \<Longrightarrow> abs_elems (abs_path es) = es"
  by (simp add: elems_abs_path clean_elems_id)

lemma abs_path_eq_iff: "plain es \<Longrightarrow> plain fs \<Longrightarrow> abs_path es = abs_path fs \<longleftrightarrow> es = fs"
  by (metis elems_abs_path)

lemma Clean_abs_path: "plain es \<Longrightarrow> Clean (abs_path es) = abs_path es"
  by (simp add: Clean_abs abs_elems_abs_path) (simp add: abs_path_def)

lemma Clean_absolute: "IsAbs s \<Longrightarrow> Clean s = abs_path (abs_elems s)"
  by (simp add: Clean_abs abs_path_def)

lemma JoinPath_name:
  assumes "plain es" and "plain_elem n"
  shows "JoinPath [abs_path es, n] = abs_path (es @ [n])"
proof -
  have "elems (abs_path es @ slash # n) = es @ [n]"
    using assms by (simp add: elems_append_slash elems_abs_path plain_elem_def)
  moreover have "IsAbs (abs_path es @ slash # n)" by (simp add: IsAbs_def abs_path_def)
  ultimately have "Clean (abs_path es @ slash # n) = abs_path (es @ [n])"
    using assms by (simp add: Clean_absolute clean_elems_id)
  with assms show ?thesis by (simp add: JoinPath_def abs_path_def plain_elem_def)
qed

lemma abs_path_snoc: "es \<noteq> [] \<Longrightarrow> abs_path (es @ [n]) = abs_path es @ slash # n"
  unfolding abs_path_def by (subst Join_append) auto

lemma abs_path_parts: "\<exists>p. abs_path (es @ [n]) = p @ slash # n \<and> (p = abs_path es \<or> es = [] \<and> p = [])"
proof (cases "es = []")
  case True
  then show ?thesis by (simp add: abs_path_def)
next
  case False
  then show ?thesis by (simp add: abs_path_snoc)
qed

lemma Dir_abs_path:
  assumes "plain es" and "plain_elem n"
  shows "Dir (abs_path (es @ [n])) = abs_path es"
proof -
  obtain p where p: "abs_path (es @ [n]) = p @ slash # n" "p = abs_path es \<or> es = [] \<and> p = []"
    using abs_path_parts by blast
  have "slash \<notin> set n" using assms(2) by (simp add: plain_elem_def)
  then have d: "dropWhile (\<lambda>c. c \<noteq> slash) (rev (p @ slash # n)) = slash # rev p"
    by (subst rev_append, simp) (subst dropWhile_append2, auto)
  have "Clean (p @ [slash]) = abs_path es"
  proof (cases "es = []")
    case True
    with p(2) show ?thesis by (auto simp: abs_path_def Clean_def clean_elems_def IsAbs_def)
  next
    case False
    with p(2) have "p = abs_path es" by simp
    moreover have "IsAbs (abs_path es @ [slash])" by (simp add: IsAbs_def abs_path_def)
    ultimately show ?thesis
      using assms(1) elems_append_slash [of "abs_path es" "[]"]
      by (simp add: Clean_absolute elems_abs_path clean_elems_id)
  qed
  with p(1) d show ?thesis by (simp add: Dir_def)
qed

lemma Base_abs_path:
  assumes "plain_elem n"
  shows "Base (abs_path (es @ [n])) = n"
proof -
  obtain p where p: "abs_path (es @ [n]) = p @ slash # n" using abs_path_parts by blast
  have n: "n \<noteq> []" "slash \<notin> set n" using assms by (simp_all add: plain_elem_def)
  then have "last n \<noteq> slash" by (metis last_in_set)
  then have "TrimRightChar (p @ slash # n) slash = p @ slash # n"
    using n by (cases n rule: rev_cases) (simp_all add: TrimRightChar_def)
  moreover have "takeWhile (\<lambda>c. c \<noteq> slash) (rev n @ slash # rev p) = rev n"
    using n by (subst takeWhile_append2) auto
  ultimately show ?thesis using p by (simp add: Base_def Let_def)
qed

lemma Rel_below:
  assumes "plain (us @ es)" and "es \<noteq> []"
  shows "Rel (abs_path us) (abs_path (us @ es)) = Some (Join es ''/'')"
proof -
  have "strip_common us (us @ es) = ([], es)" by (rule strip_common_prefix)
  with assms show ?thesis by (simp add: Rel_abs abs_elems_abs_path)
qed

lemma Join_not_Nil: "plain es \<Longrightarrow> es \<noteq> [] \<Longrightarrow> Join es ''/'' \<noteq> []"
  by (subst Join_eq_Nil) (auto simp: plain_elem_def)

lemma JoinPath_root:
  assumes "plain es" and "es \<noteq> []"
  shows "JoinPath [''/'', Join es ''/''] = abs_path es"
proof -
  let ?p = "slash # slash # Join es ''/''"
  have "elems ?p = es" using assms(1) by (simp add: elems_Join plain_elem_def)
  with assms(1) have "Clean ?p = abs_path es" by (simp add: Clean_absolute clean_elems_id)
  with Join_not_Nil [OF assms] show ?thesis by (simp add: JoinPath_def)
qed

end
