(* ===== verification/Overlay_Tasks.thy ===== *)
theory Overlay_Tasks
  imports Overlay_Sync Irods_Tree Abs_Path
begin

text \<open>
  What one task of the overlay synchronisation does in iRODS. The contract of the iRODS client says what
  a call has done where it reports success; nothing is said of a call that fails. Under it each task
  that reports no error has the effect of one update of the collection.
\<close>

section \<open>The contract of the iRODS client\<close>

text \<open>
  The synchronised collection has the elements \<open>cs\<close>; \<open>view\<close> reads it as a tree from the state, \<open>content\<close> is
  the content of a local file and \<open>attr\<close> its extended attributes. Reading calls and the status file leave the
  collection as it is.
\<close>

definition keeps_view :: "('w \<Rightarrow> 'v) \<Rightarrow> ('w, 'a) state \<Rightarrow> bool" where
  "keeps_view view m \<longleftrightarrow> (\<forall>w. view (snd (run_state m w)) = view w)"

definition reads_ok :: "'w irods_fs \<Rightarrow> ('w \<Rightarrow> 'v) \<Rightarrow> (string \<Rightarrow> string \<Rightarrow> go_error + string) \<Rightarrow> bool" where
  "reads_ok fs view attr \<longleftrightarrow> (\<forall>p. keeps_view view (fs_stat fs p)) \<and> (\<forall>p. keeps_view view (fs_list fs p)) \<and>
     (\<forall>msg. keeps_view view (fs_write fs msg)) \<and> (\<forall>p r m. keeps_view view (fs_open_file fs p r m)) \<and>
     (\<forall>p name. keeps_view view (fs_xattr fs p name) \<and> (\<forall>w. fst (run_state (fs_xattr fs p name) w) = attr p name))"

definition stat_ok :: "'w irods_fs \<Rightarrow> string list \<Rightarrow> ('w \<Rightarrow> 'c itree option) \<Rightarrow> bool" where
  "stat_ok fs cs view \<longleftrightarrow> (\<forall>es w. plain es \<longrightarrow>
     (case fst (run_state (fs_stat fs (abs_path (cs @ es))) w) of
        Inl e \<Rightarrow> fs_not_found fs e \<longrightarrow> lookup_at es (view w) = None
      | Inr d \<Rightarrow> map_option is_coll (lookup_at es (view w)) = Some d))"

definition as_coll :: "'c itree option \<Rightarrow> 'c itree option" where
  "as_coll t = Some (Coll (children t))"

definition make_ok :: "'w irods_fs \<Rightarrow> string list \<Rightarrow> ('w \<Rightarrow> 'c itree option) \<Rightarrow> (string \<Rightarrow> 'c) \<Rightarrow> bool" where
  "make_ok fs cs view content \<longleftrightarrow>
     (\<forall>es w w'. plain es \<longrightarrow> run_state (fs_make_dir fs (abs_path (cs @ es)) True) w = (None, w') \<longrightarrow>
        view w' = update_at es as_coll (view w)) \<and>
     (\<forall>es w w' p. plain es \<longrightarrow> run_state (fs_upload fs p (abs_path (cs @ es))) w = (None, w') \<longrightarrow>
        view w' = update_at es (\<lambda>_. Some (Data (content p))) (view w))"

definition remove_ok :: "'w irods_fs \<Rightarrow> string list \<Rightarrow> ('w \<Rightarrow> 'c itree option) \<Rightarrow> bool" where
  "remove_ok fs cs view \<longleftrightarrow>
     (\<forall>es w w'. plain es \<longrightarrow> run_state (fs_remove_dir fs (abs_path (cs @ es)) True True) w = (None, w') \<longrightarrow>
        view w' = update_at es (\<lambda>_. None) (view w)) \<and>
     (\<forall>es w w'. plain es \<longrightarrow> run_state (fs_remove_file fs (abs_path (cs @ es)) True) w = (None, w') \<longrightarrow>
        view w' = update_at es (\<lambda>_. None) (view w))"

text \<open>A list gives the paths of a collection's entries, each once.\<close>

definition list_ok :: "'w irods_fs \<Rightarrow> string list \<Rightarrow> ('w \<Rightarrow> 'c itree option) \<Rightarrow> bool" where
  "list_ok fs cs view \<longleftrightarrow> (\<forall>es w entries. plain es \<longrightarrow>
     fst (run_state (fs_list fs (abs_path (cs @ es))) w) = Inr entries \<longrightarrow>
     (\<exists>names. map fst entries = map (\<lambda>n. abs_path (cs @ es @ [n])) names \<and> plain names \<and>
        set names = dom (children (lookup_at es (view w)))))"

definition irods_contract ::
    "'w irods_fs \<Rightarrow> string list \<Rightarrow> ('w \<Rightarrow> 'c itree option) \<Rightarrow> (string \<Rightarrow> 'c) \<Rightarrow>
     (string \<Rightarrow> string \<Rightarrow> go_error + string) \<Rightarrow> bool" where
  "irods_contract fs cs view content attr \<longleftrightarrow> plain cs \<and> reads_ok fs view attr \<and> stat_ok fs cs view \<and>
     make_ok fs cs view content \<and> remove_ok fs cs view \<and> list_ok fs cs view"

text \<open>
  The virtual paths of a volume with one mapping, of its root to the collection: below the root they
  are the paths of the collection.
\<close>

definition maps_root :: "vpath_manager \<Rightarrow> string list \<Rightarrow> bool" where
  "maps_root vpaths cs \<longleftrightarrow> (\<forall>es. plain es \<longrightarrow> es \<noteq> [] \<longrightarrow>
     (case vpaths (abs_path es) of
        None \<Rightarrow> False
      | Some entry \<Rightarrow> \<not> ve_virtual_dir entry \<and> ve_irods_path entry (abs_path es) = Inr (abs_path (cs @ es))))"

definition upper_at :: "'w syncher \<Rightarrow> string list \<Rightarrow> bool" where
  "upper_at s us \<longleftrightarrow> plain us \<and> sy_upperLayerPath s = abs_path us"


section \<open>Paths\<close>

lemma getIRODSPath_below:
  assumes "upper_at s us" and "maps_root (sy_irodsFsVPathManager s) cs" and "plain es" and "es \<noteq> []"
  shows "getIRODSPath s (abs_path (us @ es)) = Inr (abs_path (cs @ es))"
proof -
  have "plain (us @ es)" using assms(1,3) by (auto simp: upper_at_def)
  then have "Rel (sy_upperLayerPath s) (abs_path (us @ es)) = Some (Join es ''/'')"
    using assms(1,4) by (simp add: upper_at_def Rel_below)
  moreover have "JoinPath [''/'', Join es ''/''] = abs_path es" using assms(3,4) by (rule JoinPath_root)
  moreover have "case sy_irodsFsVPathManager s (abs_path es) of None \<Rightarrow> False
      | Some entry \<Rightarrow> \<not> ve_virtual_dir entry \<and> ve_irods_path entry (abs_path es) = Inr (abs_path (cs @ es))"
    using assms(2-4) by (simp add: maps_root_def)
  ultimately show ?thesis by (auto simp: getIRODSPath_def Let_def split: option.splits)
qed

lemma abs_path_length [simp]: "length (abs_path es) \<noteq> 0" "abs_path es \<noteq> []"
  by (simp_all add: abs_path_def)


section \<open>Tasks\<close>

text \<open>\<open>brings view m f\<close>: where the program \<open>m\<close> reports no error, it has updated the view with \<open>f\<close>.\<close>

definition brings :: "('w \<Rightarrow> 'v) \<Rightarrow> ('w, go_error option) state \<Rightarrow> 'w \<Rightarrow> ('v \<Rightarrow> 'v) \<Rightarrow> bool" where
  "brings view m w f \<longleftrightarrow> (\<forall>w'. run_state m w = (None, w') \<longrightarrow> view w' = f (view w))"

text \<open>A program that always reports an error brings about anything.\<close>

definition fails :: "('w, go_error option) state \<Rightarrow> bool" where
  "fails m \<longleftrightarrow> (\<forall>w. fst (run_state m w) \<noteq> None)"

lemma fails_ret [simp]: "fails (ret (Some e))"
  by (simp add: fails_def)

lemma fails_sync_failed [simp]: "fails (sync_failed fs h note what p e)"
  by (simp add: fails_def sync_failed_def split: prod.splits)

lemma brings_fails: "fails m \<Longrightarrow> brings view m w f"
  unfolding fails_def brings_def by (metis fst_conv)

lemma brings_ret: "f (view w) = view w \<Longrightarrow> brings view (ret None) w f"
  by (simp add: brings_def)

text \<open>After a program that keeps the view, and after one that brings something about or fails.\<close>

lemma brings_keep:
  assumes "keeps_view view m"
    and "\<And>r w'. r = fst (run_state m w) \<Longrightarrow> view w' = view w \<Longrightarrow> brings view (k r) w' f"
  shows "brings view (m \<bind> k) w f"
proof -
  obtain r w' where r: "run_state m w = (r, w')" by fastforce
  with assms(1) have v: "view w' = view w" by (metis keeps_view_def snd_conv)
  moreover have "run_state (m \<bind> k) w = run_state (k r) w'" using r by simp
  ultimately show ?thesis using assms(2) [of r w'] r by (simp add: brings_def)
qed

lemma brings_step:
  assumes "brings view m w g" and "\<And>w'. brings view (k None) w' h"
    and "\<And>e. fails (k (Some e))" and "h (g (view w)) = f (view w)"
  shows "brings view (m \<bind> k) w f"
proof -
  obtain r w' where r: "run_state m w = (r, w')" by fastforce
  then have run: "run_state (m \<bind> k) w = run_state (k r) w'" by simp
  show ?thesis
  proof (cases r)
    case None
    with r assms(1) have "view w' = g (view w)" by (simp add: brings_def)
    with assms(2) [of w'] run None assms(4) show ?thesis by (simp add: brings_def)
  next
    case (Some e)
    with assms(3) run have "fst (run_state (m \<bind> k) w) \<noteq> None" by (simp add: fails_def)
    then show ?thesis by (auto simp: brings_def)
  qed
qed

lemma brings_last: "brings view m w g \<Longrightarrow> (\<And>e. fails (k (Some e))) \<Longrightarrow> (\<And>w'. brings view (k None) w' id) \<Longrightarrow>
    brings view (m \<bind> k) w g"
  by (rule brings_step [where h = id]) auto

lemma brings_sum:
  "(\<And>e. r = Inl e \<Longrightarrow> brings view (m e) w f) \<Longrightarrow> (\<And>d. r = Inr d \<Longrightarrow> brings view (n d) w f) \<Longrightarrow>
   brings view (case r of Inl e \<Rightarrow> m e | Inr d \<Rightarrow> n d) w f"
  by (cases r) simp_all

lemma brings_if:
  "(b \<Longrightarrow> brings view m w f) \<Longrightarrow> (\<not> b \<Longrightarrow> brings view n w f) \<Longrightarrow> brings view (if b then m else n) w f"
  by simp

lemma keeps_status_line [simp]: "irods_contract fs cs view content attr \<Longrightarrow> keeps_view view (status_line fs h fmt args)"
  by (simp add: irods_contract_def reads_ok_def status_line_def keeps_view_def)

lemma brings_status_line:
  assumes "irods_contract fs cs view content attr"
    and "f (view w) = view w"
  shows "brings view (do { _ \<leftarrow> status_line fs h fmt args; ret None }) w f"
  by (rule brings_keep [OF keeps_status_line [OF assms(1)]]) (simp add: brings_ret assms(2))

lemma brings_upload_file:
  assumes "irods_contract fs cs view content attr" and "plain es"
  shows "brings view (upload_file fs h path (abs_path (cs @ es))) w (update_at es (\<lambda>_. Some (Data (content path))))"
  unfolding upload_file_def
proof (rule brings_last)
  show "brings view (fs_upload fs path (abs_path (cs @ es))) w (update_at es (\<lambda>_. Some (Data (content path))))"
    using assms by (simp add: irods_contract_def make_ok_def brings_def)
qed (use brings_status_line [OF assms(1)] in simp_all)

lemma brings_make_synced_dir:
  assumes "irods_contract fs cs view content attr" and "plain es"
  shows "brings view (make_synced_dir fs h (abs_path (cs @ es))) w (update_at es as_coll)"
  unfolding make_synced_dir_def
proof (rule brings_last)
  show "brings view (fs_make_dir fs (abs_path (cs @ es)) True) w (update_at es as_coll)"
    using assms by (simp add: irods_contract_def make_ok_def brings_def)
qed (use brings_status_line [OF assms(1)] in simp_all)

lemma brings_remove:
  assumes "irods_contract fs cs view content attr" and "plain es"
  shows "brings view (fs_remove_dir fs (abs_path (cs @ es)) True True) w (update_at es (\<lambda>_. None))"
    and "brings view (fs_remove_file fs (abs_path (cs @ es)) True) w (update_at es (\<lambda>_. None))"
  using assms by (simp_all add: irods_contract_def remove_ok_def brings_def)

text \<open>A stat tells what is there.\<close>

lemma stat_result:
  assumes "irods_contract fs cs view content attr" and "plain es"
    and "r = fst (run_state (fs_stat fs (abs_path (cs @ es))) w)"
  shows "r = Inl e \<Longrightarrow> fs_not_found fs e \<Longrightarrow> lookup_at es (view w) = None"
    and "r = Inr d \<Longrightarrow> \<exists>n. lookup_at es (view w) = Some n \<and> is_coll n = d"
proof -
  have "stat_ok fs cs view" using assms(1) by (simp add: irods_contract_def)
  with assms(2) have "case fst (run_state (fs_stat fs (abs_path (cs @ es))) w) of
        Inl e \<Rightarrow> fs_not_found fs e \<longrightarrow> lookup_at es (view w) = None
      | Inr d \<Rightarrow> map_option is_coll (lookup_at es (view w)) = Some d"
    unfolding stat_ok_def by blast
  with assms(3) show "r = Inl e \<Longrightarrow> fs_not_found fs e \<Longrightarrow> lookup_at es (view w) = None"
    and "r = Inr d \<Longrightarrow> \<exists>n. lookup_at es (view w) = Some n \<and> is_coll n = d"
    by (auto split: sum.splits)
qed

lemma keeps_stat: "irods_contract fs cs view content attr \<Longrightarrow> keeps_view view (fs_stat fs p)"
  and keeps_list: "irods_contract fs cs view content attr \<Longrightarrow> keeps_view view (fs_list fs p)"
  and keeps_xattr: "irods_contract fs cs view content attr \<Longrightarrow> keeps_view view (fs_xattr fs p n)"
  by (simp_all add: irods_contract_def reads_ok_def)

subsection \<open>What each task does\<close>

definition whiteout :: "'c itree option \<Rightarrow> 'c itree option" where
  "whiteout t = None"

definition new_file :: "'c \<Rightarrow> 'c itree option \<Rightarrow> 'c itree option" where
  "new_file c t = Some (Data c)"

text \<open>A directory is kept or made; an opaque one hides what was below it.\<close>

definition new_dir :: "bool \<Rightarrow> 'c itree option \<Rightarrow> 'c itree option" where
  "new_dir opq t = Some (Coll (if opq then Map.empty else children t))"

lemma syncWhiteout_brings:
  assumes c: "irods_contract fs cs view content attr" and m: "upper_at s us" "maps_root (sy_irodsFsVPathManager s) cs"
    and es: "plain es" "es \<noteq> []"
  shows "brings view (syncWhiteout fs s h (abs_path (us @ es))) w (update_at es whiteout)"
  unfolding syncWhiteout_def getIRODSPath_below [OF m es] sum.case
proof (simp, intro brings_keep [OF keeps_status_line [OF c]] brings_keep [OF keeps_stat [OF c]] brings_sum brings_if)
  fix w1 w2 w3 r e
  assume r: "r = fst (run_state (fs_stat fs (abs_path (cs @ es))) w1)" and w: "view w2 = view w1" "view w3 = view w2"
    and e: "r = Inl e" "fs_not_found fs e"
  show "brings view (ret None) w3 (update_at es whiteout)"
    by (intro brings_ret update_at_same) (simp add: whiteout_def w stat_result(1) [OF c es(1) r e])
next
  fix w2 d
  have "brings view (if d then fs_remove_dir fs (abs_path (cs @ es)) True True else fs_remove_file fs (abs_path (cs @ es)) True)
      w2 (update_at es whiteout)"
    using brings_remove [OF c es(1), of w2] by (simp add: whiteout_def [abs_def])
  then show "brings view ((if d then fs_remove_dir fs (abs_path (cs @ es)) True True else fs_remove_file fs (abs_path (cs @ es)) True) \<bind>
      case_option (status_line fs h ''> Done. processed whiteout %q'' [AStr (abs_path (cs @ es))] \<bind> (\<lambda>_. ret None))
        (\<lambda>e. if d then sync_failed fs h ''remove dir'' ''remove dir'' (abs_path (cs @ es)) e
              else sync_failed fs h ''remove file'' ''remove file'' (abs_path (cs @ es)) e)) w2 (update_at es whiteout)"
    by (rule brings_last) (simp_all add: brings_status_line [OF c])
qed (simp add: brings_fails)

lemma new_file_replaces: "update_at es (new_file c) (update_at es whiteout t) = update_at es (new_file c) t"
  by (subst update_at_compose) (simp_all add: new_file_def [abs_def])

lemma syncFile_brings:
  assumes c: "irods_contract fs cs view content attr" and m: "upper_at s us" "maps_root (sy_irodsFsVPathManager s) cs"
    and es: "plain es" "es \<noteq> []"
  shows "brings view (syncFile fs s h (abs_path (us @ es))) w (update_at es (new_file (content (abs_path (us @ es)))))"
  unfolding syncFile_def getIRODSPath_below [OF m es] sum.case
proof (simp, intro brings_keep [OF keeps_status_line [OF c]] brings_keep [OF keeps_stat [OF c]] brings_sum brings_if)
  have up: "brings view (upload_file fs h (abs_path (us @ es)) (abs_path (cs @ es))) w
      (update_at es (new_file (content (abs_path (us @ es)))))" for w
    using brings_upload_file [OF c es(1)] by (simp add: new_file_def [abs_def])
  show "brings view (fs_remove_dir fs (abs_path (cs @ es)) True True \<bind>
      case_option (upload_file fs h (abs_path (us @ es)) (abs_path (cs @ es)))
        (sync_failed fs h ''remove dir'' ''remove dir'' (abs_path (cs @ es)))) w2
      (update_at es (new_file (content (abs_path (us @ es)))))" for w2
  proof (rule brings_step [where h = "update_at es (new_file (content (abs_path (us @ es))))"])
    show "brings view (fs_remove_dir fs (abs_path (cs @ es)) True True) w2 (update_at es whiteout)"
      using brings_remove [OF c es(1), of w2] by (simp add: whiteout_def [abs_def])
  qed (simp_all add: up new_file_replaces)
  show "brings view (upload_file fs h (abs_path (us @ es)) (abs_path (cs @ es))) w
      (update_at es (new_file (content (abs_path (us @ es)))))"
    "brings view (upload_file fs h (abs_path (us @ es)) (abs_path (cs @ es))) w
      (update_at es (new_file (content (abs_path (us @ es)))))" for w
    by (rule up)+
qed (simp_all add: brings_fails)

text \<open>Removing every entry of a collection empties it.\<close>

definition remove_names :: "string list \<Rightarrow> string list \<Rightarrow> 'c itree option \<Rightarrow> 'c itree option" where
  "remove_names es = fold (\<lambda>n. update_at (es @ [n]) whiteout)"

lemma remove_names_at: "remove_names es ns t = update_at es (fold (\<lambda>n. set_child n None) ns) t"
proof (induction ns arbitrary: t)
  case Nil
  show ?case by (simp add: remove_names_def update_at_same)
next
  case (Cons n ns)
  have "update_at [n] whiteout = (set_child n None :: 'a itree option \<Rightarrow> _)" by (rule ext) (simp add: whiteout_def)
  then have n: "update_at (es @ [n]) whiteout u = update_at es (set_child n None) u" for u :: "'a itree option"
    by (simp only: update_at_append)
  have f: "fold (\<lambda>n. set_child n None) ns (Some t) \<noteq> None" for t :: "'a itree"
  proof (induction ns arbitrary: t)
    case (Cons n ns)
    then show ?case using set_child_Some [of n None t] by (cases "set_child n None (Some t)") auto
  qed simp
  have "remove_names es (n # ns) t = remove_names es ns (update_at es (set_child n None) t)"
    by (simp add: remove_names_def n)
  also have "\<dots> = update_at es (\<lambda>t. fold (\<lambda>n. set_child n None) ns (set_child n None t)) t"
    unfolding Cons.IH by (rule update_at_compose) (rule f)
  finally show ?case by (simp add: comp_def)
qed

lemma remove_names_all:
  assumes "lookup_at es t = Some (Coll m)" and "set ns = dom m"
  shows "remove_names es ns t = update_at es (new_dir True) t"
proof -
  have "fold (\<lambda>n. set_child n None) ns (Some (Coll m)) = Some (Coll (m |` (- set ns)))" for m :: "string \<Rightarrow> 'a itree option"
    by (induction ns arbitrary: m) (auto simp: restrict_map_def fun_eq_iff)
  moreover have "m |` (- dom m) = Map.empty" by (auto simp: restrict_map_def)
  ultimately show ?thesis
    using assms unfolding remove_names_at by (intro update_at_cong) (simp add: new_dir_def)
qed

lemma clear_entries_brings:
  assumes c: "irods_contract fs cs view content attr" and es: "plain es"
    and "map fst entries = map (\<lambda>n. abs_path (cs @ es @ [n])) ns" and "plain ns"
  shows "brings view (clear_entries fs entries) w (remove_names es ns)"
  using assms(3,4)
proof (induction entries arbitrary: ns w)
  case Nil
  then show ?case by (simp add: brings_ret remove_names_def)
next
  case (Cons entry entries)
  then obtain n ns' where ns: "ns = n # ns'" by (cases ns) auto
  obtain d where entry: "entry = (abs_path (cs @ es @ [n]), d)" using Cons.prems(1) ns by (cases entry) auto
  have p: "plain (es @ [n])" using es Cons.prems(2) ns by auto
  show ?case
    unfolding entry clear_entries.simps
  proof (rule brings_step [where h = "remove_names es ns'"])
    show "brings view (if d then fs_remove_dir fs (abs_path (cs @ es @ [n])) True True
        else fs_remove_file fs (abs_path (cs @ es @ [n])) True) w (update_at (es @ [n]) whiteout)"
      using brings_remove [OF c p, of w] by (simp add: whiteout_def [abs_def])
    show "remove_names es ns' (update_at (es @ [n]) whiteout (view w)) = remove_names es ns (view w)"
      by (simp add: ns remove_names_def)
  qed (use Cons ns in simp_all)
qed

lemma clearDirEntries_brings:
  assumes c: "irods_contract fs cs view content attr" and es: "plain es" and m: "lookup_at es (view w) = Some (Coll m)"
  shows "brings view (clearDirEntries fs (abs_path (cs @ es))) w (update_at es (new_dir True))"
  unfolding clearDirEntries_def
proof (intro brings_keep [OF keeps_list [OF c]] brings_sum)
  fix r w1 entries
  assume r: "r = fst (run_state (fs_list fs (abs_path (cs @ es))) w)" "r = Inr entries" and w1: "view w1 = view w"
  have "list_ok fs cs view" using c by (simp add: irods_contract_def)
  then obtain ns where ns: "map fst entries = map (\<lambda>n. abs_path (cs @ es @ [n])) ns" "plain ns" "set ns = dom m"
    using es r m unfolding list_ok_def by (metis children.simps(1))
  have "remove_names es ns (view w1) = update_at es (new_dir True) (view w1)"
    by (rule remove_names_all) (simp_all add: w1 m ns(3))
  with clear_entries_brings [OF c es ns(1,2), of w1] show "brings view (clear_entries fs entries) w1 (update_at es (new_dir True))"
    by (simp add: brings_def)
qed (simp add: brings_fails)

lemma made_dir: "update_at es as_coll (update_at es whiteout t) = update_at es (new_dir opq) t"
  if "lookup_at es t = Some (Data c)"
proof -
  have "update_at es as_coll (update_at es whiteout t) = update_at es (\<lambda>t. as_coll (whiteout t)) t"
    by (rule update_at_compose) (simp add: as_coll_def)
  also have "\<dots> = update_at es (new_dir opq) t"
    by (rule update_at_cong) (simp add: that as_coll_def whiteout_def new_dir_def)
  finally show ?thesis .
qed

lemma syncDir_entry_brings:
  assumes c: "irods_contract fs cs view content attr" and es: "plain es"
    and r: "r = fst (run_state (fs_stat fs (abs_path (cs @ es))) w0)" and w: "view w = view w0"
  shows "brings view (syncDir_entry fs h (abs_path (cs @ es)) opq r) w (update_at es (new_dir opq))"
  unfolding syncDir_entry_def
proof (intro brings_sum brings_if)
  have make: "brings view (make_synced_dir fs h (abs_path (cs @ es))) w (update_at es as_coll)" for w
    by (rule brings_make_synced_dir [OF c es])
  {
    fix e assume "r = Inl e" "fs_not_found fs e"
    then have "update_at es as_coll (view w) = update_at es (new_dir opq) (view w)"
      using stat_result(1) [OF c es r] w by (intro update_at_cong) (simp add: as_coll_def new_dir_def)
    with make [of w] show "brings view (make_synced_dir fs h (abs_path (cs @ es))) w (update_at es (new_dir opq))"
      by (simp add: brings_def)
  next
    fix d assume "r = Inr d" "\<not> d"
    with stat_result(2) [OF c es r] w obtain b where b: "lookup_at es (view w) = Some (Data b)"
      by (metis is_coll.elims(3))
    show "brings view (fs_remove_file fs (abs_path (cs @ es)) True \<bind>
        case_option (make_synced_dir fs h (abs_path (cs @ es)))
          (sync_failed fs h ''remove file'' ''remove file'' (abs_path (cs @ es)))) w (update_at es (new_dir opq))"
    proof (rule brings_step [where h = "update_at es as_coll"])
      show "brings view (fs_remove_file fs (abs_path (cs @ es)) True) w (update_at es whiteout)"
        using brings_remove [OF c es, of w] by (simp add: whiteout_def [abs_def])
    qed (simp_all add: make made_dir [OF b])
  next
    fix d assume "r = Inr d" "\<not> \<not> d"
    with stat_result(2) [OF c es r] w obtain m where m: "lookup_at es (view w) = Some (Coll m)"
      by (metis is_coll.elims(2))
    {
      assume opq
      with clearDirEntries_brings [OF c es m]
      show "brings view (clearDirEntries fs (abs_path (cs @ es)) \<bind>
          case_option (ret None) (sync_failed fs h ''clear dir'' ''clear'' (abs_path (cs @ es)))) w (update_at es (new_dir opq))"
        by (intro brings_last) (simp_all add: brings_ret)
    next
      assume "\<not> opq"
      with m show "brings view (ret None) w (update_at es (new_dir opq))"
        by (intro brings_ret update_at_same) (simp add: new_dir_def)
    }
  }
qed (simp add: brings_fails)

lemma syncDir_brings:
  assumes c: "irods_contract fs cs view content attr" and m: "upper_at s us" "maps_root (sy_irodsFsVPathManager s) cs"
    and es: "plain es" "es \<noteq> []"
  shows "brings view (syncDir fs s h (abs_path (us @ es))) w
    (update_at es (new_dir (opaque_value (attr (abs_path (us @ es)) overlayFSOpaqueXAttr))))"
  unfolding syncDir_def getIRODSPath_below [OF m es] sum.case
proof (simp only: abs_path_length if_False, intro brings_keep [OF keeps_status_line [OF c]]
    brings_keep [OF keeps_xattr [OF c]] brings_keep [OF keeps_stat [OF c]])
  have attr: "fst (run_state (fs_xattr fs p n) w) = attr p n" for p n w
    using c by (simp add: irods_contract_def reads_ok_def)
  fix w1 w2 w3 w4 r x
  assume "x = fst (run_state (fs_xattr fs (abs_path (us @ es)) overlayFSOpaqueXAttr) w1)"
    "r = fst (run_state (fs_stat fs (abs_path (cs @ es))) w3)" "view w4 = view w3"
  then show "brings view (syncDir_entry fs h (abs_path (cs @ es)) (opaque_value x) r) w4
      (update_at es (new_dir (opaque_value (attr (abs_path (us @ es)) overlayFSOpaqueXAttr))))"
    using syncDir_entry_brings [OF c es(1)] by (simp add: attr)
qed

end
