(* ===== verification/Parallel_Run.thy ===== *)
theory Parallel_Run
  imports Parallel_Jobs Prelude "HOL-Library.Multiset"
begin

text \<open>
  The job manager with what the tasks do: a state of the manager beside a state of type \<^typ>\<open>'w\<close> on which
  the tasks run. A task runs in one step, between its goroutine's start and its end. What the manager
  promises for its users is shown here: in a run without overlapping updates of the thread count, the
  tasks run in the order they were scheduled, except that those between two barriers are shuffled.
\<close>

section \<open>Running tasks\<close>

definition job_code :: "('a \<Rightarrow> ('w, go_error option) state) \<Rightarrow> 'a pjob \<Rightarrow> ('w, go_error option) state" where
  "job_code code j =
     (if job_barrier j then ret None else (case job_task j of None \<Rightarrow> ret None | Some t \<Rightarrow> code t))"

definition after_task :: "go_error option \<Rightarrow> worker_pc" where
  "after_task err = (case err of None \<Rightarrow> W_Sub | Some e \<Rightarrow> W_Mark e)"

text \<open>The jobs whose goroutine is started and has not run its task.\<close>

definition waiting_jobs :: "('a pjob \<times> worker_pc) list \<Rightarrow> 'a pjob list" where
  "waiting_jobs ws = map fst (filter (\<lambda>w. snd w = W_Run) ws)"

abbreviation waiting :: "'a pjm \<Rightarrow> 'a pjob list" where
  "waiting s \<equiv> waiting_jobs (jm_workers s)"

inductive run_step :: "('a \<Rightarrow> ('w, go_error option) state) \<Rightarrow> 'a pjm \<times> 'w \<Rightarrow> 'a pjm \<times> 'w \<Rightarrow> bool"
  for code where
  run_task: "\<not> jm_panicked s \<Longrightarrow> jm_workers s = us @ (j, W_Run) # vs \<Longrightarrow> run_state (job_code code j) w = (err, w') \<Longrightarrow>
    run_step code (s, w) (s\<lparr>jm_workers := us @ (j, after_task err) # vs\<rparr>, w')"
| run_other: "pstep s s' \<Longrightarrow> mset (waiting s) \<subseteq># mset (waiting s') \<Longrightarrow> run_step code (s, w) (s', w)"

definition safe_run :: "('a \<Rightarrow> ('w, go_error option) state) \<Rightarrow> 'a pjm \<times> 'w \<Rightarrow> 'a pjm \<times> 'w \<Rightarrow> bool" where
  "safe_run code x y \<longleftrightarrow> run_step code x y \<and> race_free (fst y)"

lemma waiting_append [simp]: "waiting_jobs (us @ vs) = waiting_jobs us @ waiting_jobs vs"
  by (simp add: waiting_jobs_def)

lemma waiting_Cons [simp]: "waiting_jobs ((j, pc) # vs) = (if pc = W_Run then j # waiting_jobs vs else waiting_jobs vs)"
  by (simp add: waiting_jobs_def)

lemma waiting_Nil [simp]: "waiting_jobs [] = []"
  by (simp add: waiting_jobs_def)

lemma after_task_not_Run [simp]: "after_task err \<noteq> W_Run"
  by (simp add: after_task_def split: option.splits)

text \<open>Without what the tasks do, these are steps of the manager.\<close>

lemma run_step_pstep: "run_step code (s, w) (s', w') \<Longrightarrow> pstep s s'"
proof (induction "(s, w)" "(s', w')" rule: run_step.induct)
  case (run_task us j vs err)
  then show ?case
    by (cases err)
      (auto simp: pstep_def after_task_def job_code_def split: if_splits
        intro: worker_step.task_ok worker_step.task_failed)
qed

lemma safe_run_step: "safe_run code x y \<Longrightarrow> safe_step (fst x) (fst y)"
  by (cases x; cases y) (auto simp: safe_run_def safe_step_def dest: run_step_pstep)

lemma safe_runs: "(safe_run code)\<^sup>*\<^sup>* x y \<Longrightarrow> safe_step\<^sup>*\<^sup>* (fst x) (fst y)"
  by (induction rule: rtranclp_induct) (auto dest: safe_run_step)

text \<open>A step of the manager that runs a task has its counterpart; so no run with tasks gets stuck.\<close>

lemma pstep_waiting:
  assumes "pstep s s'"
  shows "mset (waiting s) \<subseteq># mset (waiting s') \<or> (\<exists>us j vs. jm_workers s = us @ (j, W_Run) # vs)"
  using assms unfolding pstep_def
  by (elim conjE disjE; elim pstep_cases) (auto simp: job_done_def)

lemma safe_run_progress:
  assumes "pjm_inv cmds s" and "\<not> jm_panicked s" and "\<not> finished s"
  shows "\<exists>y. safe_run code (s, w) y"
proof -
  obtain s' where s': "safe_step s s'" using progress [OF assms] by blast
  then have p: "pstep s s'" "race_free s'" by (simp_all add: safe_step_def)
  from pstep_waiting [OF p(1)] show ?thesis
  proof
    assume "mset (waiting s) \<subseteq># mset (waiting s')"
    with p show ?thesis by (auto simp: safe_run_def intro!: exI [of _ "(s', w)"] run_step.run_other)
  next
    assume "\<exists>us j vs. jm_workers s = us @ (j, W_Run) # vs"
    then obtain us j vs where ws: "jm_workers s = us @ (j, W_Run) # vs" by blast
    obtain err w' where r: "run_state (job_code code j) w = (err, w')" by fastforce
    have "race_free s" using assms(1) by (simp add: pjm_inv_def)
    then have "race_free (s\<lparr>jm_workers := us @ (j, after_task err) # vs\<rparr>)"
      using ws by (simp add: race_free_def reads_def after_task_def split: option.splits)
    with run_step.run_task [OF assms(2) ws r] show ?thesis by (fastforce simp: safe_run_def)
  qed
qed

lemma safe_runs_end:
  assumes "pjm_inv cmds s"
  shows "\<exists>t w'. (safe_run code)\<^sup>*\<^sup>* (s, w) (t, w') \<and> pjm_inv cmds t \<and> (jm_panicked t \<or> finished t)"
  using assms
proof (induction "work s" arbitrary: s w rule: less_induct)
  case less
  show ?case
  proof (cases "jm_panicked s \<or> finished s")
    case True
    with less.prems show ?thesis by blast
  next
    case False
    with safe_run_progress [OF less.prems] obtain u v where y: "safe_run code (s, w) (u, v)" by fastforce
    then have u: "safe_step s u" using safe_run_step by fastforce
    then have "work u < work s" by (simp add: safe_step_def work_less)
    from less.hyps [OF this pjm_inv_step [OF u less.prems]] y show ?thesis
      by (meson converse_rtranclp_into_rtranclp)
  qed
qed


section \<open>The order of the tasks\<close>

definition run_jobs :: "('a \<Rightarrow> ('w, go_error option) state) \<Rightarrow> 'a pjob list \<Rightarrow> 'w \<Rightarrow> 'w" where
  "run_jobs code = fold (\<lambda>j w. snd (run_state (job_code code j) w))"

text \<open>The same jobs, shuffled between barriers; a barrier comes first in its part.\<close>

inductive shuffled :: "'a pjob list \<Rightarrow> 'a pjob list \<Rightarrow> bool" where
  shuffled_Nil: "shuffled [] []"
| shuffled_append: "shuffled xs ys \<Longrightarrow> mset bs = mset cs \<Longrightarrow> list_all (\<lambda>j. \<not> job_barrier j) (tl bs) \<Longrightarrow>
    shuffled (xs @ bs) (ys @ cs)"

definition ran :: "('a \<Rightarrow> ('w, go_error option) state) \<Rightarrow> 'w \<Rightarrow> 'a pjm \<Rightarrow> 'w \<Rightarrow> bool" where
  "ran code w0 s w \<longleftrightarrow> (\<exists>before done now.
     rev (jm_started s) = before @ rev (since_barrier (jm_started s)) \<and> shuffled before done \<and>
     w = run_jobs code (done @ now) w0 \<and> mset now + mset (waiting s) = mset (since_barrier (jm_started s)))"

lemma ranI:
  "rev (jm_started s) = before @ rev (since_barrier (jm_started s)) \<Longrightarrow> shuffled before before' \<Longrightarrow>
   w = run_jobs code (before' @ now) w0 \<Longrightarrow> mset now + mset (waiting s) = mset (since_barrier (jm_started s)) \<Longrightarrow>
   ran code w0 s w"
  unfolding ran_def by blast

lemma since_barrier_tl: "list_all (\<lambda>j. \<not> job_barrier j) (tl (rev (since_barrier js)))"
proof (induction js)
  case (Cons j js)
  then show ?case by (cases "rev (since_barrier js)") auto
qed simp

lemma waiting_running: "running_jobs ws = [] \<Longrightarrow> waiting_jobs ws = []"
  by (induction ws rule: running_jobs.induct) (auto simp: active_def split: if_splits)

lemma ran_task:
  assumes "ran code w0 s w" and "jm_workers s = us @ (j, W_Run) # vs" and "run_state (job_code code j) w = (err, w')"
  shows "ran code w0 (s\<lparr>jm_workers := us @ (j, after_task err) # vs\<rparr>) w'"
proof -
  from assms(1) obtain before "done" now where r: "rev (jm_started s) = before @ rev (since_barrier (jm_started s))"
    "shuffled before done" "w = run_jobs code (done @ now) w0"
    "mset now + mset (waiting s) = mset (since_barrier (jm_started s))" by (auto simp: ran_def)
  have "w' = run_jobs code (done @ now @ [j]) w0" using r(3) assms(3) by (simp add: run_jobs_def)
  moreover have "mset (now @ [j]) + mset (waiting_jobs (us @ (j, after_task err) # vs)) =
      mset (since_barrier (jm_started s))"
    using r(4) assms(2) by simp
  ultimately show ?thesis using r(1,2) unfolding ran_def by fastforce
qed

lemma ran_start:
  assumes "ran code w0 s w" and "job_barrier j \<Longrightarrow> running s = []"
    and "jm_started s' = j # jm_started s" and "jm_workers s' = (j, W_Run) # jm_workers s"
  shows "ran code w0 s' w"
proof -
  from assms(1) obtain before "done" now where r: "rev (jm_started s) = before @ rev (since_barrier (jm_started s))"
    "shuffled before done" "w = run_jobs code (done @ now) w0"
    "mset now + mset (waiting s) = mset (since_barrier (jm_started s))" by (auto simp: ran_def)
  show ?thesis
  proof (cases "job_barrier j")
    case True
    then have w: "waiting s = []" using assms(2) waiting_running by blast
    have "shuffled (before @ rev (since_barrier (jm_started s))) (done @ now)"
      by (rule shuffled.shuffled_append [OF r(2)]) (use r(4) w since_barrier_tl in simp_all)
    with r(1,3) w True assms(3,4) show ?thesis
      by (intro ranI [of _ "before @ rev (since_barrier (jm_started s))" "done @ now" _ _ "[]"]) simp_all
  next
    case False
    with r assms(3,4) show ?thesis by (intro ranI [of _ before "done" _ _ now]) simp_all
  qed
qed

text \<open>Every other step leaves the started and the waiting jobs as they are.\<close>

lemma pstep_started:
  assumes "pstep s s'" and "mset (waiting s) \<subseteq># mset (waiting s')"
  shows "jm_started s' = jm_started s \<and> mset (waiting s') = mset (waiting s) \<or>
    (\<exists>j v. jm_runner s = R_Write j v \<and> jm_started s' = j # jm_started s \<and> jm_workers s' = (j, W_Run) # jm_workers s)"
  using assms unfolding pstep_def
  by (elim conjE disjE; elim pstep_cases) (auto simp: job_done_def)

lemma barrier_clear:
  assumes "pjm_inv cmds s" and "jm_runner s = R_Write j v" and "job_barrier j"
  shows "running s = []"
proof (rule load_zero)
  show "list_all (job_fits (jm_maxThreads s)) (map fst (jm_workers s))"
    using assms(1) by (simp add: pjm_inv_def fitting_def)
  show "load s = 0" using assms by (simp add: pjm_inv_def accurate_def bounded_def room_def)
qed

lemma ran_step:
  assumes "run_step code (s, w) (s', w')" and "pjm_inv cmds s" and "ran code w0 s w"
  shows "ran code w0 s' w'"
  using assms(1)
proof cases
  case (run_task us j vs err)
  then show ?thesis using ran_task [OF assms(3)] by simp
next
  case run_other
  from pstep_started [OF run_other(2,3)] show ?thesis
  proof (elim disjE exE conjE)
    assume "jm_started s' = jm_started s" "mset (waiting s') = mset (waiting s)"
    with assms(3) run_other show ?thesis by (simp add: ran_def)
  next
    fix j v assume "jm_runner s = R_Write j v" "jm_started s' = j # jm_started s"
      "jm_workers s' = (j, W_Run) # jm_workers s"
    with ran_start [OF assms(3)] barrier_clear [OF assms(2)] run_other(1) show ?thesis by blast
  qed
qed

lemma ran_reachable:
  assumes "(safe_run code)\<^sup>*\<^sup>* (NewParallelJobManager m cmds, w0) (s, w)" and "0 \<le> m" and "list_all (cmd_fits m) cmds"
  shows "pjm_inv cmds s \<and> ran code w0 s w"
  using assms(1)
proof (induction "(s, w)" arbitrary: s w rule: rtranclp_induct)
  case base
  have "ran code w0 (NewParallelJobManager m cmds) w0"
    by (auto simp: ran_def NewParallelJobManager_def run_jobs_def intro: shuffled_Nil)
  with pjm_inv_init [OF assms(2,3)] base show ?case by simp
next
  case (step y)
  obtain u v where y: "y = (u, v)" by (cases y)
  with step have i: "pjm_inv cmds u" "ran code w0 u v" by auto
  from step(2) y have "run_step code (u, v) (s, w)" and s: "safe_step u s"
    using safe_run_step [of code y "(s, w)"] by (auto simp: safe_run_def)
  with i show ?case by (auto intro: ran_step pjm_inv_step [OF s])
qed

text \<open>When the wait has returned, without an error, all jobs have run.\<close>

lemma ran_all:
  assumes "pjm_inv cmds s" and "ran code w0 s w" and "jm_sched s = S_Returned r" and "\<not> jm_panicked s"
    and "jm_lastError s = None"
  shows "\<exists>js. shuffled (jobs_from 0 cmds) js \<and> w = run_jobs code js w0"
proof -
  from assms(2) obtain before "done" now where r: "rev (jm_started s) = before @ rev (since_barrier (jm_started s))"
    "shuffled before done" "w = run_jobs code (done @ now) w0"
    "mset now + mset (waiting s) = mset (since_barrier (jm_started s))" by (auto simp: ran_def)
  from returned_all [OF assms(1,3-5)] have s: "rev (jm_started s) = jobs_from 0 cmds" and "waiting s = []"
    by (auto simp: waiting_jobs_def list_all_iff filter_empty_conv)
  then have "shuffled (before @ rev (since_barrier (jm_started s))) (done @ now)"
    by (intro shuffled.shuffled_append r(2)) (use r(4) since_barrier_tl in simp_all)
  with r(1,3) s show ?thesis by auto
qed

text \<open>Where no task returns an error, the manager has none.\<close>

definition unfailed :: "'a pjm \<Rightarrow> bool" where
  "unfailed s \<longleftrightarrow> jm_lastError s = None \<and> list_all (\<lambda>(j, pc). \<forall>e. pc \<noteq> W_Mark e) (jm_workers s)"

lemma unfailed_step:
  assumes "run_step code (s, w) (s', w')" and "unfailed s" and "\<And>t w. fst (run_state (code t) w) = None"
  shows "unfailed s'"
  using assms(1)
proof cases
  case (run_task us j vs err)
  have "err = None"
    using run_task(4) assms(3) by (auto simp: job_code_def split: if_splits option.splits) (metis fst_conv)
  with run_task assms(2) show ?thesis by (auto simp: unfailed_def after_task_def)
next
  case run_other
  have "sched_step s s' \<or> runner_step s s' \<or> worker_step s s'" using run_other(2) by (simp add: pstep_def)
  then show ?thesis
  proof (elim disjE)
    assume "worker_step s s'"
    then show ?thesis using assms(2) run_other(3) by cases (auto simp: unfailed_def job_done_def)
  qed (use assms(2) in \<open>auto simp: unfailed_def job_done_def elim!: sched_step.cases runner_step.cases\<close>)
qed

lemma unfailed_reachable:
  assumes "(safe_run code)\<^sup>*\<^sup>* (NewParallelJobManager m cmds, w0) (s, w)" and "\<And>t w. fst (run_state (code t) w) = None"
  shows "unfailed s"
  using assms(1)
proof (induction "(s, w)" arbitrary: s w rule: rtranclp_induct)
  case (step y)
  then show ?case using unfailed_step [OF _ _ assms(2)] by (cases y) (auto simp: safe_run_def)
qed (simp add: unfailed_def NewParallelJobManager_def)


section \<open>The manager as a runner of tasks\<close>

fun cmd_tasks :: "'a cmd list \<Rightarrow> 'a list" where
  "cmd_tasks [] = []"
| "cmd_tasks (Schedule l t n # cs) = t # cmd_tasks cs"
| "cmd_tasks (ScheduleBarrier l # cs) = cmd_tasks cs"

fun is_barrier :: "'a cmd \<Rightarrow> bool" where
  "is_barrier (Schedule l t n) = False" | "is_barrier (ScheduleBarrier l) = True"

lemma cmd_tasks_append [simp]: "cmd_tasks (as @ bs) = cmd_tasks as @ cmd_tasks bs"
  by (induction as rule: cmd_tasks.induct) auto

lemma jobs_from_append: "jobs_from i (as @ bs) = jobs_from i as @ jobs_from (i + int (length as)) bs"
  by (induction as arbitrary: i) (auto simp: algebra_simps)

lemma length_jobs_from [simp]: "length (jobs_from i cs) = length cs"
  by (induction cs arbitrary: i) auto

lemma jobs_from_split:
  assumes "jobs_from i cs = xs @ ys"
  shows "xs = jobs_from i (take (length xs) cs)"
    and "ys = jobs_from (i + int (length xs)) (drop (length xs) cs)"
proof -
  have len: "length xs \<le> length cs" using arg_cong [OF assms, of length] by simp
  have "xs @ ys = jobs_from i (take (length xs) cs) @ jobs_from (i + int (length xs)) (drop (length xs) cs)"
    using assms jobs_from_append [of i "take (length xs) cs" "drop (length xs) cs"] len by (simp add: min_def)
  then show "xs = jobs_from i (take (length xs) cs)" "ys = jobs_from (i + int (length xs)) (drop (length xs) cs)"
    using len by (simp_all add: append_eq_append_conv)
qed

lemma barrier_scheduled [simp]: "job_barrier (scheduled_job i c) \<longleftrightarrow> is_barrier c"
  by (cases c) (auto simp: newParallelJob_def)

lemma barriers_from: "list_all (\<lambda>j. \<not> job_barrier j) (jobs_from i cs) \<longleftrightarrow> list_all (\<lambda>c. \<not> is_barrier c) cs"
  by (induction cs arbitrary: i) auto

text \<open>The effect of jobs, where that of a task is given.\<close>

definition job_effect :: "('a \<Rightarrow> 'v \<Rightarrow> 'v) \<Rightarrow> 'a pjob \<Rightarrow> 'v \<Rightarrow> 'v" where
  "job_effect eff j = (if job_barrier j then id else (case job_task j of None \<Rightarrow> id | Some t \<Rightarrow> eff t))"

lemma fold_job_effect: "fold (job_effect eff) (jobs_from i cs) v = fold eff (cmd_tasks cs) v"
proof (induction cs arbitrary: i v)
  case (Cons c cs)
  then show ?case by (cases c) (auto simp: job_effect_def newParallelJob_def)
qed simp

definition batches_commute :: "('a \<Rightarrow> 'v \<Rightarrow> 'v) \<Rightarrow> 'a cmd list \<Rightarrow> bool" where
  "batches_commute eff cmds \<longleftrightarrow> (\<forall>pre bs post. cmds = pre @ bs @ post \<and> list_all (\<lambda>c. \<not> is_barrier c) (tl bs) \<longrightarrow>
     (\<forall>t \<in> set (cmd_tasks bs). \<forall>u \<in> set (cmd_tasks bs). eff t \<circ> eff u = eff u \<circ> eff t))"

lemma job_effect_tasks:
  "j \<in> set (jobs_from i cs) \<Longrightarrow> job_effect eff j = id \<or> (\<exists>t \<in> set (cmd_tasks cs). job_effect eff j = eff t)"
proof (induction cs arbitrary: i)
  case (Cons c cs)
  then show ?case by (cases c) (fastforce simp: job_effect_def newParallelJob_def)+
qed simp

lemma since_barrier_split: "\<exists>before. rev js = before @ rev (since_barrier js)"
proof (induction js)
  case (Cons j js)
  then show ?case by auto
qed simp

text \<open>A part of the jobs comes from a part of the calls.\<close>

lemma batch_of_jobs:
  assumes "jobs_from i cmds = xs @ bs @ zs" and "list_all (\<lambda>j. \<not> job_barrier j) (tl bs)"
  shows "\<exists>pre cs post k. cmds = pre @ cs @ post \<and> bs = jobs_from k cs \<and> list_all (\<lambda>c. \<not> is_barrier c) (tl cs)"
proof -
  let ?as = "drop (length xs) cmds"
  have split: "bs @ zs = jobs_from (i + int (length xs)) ?as"
    using jobs_from_split(2) [of i cmds xs "bs @ zs"] assms(1) by simp
  let ?bs = "take (length bs) ?as"
  have bs: "bs = jobs_from (i + int (length xs)) ?bs" using jobs_from_split(1) [OF split [symmetric]] .
  have nb: "list_all (\<lambda>c. \<not> is_barrier c) (tl ?bs)"
  proof (cases ?bs)
    case Nil
    then show ?thesis by (simp only: list.sel(2) list.pred_inject(1))
  next
    case (Cons c rest)
    with bs have "tl bs = jobs_from (i + int (length xs) + 1) rest" by (metis jobs_from.simps(2) list.sel(3))
    with assms(2) Cons show ?thesis by (simp add: barriers_from)
  qed
  have "cmds = take (length xs) cmds @ ?bs @ drop (length bs) ?as"
    by (simp only: append_take_drop_id)
  with bs nb show ?thesis by blast
qed

lemma shuffled_effect:
  assumes "shuffled xs ys" and "jobs_from 0 cmds = xs @ zs" and "batches_commute eff cmds"
  shows "fold (job_effect eff) ys = fold (job_effect eff) xs"
  using assms
proof (induction arbitrary: zs rule: shuffled.induct)
  case (shuffled_append xs ys bs cs)
  from batch_of_jobs [of 0 cmds xs bs zs] shuffled_append.prems(1) shuffled_append.hyps(3)
  obtain pre bcs post k where b: "cmds = pre @ bcs @ post" "bs = jobs_from k bcs" "list_all (\<lambda>c. \<not> is_barrier c) (tl bcs)"
    by auto
  with shuffled_append.prems(2) have comm: "eff t \<circ> eff u = eff u \<circ> eff t"
    if "t \<in> set (cmd_tasks bcs)" "u \<in> set (cmd_tasks bcs)" for t u
    using that unfolding batches_commute_def by blast
  have "job_effect eff i \<circ> job_effect eff j = job_effect eff j \<circ> job_effect eff i" if "i \<in> set bs" "j \<in> set bs" for i j
    using job_effect_tasks [of i k bcs eff] job_effect_tasks [of j k bcs eff] that b(2) comm by (metis comp_id id_comp)
  then have "fold (job_effect eff) bs = fold (job_effect eff) cs"
    using shuffled_append.hyps(2) by (intro fold_multiset_equiv) auto
  with shuffled_append.IH [of "bs @ zs"] shuffled_append.prems show ?case by simp
qed simp

text \<open>The jobs that run at one time come from calls between two barriers.\<close>

lemma running_batch:
  assumes "pjm_inv cmds s" and "jm_lastError s = None"
  shows "\<exists>pre bs post k. cmds = pre @ bs @ post \<and> list_all (\<lambda>c. \<not> is_barrier c) (tl bs) \<and>
    set (running s) \<subseteq> set (jobs_from k bs)"
proof -
  obtain before where b: "rev (jm_started s) = before @ rev (since_barrier (jm_started s))"
    using since_barrier_split by blast
  obtain rest where "rev (jm_started s) @ rest = jobs_from 0 cmds"
    using assms by (auto simp: pjm_inv_def in_order_def)
  with b have "jobs_from 0 cmds = before @ rev (since_barrier (jm_started s)) @ rest" by simp
  from batch_of_jobs [OF this since_barrier_tl] obtain pre bs post k where
    "cmds = pre @ bs @ post" "rev (since_barrier (jm_started s)) = jobs_from k bs" "list_all (\<lambda>c. \<not> is_barrier c) (tl bs)"
    by blast
  moreover have "set (running s) \<subseteq> set (since_barrier (jm_started s))"
    using assms(1) by (auto simp: pjm_inv_def separated_def dest: list_emb_set)
  ultimately show ?thesis by (metis set_rev)
qed

text \<open>
  What a client of the job manager relies on: where its tasks return no error, a run that has returned
  has run the jobs in an order shuffled between barriers. So if the effects of the tasks between two
  barriers commute, the run has the effect of the tasks one after the other, as they were scheduled.
\<close>

locale task_runner =
  fixes runs :: "('a \<Rightarrow> ('w, go_error option) state) \<Rightarrow> 'a cmd list \<Rightarrow> 'w \<Rightarrow> 'w \<Rightarrow> bool"
  assumes runs_shuffled: "\<forall>t w. fst (run_state (code t) w) = None \<Longrightarrow> runs code cmds w w' \<Longrightarrow>
    \<exists>js. shuffled (jobs_from 0 cmds) js \<and> w' = run_jobs code js w"
begin

lemma runs_effect:
  assumes code: "\<forall>t w. fst (run_state (code t) w) = None" and "runs code cmds w w'"
    and comm: "batches_commute eff cmds" and "ok w'"
    and step: "\<And>t w. t \<in> set (cmd_tasks cmds) \<Longrightarrow> ok (snd (run_state (code t) w)) \<Longrightarrow>
      ok w \<and> view (snd (run_state (code t) w)) = eff t (view w)"
  shows "view w' = fold eff (cmd_tasks cmds) (view w)"
proof -
  obtain js where js: "shuffled (jobs_from 0 cmds) js" "w' = run_jobs code js w"
    using runs_shuffled [OF code assms(2)] by blast
  have "mset xs = mset ys" if "shuffled xs ys" for xs ys :: "'a pjob list"
    using that by induction auto
  with js(1) have set: "set js = set (jobs_from 0 cmds)" using mset_eq_setD by blast
  have task: "job_task j = Some t \<Longrightarrow> \<not> job_barrier j \<Longrightarrow> j \<in> set (jobs_from i cs) \<Longrightarrow> t \<in> set (cmd_tasks cs)" for j t i cs
  proof (induction cs arbitrary: i)
    case (Cons c cs)
    then show ?case by (cases c) (auto simp: newParallelJob_def)
  qed simp
  have one: "ok w \<and> view (snd (run_state (job_code code j) w)) = job_effect eff j (view w)"
    if "j \<in> set (jobs_from 0 cmds)" "ok (snd (run_state (job_code code j) w))" for j w
    using that step task [of j _ 0 cmds] by (auto simp: job_code_def job_effect_def split: option.splits if_splits)
  have "ok w \<and> view (run_jobs code js w) = fold (job_effect eff) js (view w)"
    if "set js \<subseteq> set (jobs_from 0 cmds)" "ok (run_jobs code js w)" for js w
    using that
  proof (induction js arbitrary: w)
    case (Cons j js)
    then have "ok (snd (run_state (job_code code j) w)) \<and>
        view (run_jobs code (j # js) w) = fold (job_effect eff) js (view (snd (run_state (job_code code j) w)))"
      by (simp add: run_jobs_def)
    with one [of j w] Cons.prems show ?case by simp
  qed (simp add: run_jobs_def)
  with js set assms(4) have "view w' = fold (job_effect eff) js (view w)" by blast
  also have "\<dots> = fold (job_effect eff) (jobs_from 0 cmds) (view w)"
    using shuffled_effect [OF js(1) _ comm, of "[]"] by simp
  also have "\<dots> = fold eff (cmd_tasks cmds) (view w)" by (rule fold_job_effect)
  finally show ?thesis .
qed

end

text \<open>The job manager with its limit of threads, in runs without overlapping updates of the count.\<close>

definition manager_runs :: "int \<Rightarrow> ('a \<Rightarrow> ('w, go_error option) state) \<Rightarrow> 'a cmd list \<Rightarrow> 'w \<Rightarrow> 'w \<Rightarrow> bool" where
  "manager_runs m code cmds w w' \<longleftrightarrow> 0 \<le> m \<and> list_all (cmd_fits m) cmds \<and>
     (\<exists>s r. (safe_run code)\<^sup>*\<^sup>* (NewParallelJobManager m cmds, w) (s, w') \<and> \<not> jm_panicked s \<and> jm_sched s = S_Returned r)"

interpretation job_manager: task_runner "manager_runs m"
proof
  fix code :: "'a \<Rightarrow> ('b, go_error option) state" and cmds w w'
  assume code: "\<forall>t w. fst (run_state (code t) w) = None" and "manager_runs m code cmds w w'"
  then obtain s r where s: "0 \<le> m" "list_all (cmd_fits m) cmds"
    "(safe_run code)\<^sup>*\<^sup>* (NewParallelJobManager m cmds, w) (s, w')" "\<not> jm_panicked s" "jm_sched s = S_Returned r"
    by (auto simp: manager_runs_def)
  have "jm_lastError s = None" using unfailed_reachable [OF s(3)] code by (simp add: unfailed_def)
  with ran_reachable [OF s(3,1,2)] s(4,5)
  show "\<exists>js. shuffled (jobs_from 0 cmds) js \<and> w' = run_jobs code js w" by (intro ran_all) simp_all
qed


section \<open>Running a schedule\<close>

text \<open>The interpreter of Parallel_Jobs, with the tasks run.\<close>

definition act_run :: "('a \<Rightarrow> ('w, go_error option) state) \<Rightarrow> actor \<Rightarrow> 'a pjm \<times> 'w \<Rightarrow> ('a pjm \<times> 'w) option" where
  "act_run code a x =
     (case (a, drop (case a of Worker n \<Rightarrow> n | _ \<Rightarrow> 0) (jm_workers (fst x))) of
        (Worker n, (j, W_Run) # vs) \<Rightarrow>
          let (err, w) = run_state (job_code code j) (snd x) in
          Some ((fst x)\<lparr>jm_workers := take n (jm_workers (fst x)) @ (j, after_task err) # vs\<rparr>, w)
      | _ \<Rightarrow> map_option (\<lambda>t. (t, snd x)) (act a (fst x)))"

fun perform_run :: "('a \<Rightarrow> ('w, go_error option) state) \<Rightarrow> actor list \<Rightarrow> 'a pjm \<times> 'w \<Rightarrow> ('a pjm \<times> 'w) option" where
  "perform_run code [] x = Some x"
| "perform_run code (a # as) x =
     (if jm_panicked (fst x) then None
      else (case act_run code a x of None \<Rightarrow> None | Some y \<Rightarrow> if race_free (fst y) then perform_run code as y else None))"

lemma act_waiting:
  assumes "act a s = Some t" and "\<And>n j vs. a = Worker n \<Longrightarrow> drop n (jm_workers s) \<noteq> (j, W_Run) # vs"
  shows "mset (waiting s) \<subseteq># mset (waiting t)"
proof (cases a)
  case Scheduler
  with assms(1) have "sched_step s t" using act_sched by blast
  then show ?thesis by cases auto
next
  case Runner
  with assms(1) have "runner_step s t" using act_runner by blast
  then show ?thesis by cases (auto simp: job_done_def)
next
  case (Worker n)
  show ?thesis
  proof (cases "drop n (jm_workers s)")
    case Nil
    with Worker assms(1) show ?thesis by simp
  next
    case (Cons w vs)
    obtain j pc where w: "w = (j, pc)" by (cases w)
    have ws: "jm_workers s = take n (jm_workers s) @ (j, pc) # vs" using Cons w by (metis append_take_drop_id)
    have "waiting_jobs (jm_workers s) = waiting_jobs (take n (jm_workers s)) @ waiting_jobs ((j, pc) # vs)"
      using ws by (metis waiting_append)
    with Worker Cons w assms show ?thesis
      by (cases pc) (auto simp: Let_def job_done_def split: if_splits)
  qed
qed

lemma act_run_step:
  assumes "act_run code a x = Some y" and "\<not> jm_panicked (fst x)"
  shows "run_step code x y"
proof (cases "\<exists>n j vs. a = Worker n \<and> drop n (jm_workers (fst x)) = (j, W_Run) # vs")
  case True
  then obtain n j vs where a: "a = Worker n" and d: "drop n (jm_workers (fst x)) = (j, W_Run) # vs" by blast
  obtain err w where r: "run_state (job_code code j) (snd x) = (err, w)" by fastforce
  have "jm_workers (fst x) = take n (jm_workers (fst x)) @ (j, W_Run) # vs" using d by (metis append_take_drop_id)
  from run_step.run_task [OF assms(2) this r] assms(1) a d r show ?thesis by (simp add: act_run_def)
next
  case False
  then have "act_run code a x = map_option (\<lambda>t. (t, snd x)) (act a (fst x))"
    by (auto simp: act_run_def split: actor.splits list.splits worker_pc.splits)
  with assms(1) obtain t where t: "act a (fst x) = Some t" "y = (t, snd x)" by auto
  with assms(2) act_pstep act_waiting [OF t(1)] False show ?thesis
    by (metis prod.collapse run_step.run_other)
qed

lemma perform_run_steps: "perform_run code as x = Some y \<Longrightarrow> (safe_run code)\<^sup>*\<^sup>* x y"
proof (induction code as x rule: perform_run.induct)
  case (2 code a as x)
  then obtain u where u: "act_run code a x = Some u" "race_free (fst u)" "perform_run code as u = Some y" "\<not> jm_panicked (fst x)"
    by (auto split: if_splits option.splits)
  then have "safe_run code x u" by (simp add: safe_run_def act_run_step)
  with 2(1) u show ?case by (meson converse_rtranclp_into_rtranclp)
qed simp

lemma safe_run_runs: "(safe_run code)\<^sup>*\<^sup>* x y \<Longrightarrow> (run_step code)\<^sup>*\<^sup>* x y"
  by (induction rule: rtranclp_induct) (auto simp: safe_run_def intro: rtranclp.rtrancl_into_rtrancl)

end
