(* ===== verification/Overlay_Merge.thy ===== *)
theory Overlay_Merge
  imports Overlay_Tasks Parallel_Run
begin

text \<open>
  What the synchronisation of an overlay means: the upper layer merged into the collection, by
  recursion over the layer's tree. The tasks of the walk, in the order of the walk, amount to this merge,
  and the tasks between two barriers lie in one directory, so that their order does not matter.
\<close>

section \<open>The merge\<close>

definition ignored_name :: "string \<Rightarrow> bool" where
  "ignored_name n \<longleftrightarrow> HasPrefix n ''.wh.'' \<and> HasSuffix n ''.opq''"

fun skipped :: "string \<Rightarrow> node \<Rightarrow> bool" where
  "skipped n (NDir r entries) = False" | "skipped n d = ignored_name n"

text \<open>
  \<open>merged opq dat es d t\<close>: the layer's node \<open>d\<close> at the path \<open>es\<close> over what is there, \<open>t\<close>. A whiteout removes, a
  file replaces, a directory is merged, and an opaque one hides what was below it.
\<close>

fun merged :: "(string list \<Rightarrow> bool) \<Rightarrow> (string list \<Rightarrow> 'c) \<Rightarrow> string list \<Rightarrow> node \<Rightarrow> 'c itree option \<Rightarrow> 'c itree option"
  and merged_entries :: "(string list \<Rightarrow> bool) \<Rightarrow> (string list \<Rightarrow> 'c) \<Rightarrow> string list \<Rightarrow> (string \<times> node) list \<Rightarrow>
    (string \<Rightarrow> 'c itree option) \<Rightarrow> string \<Rightarrow> 'c itree option"
where
  "merged opq dat es (NDir r entries) t =
     Some (Coll (merged_entries opq dat es entries (if opq es then Map.empty else children t)))"
| "merged opq dat es NCharDevice t = None"
| "merged opq dat es NFile t = Some (Data (dat es))"
| "merged_entries opq dat es [] m = m"
| "merged_entries opq dat es ((n, d) # entries) m =
     merged_entries opq dat es entries (if skipped n d then m else m(n := merged opq dat (es @ [n]) d (m n)))"

text \<open>The names of a directory are proper and differ.\<close>

fun node_ok :: "node \<Rightarrow> bool" and entries_ok :: "(string \<times> node) list \<Rightarrow> bool" where
  "node_ok (NDir r entries) = entries_ok entries"
| "node_ok NCharDevice = True"
| "node_ok NFile = True"
| "entries_ok [] = True"
| "entries_ok ((n, d) # entries) = (plain_elem n \<and> n \<notin> fst ` set entries \<and> node_ok d \<and> entries_ok entries)"

text \<open>Entry by entry: each name of the layer decides what becomes of it, and no other name changes.\<close>

lemma merged_entries_at:
  "entries_ok entries \<Longrightarrow> merged_entries opq dat es entries m x =
     (case map_of entries x of
        None \<Rightarrow> m x
      | Some d \<Rightarrow> if skipped x d then m x else merged opq dat (es @ [x]) d (m x))"
proof (induction entries arbitrary: m)
  case (Cons entry entries)
  obtain n d where e: "entry = (n, d)" by (cases entry)
  have "map_of entries n = None" if "n \<notin> fst ` set entries" using that by (simp add: map_of_eq_None_iff)
  with Cons e show ?case by (auto split: option.splits)
qed simp


section \<open>The tasks of the walk\<close>

definition no_error :: last_error where
  "no_error cmds = None"

text \<open>The commands of one call of the walk function.\<close>

definition barrier_cmds :: "'w syncher \<Rightarrow> string \<Rightarrow> string \<Rightarrow> sync_task cmd list" where
  "barrier_cmds s cur dir =
     (if cur \<noteq> dir then [ScheduleBarrier (''barrier - %q for volume %q'', [AStr dir, AStr (sy_volumeID s)])] else [])"

definition task_cmd :: "'w syncher \<Rightarrow> string \<Rightarrow> sync_task \<Rightarrow> sync_task cmd" where
  "task_cmd s fmt t = Schedule (fmt, [AStr (task_path t), AStr (sy_volumeID s)]) t 1"

definition node_cmds :: "'w syncher \<Rightarrow> string \<Rightarrow> node \<Rightarrow> sync_task cmd list" where
  "node_cmds s path d =
     (case d of
        NDir _ _ \<Rightarrow> if path = sy_upperLayerPath s then []
          else [task_cmd s ''sync dir - %q for volume %q'' (SyncDir path)]
      | NCharDevice \<Rightarrow> if isIgnoredFile path then []
          else [task_cmd s ''sync whiteout - %q for volume %q, '' (SyncWhiteout path)]
      | NFile \<Rightarrow> if isIgnoredFile path then []
          else [task_cmd s ''sync file - %q for volume %q'' (SyncFile path)])"

lemma run_walkFunc [simp]:
  "run_state (walkFunc s no_error path (Inr d)) st =
     (None, \<lparr>wk_currentDirPath = Dir path,
        wk_cmds = wk_cmds st @ barrier_cmds s (wk_currentDirPath st) (Dir path) @ node_cmds s path d\<rparr>)"
  by (cases d)
    (auto simp: walkFunc_def enter_dir_def schedule_task_def schedule_def no_error_def barrier_cmds_def
      node_cmds_def task_cmd_def)

lemma run_walkFunc_error [simp]:
  "run_state (walkFunc s le path (Inl e)) st =
     (Some (XErr ''failed to walk %q for volume %q: %w'' [AStr path, AStr (sy_volumeID s), AErr e]), st)"
  by (simp add: walkFunc_def)

lemma cmd_tasks_barrier [simp]: "cmd_tasks (barrier_cmds s cur dir) = []"
  by (simp add: barrier_cmds_def)

text \<open>What a task does to the view of the collection.\<close>

definition below :: "string list \<Rightarrow> string \<Rightarrow> string list" where
  "below us path = drop (length us) (elems path)"

fun effect :: "string list \<Rightarrow> (string list \<Rightarrow> bool) \<Rightarrow> (string list \<Rightarrow> 'c) \<Rightarrow> sync_task \<Rightarrow> 'c itree option \<Rightarrow> 'c itree option" where
  "effect us opq dat (SyncDir path) = update_at (below us path) (new_dir (opq (below us path)))"
| "effect us opq dat (SyncWhiteout path) = update_at (below us path) whiteout"
| "effect us opq dat (SyncFile path) = update_at (below us path) (new_file (dat (below us path)))"

lemma below_abs_path [simp]: "plain us \<Longrightarrow> plain es \<Longrightarrow> below us (abs_path (us @ es)) = es"
  by (subst below_def, subst elems_abs_path) auto

text \<open>The merge of the entries of a directory, as an update of the directory's node.\<close>

fun entries_update :: "(string list \<Rightarrow> bool) \<Rightarrow> (string list \<Rightarrow> 'c) \<Rightarrow> string list \<Rightarrow> (string \<times> node) list \<Rightarrow>
    'c itree option \<Rightarrow> 'c itree option" where
  "entries_update opq dat es [] t = t"
| "entries_update opq dat es ((n, d) # entries) t =
     entries_update opq dat es entries (if skipped n d then t else update_at [n] (merged opq dat (es @ [n]) d) t)"

lemma entries_update_Coll: "entries_update opq dat es entries (Some (Coll m)) = Some (Coll (merged_entries opq dat es entries m))"
  by (induction entries arbitrary: m) auto

lemma entries_update_Some: "entries_update opq dat es entries (Some t) \<noteq> None"
proof (induction entries arbitrary: t)
  case (Cons entry entries)
  obtain n d where e: "entry = (n, d)" by (cases entry)
  have "update_at [n] (merged opq dat (es @ [n]) d) (Some t) \<noteq> None" by (rule update_at_Some) simp
  with Cons e show ?case by (cases "update_at [n] (merged opq dat (es @ [n]) d) (Some t)") auto
qed simp

section \<open>What a walk schedules\<close>

text \<open>
  The walk from \<open>st\<close> to \<open>st'\<close> with the result \<open>r\<close> has added tasks on paths in \<open>ps\<close>, each path once, which together
  have the effect \<open>f\<close>, unless it was aborted.
\<close>

definition walked ::
    "(sync_task \<Rightarrow> 'v \<Rightarrow> 'v) \<Rightarrow> string set \<Rightarrow> ('v \<Rightarrow> 'v) \<Rightarrow> walk \<Rightarrow> walk \<Rightarrow> go_error option \<Rightarrow> bool" where
  "walked eff ps f st st' r \<longleftrightarrow> (\<exists>new. wk_cmds st' = wk_cmds st @ new \<and>
     task_path ` set (cmd_tasks new) \<subseteq> ps \<and> distinct (map task_path (cmd_tasks new)) \<and>
     (r = None \<longrightarrow> (\<forall>v. fold eff (cmd_tasks new) v = f v)))"

lemma walked_refl: "(r = None \<Longrightarrow> \<forall>v. f v = v) \<Longrightarrow> walked eff ps f st st r"
  by (auto simp: walked_def)

lemma walked_trans:
  assumes "walked eff ps f st st1 None" and "walked eff qs g st1 st2 r" and "ps \<inter> qs = {}"
    and "\<And>v. r = None \<Longrightarrow> g (f v) = h v"
  shows "walked eff (ps \<union> qs) h st st2 r"
proof -
  from assms(1) obtain as where as: "wk_cmds st1 = wk_cmds st @ as" "task_path ` set (cmd_tasks as) \<subseteq> ps"
    "distinct (map task_path (cmd_tasks as))" "\<forall>v. fold eff (cmd_tasks as) v = f v"
    by (auto simp: walked_def)
  from assms(2) obtain bs where bs: "wk_cmds st2 = wk_cmds st1 @ bs" "task_path ` set (cmd_tasks bs) \<subseteq> qs"
    "distinct (map task_path (cmd_tasks bs))" "r = None \<longrightarrow> (\<forall>v. fold eff (cmd_tasks bs) v = g v)"
    by (auto simp: walked_def)
  have "set (map task_path (cmd_tasks as)) \<inter> set (map task_path (cmd_tasks bs)) = {}"
    using as(2) bs(2) assms(3) by fastforce
  with as bs assms(4) show ?thesis
    unfolding walked_def by (intro exI [of _ "as @ bs"]) auto
qed

lemma walked_aborted:
  "walked eff ps f st st' (Some e) \<Longrightarrow> ps \<subseteq> qs \<Longrightarrow> walked eff qs h st st' (Some e)"
  by (auto simp: walked_def)

lemma walked_mono: "walked eff ps f st st' r \<Longrightarrow> ps \<subseteq> qs \<Longrightarrow> (\<And>v. r = None \<Longrightarrow> f v = g v) \<Longrightarrow> walked eff qs g st st' r"
  by (auto simp: walked_def)

lemma walked_node:
  assumes "task_path ` set (cmd_tasks (node_cmds s path d)) \<subseteq> ps" and "\<And>v. fold eff (cmd_tasks (node_cmds s path d)) v = f v"
  shows "walked eff ps f st (snd (run_state (walkFunc s no_error path (Inr d)) st)) None"
  using assms by (auto simp: walked_def node_cmds_def task_cmd_def split: node.splits)

definition paths_below :: "string list \<Rightarrow> string list \<Rightarrow> string set" where
  "paths_below us es = {abs_path (us @ es @ fs) | fs. plain fs}"

lemma paths_below_self: "abs_path (us @ es) \<in> paths_below us es"
  unfolding paths_below_def by (rule CollectI, intro exI [of _ "[]"]) simp

lemma paths_below_child: "plain_elem n \<Longrightarrow> paths_below us (es @ [n]) \<subseteq> paths_below us es"
proof (rule subsetI)
  fix p assume n: "plain_elem n" and "p \<in> paths_below us (es @ [n])"
  then obtain fs where "p = abs_path (us @ es @ n # fs)" "plain fs" by (auto simp: paths_below_def)
  with n show "p \<in> paths_below us es" by (auto simp: paths_below_def intro!: exI [of _ "n # fs"])
qed

text \<open>The paths strictly below a directory, through one of its entries.\<close>

definition paths_in :: "string list \<Rightarrow> string list \<Rightarrow> (string \<times> node) list \<Rightarrow> string set" where
  "paths_in us es entries = (\<Union>n \<in> fst ` set entries. paths_below us (es @ [n]))"

lemma paths_apart:
  assumes "plain (us @ es)" and "plain_elem n" and "plain_elem n'" and "n \<noteq> n'"
  shows "paths_below us (es @ [n]) \<inter> paths_below us (es @ [n']) = {}"
  using assms by (auto simp: paths_below_def) (subst (asm) abs_path_eq_iff, auto)

lemma entries_ok_plain: "entries_ok entries \<Longrightarrow> n \<in> fst ` set entries \<Longrightarrow> plain_elem n"
proof (induction entries)
  case (Cons entry entries)
  then show ?case by (cases entry) auto
qed simp

lemma isIgnoredFile_path: "plain_elem n \<Longrightarrow> isIgnoredFile (abs_path (us @ es @ [n])) \<longleftrightarrow> ignored_name n"
  using Base_abs_path [of n "us @ es"] by (simp add: isIgnoredFile_def ignored_name_def)

lemma not_upper:
  assumes "upper_at s us" and "plain es" and "plain_elem n"
  shows "abs_path (us @ es @ [n]) \<noteq> sy_upperLayerPath s"
proof -
  have "plain us" "plain (us @ es @ [n])" using assms by (auto simp: upper_at_def)
  with assms(1) show ?thesis by (simp add: upper_at_def abs_path_eq_iff)
qed

text \<open>The effect of the task of one node.\<close>

definition node_effect :: "(string list \<Rightarrow> bool) \<Rightarrow> (string list \<Rightarrow> 'c) \<Rightarrow> string list \<Rightarrow> node \<Rightarrow>
    'c itree option \<Rightarrow> 'c itree option" where
  "node_effect opq dat es d = (case d of NDir _ _ \<Rightarrow> new_dir (opq es) | NCharDevice \<Rightarrow> whiteout | NFile \<Rightarrow> new_file (dat es))"

lemma walkFunc_walked:
  assumes "upper_at s us" and "plain es" and "plain_elem n"
  shows "walked (effect us opq dat) {abs_path (us @ es @ [n])}
    (if skipped n d then id else update_at (es @ [n]) (node_effect opq dat (es @ [n]) d)) st
    (snd (run_state (walkFunc s no_error (abs_path (us @ es @ [n])) (Inr d)) st)) None"
proof (rule walked_node)
  have us: "plain us" using assms(1) by (simp add: upper_at_def)
  have b: "below us (abs_path (us @ es @ [n])) = es @ [n]"
    using assms below_abs_path [of us "es @ [n]"] us by auto
  show "task_path ` set (cmd_tasks (node_cmds s (abs_path (us @ es @ [n])) d)) \<subseteq> {abs_path (us @ es @ [n])}"
    by (auto simp: node_cmds_def task_cmd_def split: node.splits)
  show "fold (effect us opq dat) (cmd_tasks (node_cmds s (abs_path (us @ es @ [n])) d)) v =
      (if skipped n d then id else update_at (es @ [n]) (node_effect opq dat (es @ [n]) d)) v" for v
    using not_upper [OF assms] isIgnoredFile_path [OF assms(3)] b
    by (cases d) (auto simp: node_cmds_def task_cmd_def node_effect_def)
qed

lemma merged_dir:
  "update_at es (entries_update opq dat es entries) (update_at es (new_dir (opq es)) v) =
   update_at es (merged opq dat es (NDir None entries)) v"
proof -
  have "update_at es (entries_update opq dat es entries) (update_at es (new_dir (opq es)) v) =
      update_at es (\<lambda>t. entries_update opq dat es entries (new_dir (opq es) t)) v"
    by (rule update_at_compose) (rule entries_update_Some)
  also have "\<dots> = update_at es (merged opq dat es (NDir None entries)) v"
    by (rule update_at_cong) (simp add: new_dir_def entries_update_Coll)
  finally show ?thesis .
qed

lemma merged_child:
  "update_at es (entries_update opq dat es entries)
     ((if skipped n d then id else update_at (es @ [n]) (merged opq dat (es @ [n]) d)) v) =
   update_at es (entries_update opq dat es ((n, d) # entries)) v"
proof (cases "skipped n d")
  case True
  then show ?thesis by (auto intro: update_at_cong)
next
  case False
  then have "update_at es (entries_update opq dat es entries) (update_at (es @ [n]) (merged opq dat (es @ [n]) d) v) =
      update_at es (\<lambda>t. entries_update opq dat es entries (update_at [n] (merged opq dat (es @ [n]) d) t)) v"
    unfolding update_at_append by (intro update_at_compose) (rule entries_update_Some)
  also have "\<dots> = update_at es (entries_update opq dat es ((n, d) # entries)) v"
    using False by (intro update_at_cong) simp
  finally show ?thesis using False by simp
qed

lemma merged_leaf: "merged opq dat es NCharDevice = whiteout" "merged opq dat es NFile = new_file (dat es)"
  by (rule ext, simp add: whiteout_def new_file_def)+

lemma not_paths_in:
  assumes "plain (us @ es)" and "entries_ok entries"
  shows "abs_path (us @ es) \<notin> paths_in us es entries"
proof
  assume "abs_path (us @ es) \<in> paths_in us es entries"
  then obtain n fs where n: "n \<in> fst ` set entries" "plain fs" and eq: "abs_path (us @ es) = abs_path (us @ (es @ [n]) @ fs)"
    unfolding paths_in_def paths_below_def by blast
  have "plain (us @ (es @ [n]) @ fs)" using assms n entries_ok_plain by fastforce
  with eq assms(1) show False by (simp add: abs_path_eq_iff)
qed

lemma paths_in_Cons: "paths_below us (es @ [n]) \<union> paths_in us es entries = paths_in us es ((n, d) # entries)"
  by (simp add: paths_in_def)

lemma paths_in_apart:
  assumes "plain (us @ es)" and "entries_ok ((n, d) # entries)"
  shows "paths_below us (es @ [n]) \<inter> paths_in us es entries = {}"
proof -
  have "paths_below us (es @ [n]) \<inter> paths_below us (es @ [n']) = {}" if "n' \<in> fst ` set entries" for n'
    by (rule paths_apart [OF assms(1)]) (use that assms(2) entries_ok_plain in auto)
  then show ?thesis by (auto simp: paths_in_def)
qed

lemma walk_merges:
  fixes opq :: "string list \<Rightarrow> bool" and dat :: "string list \<Rightarrow> 'c"
  assumes s: "upper_at s us"
  shows "node_ok d \<Longrightarrow> plain es \<Longrightarrow> plain_elem n \<Longrightarrow>
      run_state (walkDir s no_error (abs_path (us @ es @ [n])) d) st = (r, st') \<Longrightarrow>
      walked (effect us opq dat) (paths_below us (es @ [n]))
        (if skipped n d then id else update_at (es @ [n]) (merged opq dat (es @ [n]) d)) st st' r"
    and "entries_ok entries \<Longrightarrow> plain es \<Longrightarrow>
      run_state (walkEntries s no_error (abs_path (us @ es)) entries) st = (r, st') \<Longrightarrow>
      walked (effect us opq dat) (paths_in us es entries) (update_at es (entries_update opq dat es entries)) st st' r"
proof (induction d and entries arbitrary: es n st r st' and es st r st' rule: node_ok_entries_ok.induct)
  case (1 read_err entries es n st r st')
  have sub: "{abs_path (us @ es @ [n])} \<subseteq> paths_below us (es @ [n])" using paths_below_self [of us "es @ [n]"] by simp
  note w = walkFunc_walked [OF s 1(3,4), of opq dat "NDir read_err entries" st]
  show ?case
  proof (cases read_err)
    case (Some e)
    then have "r \<noteq> None" "st' = snd (run_state (walkFunc s no_error (abs_path (us @ es @ [n])) (Inr (NDir read_err entries))) st)"
      using 1(5) by auto
    with w sub show ?thesis by (auto simp: walked_def)
  next
    case None
    let ?st = "snd (run_state (walkFunc s no_error (abs_path (us @ es @ [n])) (Inr (NDir read_err entries))) st)"
    have "run_state (walkEntries s no_error (abs_path (us @ es @ [n])) entries) ?st = (r, st')"
      using 1(5) None by simp
    then have e: "walked (effect us opq dat) (paths_in us (es @ [n]) entries)
        (update_at (es @ [n]) (entries_update opq dat (es @ [n]) entries)) ?st st' r"
      using 1(1) [of "es @ [n]" ?st r st'] 1(2-4) by simp
    have p: "plain (us @ es @ [n])" using s 1(3,4) by (auto simp: upper_at_def)
    have "{abs_path (us @ es @ [n])} \<inter> paths_in us (es @ [n]) entries = {}"
      using not_paths_in [OF p] 1(2) by simp
    then have "walked (effect us opq dat) ({abs_path (us @ es @ [n])} \<union> paths_in us (es @ [n]) entries)
        (update_at (es @ [n]) (merged opq dat (es @ [n]) (NDir None entries))) st st' r"
      by (rule walked_trans [OF w e]) (simp add: node_effect_def merged_dir)
    then show ?thesis
    proof (rule walked_mono)
      show "{abs_path (us @ es @ [n])} \<union> paths_in us (es @ [n]) entries \<subseteq> paths_below us (es @ [n])"
        using sub entries_ok_plain [of entries] 1(2) paths_below_child by (fastforce simp: paths_in_def)
    qed (simp add: None)
  qed
next
  case (2 es n st r st')
  then show ?case
    using walkFunc_walked [OF s 2(2,3), of opq dat NCharDevice st] paths_below_self [of us "es @ [n]"]
    by (auto simp: node_effect_def merged_leaf elim!: walked_mono)
next
  case (3 es n st r st')
  then show ?case
    using walkFunc_walked [OF s 3(2,3), of opq dat NFile st] paths_below_self [of us "es @ [n]"]
    by (auto simp: node_effect_def merged_leaf elim!: walked_mono)
next
  case (4 es st r st')
  then show ?case by (auto intro!: walked_refl simp: update_at_same)
next
  case (5 n d entries es st r st')
  have p: "plain (us @ es)" using s 5(4) by (auto simp: upper_at_def)
  have n: "plain_elem n" "node_ok d" "entries_ok entries" using 5(3) by simp_all
  obtain r1 st1 where d: "run_state (walkDir s no_error (abs_path (us @ es @ [n])) d) st = (r1, st1)" by fastforce
  note w = 5(1) [OF n(2) 5(4) n(1) d]
  have run: "(case r1 of None \<Rightarrow> run_state (walkEntries s no_error (abs_path (us @ es)) entries) st1 | Some e \<Rightarrow> (Some e, st1)) = (r, st')"
    using 5(5) d JoinPath_name [OF p n(1)] by (auto split: option.splits)
  show ?case
  proof (cases r1)
    case (Some e)
    with run w show ?thesis by (auto elim!: walked_aborted simp: paths_in_def)
  next
    case None
    with run have "run_state (walkEntries s no_error (abs_path (us @ es)) entries) st1 = (r, st')" by simp
    note e = 5(2) [OF n(3) 5(4) this]
    show ?thesis
      unfolding paths_in_Cons [symmetric]
      by (rule walked_trans [OF w [unfolded None] e paths_in_apart [OF p 5(3)]]) (rule merged_child)
  qed
qed


section \<open>The tasks between two barriers\<close>

text \<open>The commands, latest first: a task lies in the directory \<open>dir\<close> the walk is in, up to the barrier.\<close>

fun one_dir :: "string \<Rightarrow> sync_task cmd list \<Rightarrow> bool" where
  "one_dir dir [] = True"
| "one_dir dir (Schedule l t n # cs) = (Dir (task_path t) = dir \<and> one_dir dir cs)"
| "one_dir dir (ScheduleBarrier l # cs) = (\<exists>d. one_dir d cs)"

abbreviation walk_in_dir :: "walk \<Rightarrow> bool" where
  "walk_in_dir st \<equiv> one_dir (wk_currentDirPath st) (rev (wk_cmds st))"

lemma enter_dir_in:
  assumes "walk_in_dir st" and "run_state (enter_dir s le dir) st = (b, st')"
  shows "walk_in_dir st' \<and> (b \<longrightarrow> wk_currentDirPath st' = dir)"
proof (cases "wk_currentDirPath st = dir")
  case True
  with assms show ?thesis by (simp add: enter_dir_def)
next
  case False
  with assms show ?thesis by (cases "le (wk_cmds st)") (auto simp: enter_dir_def schedule_def)
qed

lemma schedule_task_in:
  assumes "walk_in_dir st" and "wk_currentDirPath st = Dir (task_path t)"
  shows "walk_in_dir (snd (run_state (schedule_task s le fmt t) st))"
  using assms by (cases "le (wk_cmds st)") (simp_all add: schedule_task_def schedule_def)

lemma keeps_walkFunc [keeps_rules]: "keeps walk_in_dir (walkFunc s le path d)"
proof (rule keepsI)
  fix st assume st: "walk_in_dir st"
  obtain b st1 where e: "run_state (enter_dir s le (Dir path)) st = (b, st1)" by fastforce
  note st1 = enter_dir_in [OF st e]
  show "walk_in_dir (snd (run_state (walkFunc s le path d) st))"
  proof (cases d)
    case (Inl e)
    with st show ?thesis by simp
  next
    case (Inr n)
    with e st1 show ?thesis
      by (cases b; cases n) (auto simp: walkFunc_def intro: schedule_task_in)
  qed
qed

lemma keeps_walkDir [keeps_rules]:
  "keeps walk_in_dir (walkDir s le path d)" "keeps walk_in_dir (walkEntries s le path entries)"
proof (induction d and entries arbitrary: path and path rule: node_ok_entries_ok.induct)
  case (1 r entries path)
  show ?case unfolding walkDir.simps by (intro keeps_rules 1)
next
  case (5 n d entries path)
  show ?case unfolding walkEntries.simps by (intro keeps_rules 5)
qed (simp_all only: walkDir.simps walkEntries.simps keeps_walkFunc keeps_return)

lemma one_dir_batch:
  "one_dir dir (bs @ cs) \<Longrightarrow> list_all (\<lambda>c. \<not> is_barrier c) (butlast bs) \<Longrightarrow>
   t \<in> set (cmd_tasks bs) \<Longrightarrow> Dir (task_path t) = dir"
proof (induction bs)
  case (Cons b bs)
  then show ?case by (cases b; cases bs) auto
qed simp

lemma one_dir_append: "one_dir dir (as @ cs) \<Longrightarrow> \<exists>d. one_dir d cs"
  by (induction dir as rule: one_dir.induct) auto

lemma cmd_tasks_rev: "set (cmd_tasks (rev cs)) = set (cmd_tasks cs)"
  by (induction cs rule: cmd_tasks.induct) auto

lemma batch_dir:
  assumes "one_dir dir (rev (pre @ bs @ post))" and "list_all (\<lambda>c. \<not> is_barrier c) (tl bs)"
    and "t \<in> set (cmd_tasks bs)" and "u \<in> set (cmd_tasks bs)"
  shows "Dir (task_path t) = Dir (task_path u)"
proof -
  obtain d where d: "one_dir d (rev bs @ rev pre)"
    using assms(1) one_dir_append [of dir "rev post" "rev bs @ rev pre"] by auto
  have nb: "list_all (\<lambda>c. \<not> is_barrier c) (butlast (rev bs))" using assms(2) by (simp add: butlast_rev)
  show ?thesis
    using one_dir_batch [OF d nb, of t] one_dir_batch [OF d nb, of u] assms(3,4) by (simp add: cmd_tasks_rev)
qed

text \<open>Tasks on two entries of one directory commute.\<close>

lemma effect_comm:
  assumes us: "plain us" and p: "plain (p @ [x])" "plain (q @ [y])"
    and t: "task_path t = abs_path (us @ p @ [x])" "task_path u = abs_path (us @ q @ [y])"
    and "Dir (task_path t) = Dir (task_path u)" and ne: "task_path t \<noteq> task_path u"
  shows "effect us opq dat t \<circ> effect us opq dat u = effect us opq dat u \<circ> effect us opq dat t"
proof -
  have "Dir (task_path t) = abs_path (us @ p)" "Dir (task_path u) = abs_path (us @ q)"
    using t us p Dir_abs_path [of "us @ p" x] Dir_abs_path [of "us @ q" y] by auto
  moreover have "plain (us @ p)" "plain (us @ q)" using us p by auto
  ultimately have pq: "p = q" using assms(6) by (simp add: abs_path_eq_iff)
  with ne t have xy: "x \<noteq> y" by auto
  have "\<exists>f. effect us opq dat t = update_at (p @ [x]) f" "\<exists>f. effect us opq dat u = update_at (p @ [y]) f"
    using t p us pq below_abs_path [of us "p @ [x]"] below_abs_path [of us "q @ [y]"] by (cases t; cases u; auto)+
  then show ?thesis using update_at_comm [OF xy] by (auto simp: fun_eq_iff)
qed

lemma plan_commutes:
  assumes "plain us" and "one_dir dir (rev cmds)" and "distinct (map task_path (cmd_tasks cmds))"
    and "task_path ` set (cmd_tasks cmds) \<subseteq> paths_in us [] entries" and "entries_ok entries"
  shows "batches_commute (effect us opq dat) cmds"
  unfolding batches_commute_def
proof (intro allI impI ballI, elim conjE)
  fix pre bs post t u
  assume c: "cmds = pre @ bs @ post" and nb: "list_all (\<lambda>c. \<not> is_barrier c) (tl bs)"
    and t: "t \<in> set (cmd_tasks bs)" and u: "u \<in> set (cmd_tasks bs)"
  have path: "\<exists>p x. plain (p @ [x]) \<and> task_path v = abs_path (us @ p @ [x])" if "v \<in> set (cmd_tasks cmds)" for v
  proof -
    have "task_path v \<in> paths_in us [] entries" using that assms(4) by blast
    then obtain n fs where "n \<in> fst ` set entries" "plain fs" "task_path v = abs_path (us @ n # fs)"
      unfolding paths_in_def paths_below_def by auto
    moreover have "plain (n # fs)" using calculation(1,2) entries_ok_plain [OF assms(5)] by auto
    moreover have "n # fs = butlast (n # fs) @ [last (n # fs)]" by simp
    ultimately show ?thesis by metis
  qed
  show "effect us opq dat t \<circ> effect us opq dat u = effect us opq dat u \<circ> effect us opq dat t"
  proof (cases "task_path t = task_path u")
    case True
    have "t \<in> set (cmd_tasks cmds)" "u \<in> set (cmd_tasks cmds)" using c t u by auto
    with True assms(3) have "t = u" by (auto simp: distinct_map inj_on_def)
    then show ?thesis by simp
  next
    case False
    have "t \<in> set (cmd_tasks cmds)" "u \<in> set (cmd_tasks cmds)" using c t u by auto
    then obtain p x q y where px: "plain (p @ [x])" "task_path t = abs_path (us @ p @ [x])"
      and qy: "plain (q @ [y])" "task_path u = abs_path (us @ q @ [y])" using path by meson
    have "Dir (task_path t) = Dir (task_path u)"
      by (rule batch_dir [OF _ nb t u]) (use assms(2) c in simp)
    then show ?thesis by (rule effect_comm [OF assms(1) px(1) qy(1) px(2) qy(2) _ False])
  qed
qed

text \<open>Every call fits a manager with a thread.\<close>

abbreviation walk_fits :: "int \<Rightarrow> walk \<Rightarrow> bool" where
  "walk_fits m st \<equiv> list_all (cmd_fits m) (wk_cmds st)"

lemma keeps_fits_parts:
  assumes "1 \<le> m"
  shows "cmd_fits m c \<Longrightarrow> keeps (walk_fits m) (schedule le c)" and "keeps (walk_fits m) (enter_dir s le dir)"
    and "keeps (walk_fits m) (schedule_task s le fmt t)"
proof -
  show sched: "cmd_fits m c \<Longrightarrow> keeps (walk_fits m) (schedule le c)" for c
    by (auto simp: keeps_def schedule_def split: option.splits)
  have cur: "keeps (walk_fits m) (modify (wk_currentDirPath_update f))" for f by (simp add: keeps_def)
  show "keeps (walk_fits m) (enter_dir s le dir)"
    unfolding enter_dir_def by (intro keeps_rules sched cur) (use assms in simp)
  show "keeps (walk_fits m) (schedule_task s le fmt t)"
    unfolding schedule_task_def by (intro keeps_rules sched) (use assms in simp)
qed

lemma keeps_fits_walkFunc [keeps_rules]:
  assumes "1 \<le> m"
  shows "keeps (walk_fits m) (walkFunc s le path d)"
proof (cases d)
  case (Inl e)
  then show ?thesis by (simp add: walkFunc_def keeps_return)
next
  case (Inr n)
  then show ?thesis
    unfolding walkFunc_def sum.case Inr
    by (cases n; simp only: node.case) (intro keeps_rules keeps_fits_parts [OF assms])+
qed

lemma WalkDir_fits:
  assumes "1 \<le> m" and "run_state (WalkDir s le root) \<lparr>wk_currentDirPath = [], wk_cmds = []\<rparr> = (r, st)"
  shows "list_all (cmd_fits m) (wk_cmds st)"
proof -
  have walk: "keeps (walk_fits m) (walkDir s le path d)" "keeps (walk_fits m) (walkEntries s le path entries)" for path d entries
  proof (induction d and entries arbitrary: path and path rule: node_ok_entries_ok.induct)
    case (1 r entries path)
    show ?case unfolding walkDir.simps by (intro keeps_rules 1 assms(1))
  next
    case (5 n d entries path)
    show ?case unfolding walkEntries.simps by (intro keeps_rules 5 assms(1))
  qed (simp_all only: walkDir.simps walkEntries.simps keeps_fits_walkFunc [OF assms(1)] keeps_return)
  have "keeps (walk_fits m) (WalkDir s le root)"
    unfolding WalkDir_def by (intro keeps_rules walk assms(1))
  then have "walk_fits m (snd (run_state (WalkDir s le root) \<lparr>wk_currentDirPath = [], wk_cmds = []\<rparr>))"
    by (rule keepsD) simp
  with assms(2) show ?thesis by simp
qed

text \<open>What the walk of a readable layer has scheduled.\<close>

lemma WalkDir_walked:
  assumes s: "upper_at s us" and e: "entries_ok entries"
    and run: "run_state (WalkDir s no_error (Inr (NDir None entries))) \<lparr>wk_currentDirPath = [], wk_cmds = []\<rparr> = (None, st)"
  shows "task_path ` set (cmd_tasks (wk_cmds st)) \<subseteq> paths_in us [] entries"
    and "distinct (map task_path (cmd_tasks (wk_cmds st)))"
    and "fold (effect us opq dat) (cmd_tasks (wk_cmds st)) v = entries_update opq dat [] entries v"
proof -
  let ?st0 = "\<lparr>wk_currentDirPath = [], wk_cmds = []\<rparr> :: walk"
  have us: "sy_upperLayerPath s = abs_path us" using s by (simp add: upper_at_def)
  let ?st1 = "snd (run_state (walkFunc s no_error (abs_path us) (Inr (NDir None entries))) ?st0)"
  have "run_state (walkEntries s no_error (abs_path (us @ [])) entries) ?st1 = (None, st)"
    using run us by (simp add: WalkDir_def)
  from walk_merges(2) [OF s e _ this, of opq dat] have "walked (effect us opq dat) (paths_in us [] entries)
      (update_at [] (entries_update opq dat [] entries)) ?st1 st None" by simp
  moreover have "cmd_tasks (wk_cmds ?st1) = []" using us by (simp add: node_cmds_def)
  ultimately show "task_path ` set (cmd_tasks (wk_cmds st)) \<subseteq> paths_in us [] entries"
    "distinct (map task_path (cmd_tasks (wk_cmds st)))"
    "fold (effect us opq dat) (cmd_tasks (wk_cmds st)) v = entries_update opq dat [] entries v"
    by (auto simp: walked_def)
qed

lemma WalkDir_in_dir:
  assumes "run_state (WalkDir s le root) \<lparr>wk_currentDirPath = [], wk_cmds = []\<rparr> = (r, st)"
  shows "walk_in_dir st"
proof -
  have "keeps walk_in_dir (WalkDir s le root)" unfolding WalkDir_def by (intro keeps_rules)
  then have "walk_in_dir (snd (run_state (WalkDir s le root) \<lparr>wk_currentDirPath = [], wk_cmds = []\<rparr>))"
    by (rule keepsD) simp
  with assms show ?thesis by simp
qed

lemma WalkDir_plan:
  assumes s: "upper_at s us" and e: "entries_ok entries"
    and run: "run_state (WalkDir s no_error (Inr (NDir None entries))) \<lparr>wk_currentDirPath = [], wk_cmds = []\<rparr> = (None, st)"
  shows "fold (effect us opq dat) (cmd_tasks (wk_cmds st)) (Some (Coll m)) = Some (Coll (merged_entries opq dat [] entries m))"
    and "batches_commute (effect us opq dat) (wk_cmds st)"
proof -
  have us: "plain us" using s by (simp add: upper_at_def)
  note w = WalkDir_walked [OF s e run]
  show "fold (effect us opq dat) (cmd_tasks (wk_cmds st)) (Some (Coll m)) =
      Some (Coll (merged_entries opq dat [] entries m))" by (simp add: w(3) entries_update_Coll)
  show "batches_commute (effect us opq dat) (wk_cmds st)"
    by (rule plan_commutes [OF us WalkDir_in_dir [OF run] w(2,1) e])
qed

end
