(* ===== verification/Overlay_Run.thy ===== *)
theory Overlay_Run
  imports Overlay_Merge
begin

text \<open>
  The synchronisation as a whole: \<open>Sync\<close> of overlay.go, which schedules the walk's tasks on the job manager
  and waits for them, and what mount.go runs in the background when an overlay volume is unmounted.
  The state is that of the outside with the errors logged, the latest first.
\<close>

section \<open>Tasks that log their errors\<close>

type_synonym 'w logged = "'w \<times> message list"

definition in_fs :: "('w, 'a) state \<Rightarrow> ('w logged, 'a) state" where
  "in_fs m = zoom fst (\<lambda>w x. (w, snd x)) m"

definition klog_error :: "message \<Rightarrow> ('w logged, unit) state" where
  "klog_error msg = modify (\<lambda>x. (fst x, msg # snd x))"

definition log_failure :: "string \<Rightarrow> 'w syncher \<Rightarrow> string \<Rightarrow> go_error option \<Rightarrow> ('w logged, go_error option) state" where
  "log_failure fmt s path syncErr =
     (case syncErr of
        Some e \<Rightarrow> do { _ \<leftarrow> klog_error (fmt, [AStr path, AStr (sy_volumeID s), AErr e]); ret None }
      | None \<Rightarrow> ret None)"

text \<open>The closures that are scheduled: an error is logged, and not returned.\<close>

fun task_closure :: "'w irods_fs \<Rightarrow> 'w syncher \<Rightarrow> sync_task \<Rightarrow> ('w logged, go_error option) state" where
  "task_closure fs s (SyncDir path) = do {
     syncErr \<leftarrow> in_fs (syncDir fs s True path);
     log_failure ''failed to sync dir %q, volume %q, %s'' s path syncErr }"
| "task_closure fs s (SyncWhiteout path) = do {
     syncErr \<leftarrow> in_fs (syncWhiteout fs s True path);
     log_failure ''failed to sync whiteout %q, volume %q, %s'' s path syncErr }"
| "task_closure fs s (SyncFile path) = do {
     syncErr \<leftarrow> in_fs (syncFile fs s True path);
     log_failure ''failed to sync file %q, volume %q, %s'' s path syncErr }"


section \<open>Sync\<close>

text \<open>
  Up to the end of the walk: nothing was scheduled and the result is there, the walk was aborted with
  calls already scheduled, or all is scheduled. \<open>names\<close> are the entries of the upper layer as read first,
  \<open>root\<close> is the layer as the walk finds it.
\<close>

datatype sync_plan =
    Sync_returned "go_error option"
  | Sync_aborted go_error "sync_task cmd list"
  | Sync_scheduled "sync_task cmd list"

definition Sync_start :: "'w irods_fs \<Rightarrow> 'w syncher \<Rightarrow> last_error \<Rightarrow> go_error + string list \<Rightarrow> go_error + node \<Rightarrow>
    ('w, sync_plan) state" where
  "Sync_start fs s last_error names root =
     (case names of
        Inl e \<Rightarrow> ret (Sync_returned (Some (XErr ''failed to read dir entires for upperdir %q, volume %q: %w''
          [AStr (sy_upperLayerPath s), AStr (sy_volumeID s), AErr e])))
      | Inr entries \<Rightarrow>
          if length entries = 0 then ret (Sync_returned None)
          else do {
            let statusFile = getStatusFilePath s;
            err \<leftarrow> fs_open_file fs statusFile [] ''w+'';
            case err of
              Some e \<Rightarrow> ret (Sync_aborted (XErr ''failed to create sync status file %q: %w'' [AStr statusFile, AErr e]) [])
            | None \<Rightarrow>
                (case run_state (WalkDir s last_error root) \<lparr>wk_currentDirPath = [], wk_cmds = []\<rparr> of
                   (Some e, st) \<Rightarrow> do {
                     _ \<leftarrow> fs_close fs;
                     ret (Sync_aborted (XErr ''failed to walk dir %q for volume %q: %w''
                       [AStr (sy_upperLayerPath s), AStr (sy_volumeID s), AErr e]) (wk_cmds st)) }
                 | (None, st) \<Rightarrow> ret (Sync_scheduled (wk_cmds st))) })"

text \<open>The end of the wait: its error is logged, the status file closed.\<close>

definition sync_waited :: "'w irods_fs \<Rightarrow> go_error option \<Rightarrow> ('w logged, unit) state" where
  "sync_waited fs err = do {
     _ \<leftarrow> (case err of Some e \<Rightarrow> klog_error (''%s'', [AErr e]) | None \<Rightarrow> ret ());
     in_fs (fs_close fs) }"

text \<open>
  \<open>Sync s names root x r y\<close>: the call can return \<open>r\<close>, leaving \<open>y\<close>. An aborted call leaves the manager's goroutines
  behind, somewhere on their way; the calls were scheduled, and the scheduling is never closed.
\<close>

inductive Sync :: "'w syncher \<Rightarrow> go_error + string list \<Rightarrow> go_error + node \<Rightarrow> 'w logged \<Rightarrow> go_error option \<Rightarrow> 'w logged \<Rightarrow> bool"
  for s names root where
  Sync_return: "sy_irodsFsClient s = Some fs \<Longrightarrow>
    run_state (Sync_start fs s no_error names root) w = (Sync_returned r, w') \<Longrightarrow> Sync s names root (w, l) r (w', l)"
| Sync_abort: "sy_irodsFsClient s = Some fs \<Longrightarrow>
    run_state (Sync_start fs s no_error names root) w = (Sync_aborted e cmds, w1) \<Longrightarrow>
    (run_step (task_closure fs s))\<^sup>*\<^sup>* (NewParallelJobManager (sy_maxThreads s) cmds, (w1, l)) (m, y) \<Longrightarrow>
    jm_cmds m = [] \<Longrightarrow> jm_sched m = S_Next \<Longrightarrow> Sync s names root (w, l) (Some e) y"
| Sync_wait: "sy_irodsFsClient s = Some fs \<Longrightarrow>
    run_state (Sync_start fs s no_error names root) w = (Sync_scheduled cmds, w1) \<Longrightarrow>
    (run_step (task_closure fs s))\<^sup>*\<^sup>* (NewParallelJobManager (sy_maxThreads s) cmds, (w1, l)) (m, y) \<Longrightarrow>
    jm_sched m = S_Returned err \<Longrightarrow>
    run_state (sync_waited fs err) y = ((), z) \<Longrightarrow>
    Sync s names root (w, l) None z"


section \<open>In the background of an unmount\<close>

inductive syncOverlayFS :: "'w sync_lib \<Rightarrow> string \<Rightarrow> conn_info \<Rightarrow> string \<Rightarrow> go_error + string list \<Rightarrow> go_error + node \<Rightarrow>
    'w logged \<Rightarrow> go_error option \<Rightarrow> 'w logged \<Rightarrow> bool"
  for lib volumeID connectionInfo upperPath names root where
  no_syncher: "run_state (NewOverlayFSSyncher lib volumeID connectionInfo upperPath) w = (Inl e, w') \<Longrightarrow>
    syncOverlayFS lib volumeID connectionInfo upperPath names root (w, l)
      (Some (XErr ''failed to create a overlayfs syncher: %w'' [AErr e])) (w', l)"
| with_syncher: "run_state (NewOverlayFSSyncher lib volumeID connectionInfo upperPath) w = (Inr s, w1) \<Longrightarrow>
    Sync s names root (w1, l) r y \<Longrightarrow> run_state (in_fs (Release lib s)) y = (s', z) \<Longrightarrow>
    syncOverlayFS lib volumeID connectionInfo upperPath names root (w, l)
      (map_option (\<lambda>e. XErr ''failed to sync overlayfs upper %q: %w'' [AStr upperPath, AErr e]) r) z"

text \<open>The goroutine's body: whatever the synchronisation returned, the upper layer is deleted.\<close>

definition delete_upper :: "'w sync_lib \<Rightarrow> string \<Rightarrow> go_error option \<Rightarrow> ('w logged, unit) state" where
  "delete_upper lib upperPath err = do {
     _ \<leftarrow> (case err of
            Some e \<Rightarrow> klog_error (''Error syncing overlayfs upper data at %q, %s, ignoring'', [AStr upperPath, AErr e])
          | None \<Rightarrow> ret ());
     err \<leftarrow> in_fs (sl_remove_all lib upperPath);
     (case err of
        Some e \<Rightarrow> klog_error (''Error deleting overlayfs upper data at %q, %s, ignoring'',
          [AStr upperPath, AErr (XErr ''failed to delete a overlayfs data path %q: %w'' [AStr upperPath, AErr e])])
      | None \<Rightarrow> ret ()) }"

inductive unmount_background :: "'w sync_lib \<Rightarrow> string \<Rightarrow> conn_info \<Rightarrow> string \<Rightarrow> go_error + string list \<Rightarrow> go_error + node \<Rightarrow>
    'w logged \<Rightarrow> 'w logged \<Rightarrow> bool"
  for lib volID irodsConnectionInfo upperPath names root where
  "syncOverlayFS lib volID irodsConnectionInfo upperPath names root x err y \<Longrightarrow>
   run_state (delete_upper lib upperPath err) y = ((), z) \<Longrightarrow>
   unmount_background lib volID irodsConnectionInfo upperPath names root x z"

lemma run_in_fs [simp]: "run_state (in_fs m) (w, l) = (let (a, w') = run_state m w in (a, (w', l)))"
  by (simp add: in_fs_def)

lemma run_log_failure:
  "run_state (log_failure fmt s path err) (w, l) =
     (None, (w, case err of None \<Rightarrow> l | Some e \<Rightarrow> (fmt, [AStr path, AStr (sy_volumeID s), AErr e]) # l))"
  by (simp add: log_failure_def klog_error_def split: option.splits)


section \<open>What a synchronisation amounts to\<close>

lemma task_closure_None: "fst (run_state (task_closure fs s t) x) = None"
  by (cases x; cases t) (simp_all add: run_log_failure split: prod.splits)

text \<open>The opaque directories and the contents of the upper layer, by path below it.\<close>

definition upper_opaque :: "(string \<Rightarrow> string \<Rightarrow> go_error + string) \<Rightarrow> string list \<Rightarrow> string list \<Rightarrow> bool" where
  "upper_opaque attr us es = opaque_value (attr (abs_path (us @ es)) overlayFSOpaqueXAttr)"

definition upper_content :: "(string \<Rightarrow> 'c) \<Rightarrow> string list \<Rightarrow> string list \<Rightarrow> 'c" where
  "upper_content content us es = content (abs_path (us @ es))"

text \<open>A task that logs nothing has its effect.\<close>

lemma task_closure_effect:
  assumes c: "irods_contract fs cs view content attr" and m: "upper_at s us" "maps_root (sy_irodsFsVPathManager s) cs"
    and es: "plain es" "es \<noteq> []" and t: "task_path t = abs_path (us @ es)"
    and run: "run_state (task_closure fs s t) (w, l) = (r, (w', []))"
  shows "l = [] \<and> view w' = effect us (upper_opaque attr us) (upper_content content us) t (view w)"
proof -
  have b: "below us (abs_path (us @ es)) = es" using m(1) es by (simp add: upper_at_def)
  have "l = [] \<and> (\<exists>prog. run_state prog w = (None, w') \<and>
      brings view prog w (effect us (upper_opaque attr us) (upper_content content us) t))"
  proof (cases t)
    case (SyncDir p)
    with run t b syncDir_brings [OF c m es, of True w] show ?thesis
      by (auto simp: run_log_failure upper_opaque_def split: prod.splits option.splits)
  next
    case (SyncWhiteout p)
    with run t b syncWhiteout_brings [OF c m es, of True w] show ?thesis
      by (auto simp: run_log_failure split: prod.splits option.splits)
  next
    case (SyncFile p)
    with run t b syncFile_brings [OF c m es, of True w] show ?thesis
      by (auto simp: run_log_failure upper_content_def split: prod.splits option.splits)
  qed
  then show ?thesis by (auto simp: brings_def)
qed

lemma paths_in_path:
  assumes "p \<in> paths_in us [] entries" and "entries_ok entries"
  obtains es where "p = abs_path (us @ es)" and "plain es" and "es \<noteq> []"
proof -
  from assms(1) obtain n fs where "n \<in> fst ` set entries" "plain fs" "p = abs_path (us @ n # fs)"
    unfolding paths_in_def paths_below_def by auto
  with entries_ok_plain [OF assms(2)] that [of "n # fs"] show ?thesis by auto
qed

lemma Sync_start_scheduled:
  assumes "run_state (Sync_start fs s last_error names root) w = (Sync_scheduled cmds, w')"
  obtains st where "run_state (WalkDir s last_error root) \<lparr>wk_currentDirPath = [], wk_cmds = []\<rparr> = (None, st)"
    and "cmds = wk_cmds st" and "w' = snd (run_state (fs_open_file fs (getStatusFilePath s) [] ''w+'') w)"
  using assms by (auto simp: Sync_start_def Let_def split: sum.splits if_splits prod.splits option.splits)

text \<open>
  The tasks of a run of the job manager on what the walk has scheduled, where none has logged an error,
  have merged the layer into the collection.
\<close>

lemma sync_run_merges:
  assumes c: "irods_contract fs cs view content attr" and m: "upper_at s us" "maps_root (sy_irodsFsVPathManager s) cs"
    and e: "entries_ok entries"
    and start: "run_state (Sync_start fs s no_error names (Inr (NDir None entries))) w0 = (Sync_scheduled cmds, w1)"
    and run: "manager_runs k (task_closure fs s) cmds (w1, []) (w2, [])" and v: "view w0 = Some (Coll t)"
  shows "view w2 = Some (Coll (merged_entries (upper_opaque attr us) (upper_content content us) [] entries t))"
proof -
  let ?eff = "effect us (upper_opaque attr us) (upper_content content us)"
  obtain st where st: "run_state (WalkDir s no_error (Inr (NDir None entries))) \<lparr>wk_currentDirPath = [], wk_cmds = []\<rparr> = (None, st)"
    "cmds = wk_cmds st" and w1: "w1 = snd (run_state (fs_open_file fs (getStatusFilePath s) [] ''w+'') w0)"
    using start by (rule Sync_start_scheduled)
  have v1: "view w1 = Some (Coll t)"
    using c v unfolding w1 by (simp add: irods_contract_def reads_ok_def keeps_view_def)
  note plan = WalkDir_plan [OF m(1) e st(1), folded st(2),
      where opq = "upper_opaque attr us" and dat = "upper_content content us"]
  have "(view \<circ> fst) (w2, [] :: message list) = fold ?eff (cmd_tasks cmds) ((view \<circ> fst) (w1, [] :: message list))"
  proof (rule job_manager.runs_effect [where ok = "\<lambda>x. snd x = []" and view = "view \<circ> fst", OF _ run plan(2)])
    fix task :: sync_task and x
    assume task: "task \<in> set (cmd_tasks cmds)" and ok: "snd (snd (run_state (task_closure fs s task) x)) = []"
    obtain w l where x: "x = (w, l)" by (cases x)
    obtain r w' where r: "run_state (task_closure fs s task) (w, l) = (r, (w', []))"
      using ok unfolding x by (metis prod.collapse)
    have "task_path task \<in> paths_in us [] entries" using WalkDir_walked(1) [OF m(1) e st(1)] task st(2) by auto
    then obtain es where es: "task_path task = abs_path (us @ es)" "plain es" "es \<noteq> []" by (rule paths_in_path [OF _ e])
    from task_closure_effect [OF c m es(2,3,1) r] r show "snd x = [] \<and>
        (view \<circ> fst) (snd (run_state (task_closure fs s task) x)) = ?eff task ((view \<circ> fst) x)"
      by (simp add: x r)
  qed (simp_all add: task_closure_None)
  with v1 plan(1) show ?thesis by simp
qed

text \<open>The tasks that run at one time are on entries of one directory.\<close>

lemma running_in_dir:
  assumes "one_dir dir (rev cmds)" and "pjm_inv cmds s" and "jm_lastError s = None"
    and "j \<in> set (running s)" "job_task j = Some t" and "k \<in> set (running s)" "job_task k = Some u"
  shows "Dir (task_path t) = Dir (task_path u)"
proof -
  obtain pre bs post i where b: "cmds = pre @ bs @ post" "list_all (\<lambda>c. \<not> is_barrier c) (tl bs)"
    "set (running s) \<subseteq> set (jobs_from i bs)"
    using running_batch [OF assms(2,3)] by blast
  have task: "j \<in> set (jobs_from i cs) \<Longrightarrow> job_task j = Some t \<Longrightarrow> t \<in> set (cmd_tasks cs)" for j t i and cs :: "sync_task cmd list"
  proof (induction cs arbitrary: i)
    case (Cons c cs)
    then show ?case by (cases c) (auto simp: newParallelJob_def)
  qed simp
  show ?thesis
    by (rule batch_dir [OF _ b(2)]) (use assms b(1,3) task in \<open>blast+\<close>)
qed

end
