(* ===== verification/Irods_Validate.thy ===== *)
theory Irods_Validate
  imports Irods_Connection
begin

text \<open>
  \<open>GetConnectionInfo\<close> of pkg/client/irods/connection_info.go: the corrections and the checks
  that follow the reading of the configuration, and what an accepted connection satisfies.
  The argument \<open>configs\<close> lists the merged configuration in the order \<open>range\<close> visits it.
\<close>

abbreviation invalid :: "string \<Rightarrow> go_error" where
  "invalid msg \<equiv> StatusErr InvalidArgument msg []"

fun check_mappings :: "string list \<Rightarrow> vpath_mapping list \<Rightarrow> go_error option" where
  "check_mappings whitelist [] = None"
| "check_mappings whitelist (mapping # ms) =
     (if \<not> IsMountPathAllowed whitelist (IRODSPath mapping)
      then Some (StatusErr InvalidArgument ''Argument path %q is not allowed to mount by the whitelist''
        [AStr (IRODSPath mapping)])
      else check_mappings whitelist ms)"

text \<open>The checks from the proxy access setting on (lines 272 to 346 of the source).\<close>

definition validate_conn :: "irods_lib \<Rightarrow> gomap \<Rightarrow> conn_info \<Rightarrow> go_error + conn_info" where
  "validate_conn lib configs ci =
    (if GetConfigEnforceProxyAccess configs \<and> IsAnonymousUser ci
     then Inl (invalid ''Argument user must be a non-anonymous user'')
     else if GetConfigEnforceProxyAccess configs \<and> length (ClientUsername ci) = 0
     then Inl (invalid ''Argument client username must be given'')
     else if GetConfigEnforceProxyAccess configs \<and> Username ci = ClientUsername ci
     then Inl (StatusErr InvalidArgument
       ''Argument client username cannot be the same as user - user %q, client user %q''
       [AStr (Username ci), AStr (ClientUsername ci)])
     else if length (Host ci) = 0 then Inl (invalid ''Argument host must be given'')
     else if Port ci \<le> 0 then Inl (invalid ''Argument port must be given'')
     else if length (Username ci) = 0 \<and> length (ClientUsername ci) = 0
     then Inl (invalid ''Argument username or client username must be given'')
     else if length (ZoneName ci) = 0 \<and> length (ClientZoneName ci) = 0
     then Inl (invalid ''Argument zone name or client zone name must be given'')
     else if Profile ci \<and> ProfileServicePort ci \<le> 0
     then Inl (invalid ''Argument profile service port must be given'')
     else if length (PathMappings ci) = 0
     then Inl (invalid ''Argument path or path mappings must be given'')
     else
       (case lib_validate_mappings lib (PathMappings ci) of
          Some err \<Rightarrow> Inl (StatusErr InvalidArgument ''Path mapping is invalid - %q'' [AErr err])
        | None \<Rightarrow>
            if UID ci < 0 then Inl (invalid ''Argument uid must not be a negative value'')
            else if GID ci < 0 then Inl (invalid ''Argument gid must not be a negative value'')
            else if ReadAheadMax ci < 0
            then Inl (invalid ''Argument read_ahead must not be a negative value'')
            else
              (case (if length (PoolEndpoint ci) > 0
                     then ParsePoolServerEndpoint (lib_parse_uri lib) (PoolEndpoint ci)
                     else Inr ([], [])) of
                 Inl err \<Rightarrow> Inl err
               | Inr _ \<Rightarrow>
                   (case check_mappings (GetConfigMountPathWhitelist configs) (PathMappings ci) of
                      Some err \<Rightarrow> Inl err
                    | None \<Rightarrow>
                        Inr (if MountTimeout ci \<le> 0 then ci\<lparr>MountTimeout := 60\<rparr> else ci)))))"

text \<open>The corrections and the first checks (lines 247 to 270).\<close>

definition correct_conn :: "irods_lib \<Rightarrow> conn_info \<Rightarrow> go_error + conn_info" where
  "correct_conn lib ci0 =
    (let ci1 = set_config (lib_fix_auth lib (get_config ci0)) ci0 in
     case lib_fix_system_user lib (get_config ci1) of
       (cfg, Some err) \<Rightarrow>
         Inl (StatusErr InvalidArgument ''Argument systemuser/uid/gid are not valid - %q'' [AErr err])
     | (cfg, None) \<Rightarrow>
         let ci2 = set_config cfg ci1;
             ci3 = (if length (OverlayFSDriver ci2) = 0
               then ci2\<lparr>OverlayFSDriver := overlay_driver_string OverlayDriverType\<rparr> else ci2);
             ci4 = (if length (Username ci3) = 0 \<and> length (ClientUsername ci3) = 0
               then SetAnonymousUser ci3 else ci3)
         in if length (Password ci4) = 0 \<and> \<not> IsAnonymousUser ci4
            then Inl (invalid ''Argument password must be given'')
            else if IsValidClientUser ci4
            then Inl (invalid ''Argument client username must be a non-anonymous user'')
            else Inr ci4)"

definition irods_GetConnectionInfo :: "irods_lib \<Rightarrow> gomap \<Rightarrow> go_error + conn_info" where
  "irods_GetConnectionInfo lib configs =
    (case irods_getConnectionInfoFromMap lib configs (NewIRODSFSConnectionInfo lib) of
       Inl err \<Rightarrow> Inl err
     | Inr ci0 \<Rightarrow>
         (case correct_conn lib ci0 of
            Inl err \<Rightarrow> Inl err
          | Inr ci4 \<Rightarrow> validate_conn lib configs ci4))"


section \<open>What an accepted connection satisfies\<close>

lemma check_mappings_None:
  "check_mappings ws ms = None \<longleftrightarrow> (\<forall>m \<in> set ms. IsMountPathAllowed ws (IRODSPath m))"
  by (induction ms) auto

definition account_ok :: "gomap \<Rightarrow> conn_info \<Rightarrow> bool" where
  "account_ok configs ci \<longleftrightarrow>
     (Password ci \<noteq> [] \<or> IsAnonymousUser ci) \<and>
     (Username ci \<noteq> [] \<or> ClientUsername ci \<noteq> []) \<and>
     (Username ci \<noteq> [] \<and> \<not> IsAnonymousUser ci \<longrightarrow> ClientUsername ci \<noteq> irodsfsAnonymousUser) \<and>
     (GetConfigEnforceProxyAccess configs \<longrightarrow>
        \<not> IsAnonymousUser ci \<and> ClientUsername ci \<noteq> [] \<and> ClientUsername ci \<noteq> Username ci)"

definition endpoint_ok :: "irods_lib \<Rightarrow> conn_info \<Rightarrow> bool" where
  "endpoint_ok lib ci \<longleftrightarrow>
     Host ci \<noteq> [] \<and> 0 < Port ci \<and> (ZoneName ci \<noteq> [] \<or> ClientZoneName ci \<noteq> []) \<and>
     (Profile ci \<longrightarrow> 0 < ProfileServicePort ci) \<and> 0 \<le> UID ci \<and> 0 \<le> GID ci \<and>
     0 \<le> ReadAheadMax ci \<and> 0 < MountTimeout ci \<and>
     (PoolEndpoint ci \<noteq> [] \<longrightarrow> \<not> isl (ParsePoolServerEndpoint (lib_parse_uri lib) (PoolEndpoint ci)))"

definition mappings_ok :: "irods_lib \<Rightarrow> gomap \<Rightarrow> conn_info \<Rightarrow> bool" where
  "mappings_ok lib configs ci \<longleftrightarrow>
     PathMappings ci \<noteq> [] \<and> lib_validate_mappings lib (PathMappings ci) = None \<and>
     (\<forall>m \<in> set (PathMappings ci). IsMountPathAllowed (GetConfigMountPathWhitelist configs) (IRODSPath m))"

lemma validate_conn_result:
  assumes "validate_conn lib configs ci = Inr ci'"
  shows "ci' = (if MountTimeout ci \<le> 0 then ci\<lparr>MountTimeout := 60\<rparr> else ci)"
  using assms by (simp add: validate_conn_def split: if_splits option.splits sum.splits)

lemma validate_conn_sound:
  assumes "validate_conn lib configs ci = Inr ci'"
  shows "endpoint_ok lib ci'" and "mappings_ok lib configs ci'"
    and "GetConfigEnforceProxyAccess configs \<longrightarrow>
        \<not> IsAnonymousUser ci \<and> ClientUsername ci \<noteq> [] \<and> ClientUsername ci \<noteq> Username ci"
    and "Username ci \<noteq> [] \<or> ClientUsername ci \<noteq> []"
proof -
  note r = validate_conn_result [OF assms]
  show "endpoint_ok lib ci'"
    using assms unfolding r
    by (auto simp: validate_conn_def endpoint_ok_def split: if_splits option.splits sum.splits)
  show "mappings_ok lib configs ci'"
    using assms unfolding r
    by (auto simp: validate_conn_def mappings_ok_def check_mappings_None split: if_splits option.splits sum.splits)
  show "GetConfigEnforceProxyAccess configs \<longrightarrow>
        \<not> IsAnonymousUser ci \<and> ClientUsername ci \<noteq> [] \<and> ClientUsername ci \<noteq> Username ci"
    using assms by (auto simp: validate_conn_def split: if_splits)
  show "Username ci \<noteq> [] \<or> ClientUsername ci \<noteq> []"
    using assms by (auto simp: validate_conn_def split: if_splits)
qed

lemma correct_conn_sound:
  assumes "correct_conn lib ci0 = Inr ci"
  shows "Password ci \<noteq> [] \<or> IsAnonymousUser ci" and "\<not> IsValidClientUser ci"
  using assms by (auto simp: correct_conn_def Let_def split: prod.splits option.splits if_splits)

lemma irods_GetConnectionInfo_split:
  assumes "irods_GetConnectionInfo lib configs = Inr ci"
  obtains ci0 ci4 where "irods_getConnectionInfoFromMap lib configs (NewIRODSFSConnectionInfo lib) = Inr ci0"
    and "correct_conn lib ci0 = Inr ci4" and "validate_conn lib configs ci4 = Inr ci"
  using assms by (auto simp: irods_GetConnectionInfo_def split: sum.splits)

lemma account_ok_result:
  assumes "irods_GetConnectionInfo lib configs = Inr ci"
  shows "account_ok configs ci"
proof -
  from assms obtain ci0 ci4 where c: "correct_conn lib ci0 = Inr ci4"
    and v: "validate_conn lib configs ci4 = Inr ci"
    by (rule irods_GetConnectionInfo_split)
  have same: "Username ci = Username ci4" "ClientUsername ci = ClientUsername ci4"
    "Password ci = Password ci4"
    using validate_conn_result [OF v] by simp_all
  show ?thesis
    using correct_conn_sound [OF c] validate_conn_sound(3,4) [OF v]
    by (auto simp: account_ok_def same IsAnonymousUser_def IsValidClientUser_def)
qed

end
