(* ===== verification/Volume_Types.thy ===== *)
theory Volume_Types
  imports Irods_Connection
begin

text \<open>
  The data of pkg/volumeinfo: the two kinds of volume the driver remembers, and the interface of the
  JSON text of a map of volumes, a \<open>codec\<close> (marshal, validity test, unmarshal into an existing map) with
  its law \<open>codec_reads_back\<close>; Volume_Json has the codecs themselves. A map of volumes is the list of its
  entries, keys distinct.
\<close>

record controller_volume =
  cv_ID :: string
  cv_Name :: string
  cv_RootPath :: string
  cv_Path :: string
  cv_ConnectionInfo :: conn_info
  cv_RetainData :: bool

record node_volume =
  nv_ID :: string
  nv_StagingMountPath :: string
  nv_MountPath :: string
  nv_StagingMountOptions :: "string list"
  nv_MountOptions :: "string list"
  nv_ClientType :: string
  nv_ClientConfig :: gomap
  nv_DynamicVolumeProvisioning :: bool
  nv_StageVolume :: bool

type_synonym 'v volumes = "(string \<times> 'v) list"

text \<open>
  \<open>cd_unmarshal text old\<close> is \<open>json.Unmarshal(text, &m)\<close> where \<open>m\<close> is \<open>old\<close>: the entries are added
  to the map that is there, and some may have been added when it gives an error.
\<close>

record 'v codec =
  cd_marshal :: "'v volumes \<Rightarrow> go_error + string"
  cd_valid :: "string \<Rightarrow> bool"
  cd_unmarshal :: "string \<Rightarrow> 'v volumes \<Rightarrow> 'v volumes \<times> go_error option"

text \<open>
  What is marshalled is a JSON text, and unmarshalled into an empty map it is the map again, each volume
  up to \<open>norm\<close> (the order in which a list holds the entries of a map).
\<close>

definition codec_reads_back :: "('v \<Rightarrow> 'v) \<Rightarrow> 'v codec \<Rightarrow> 'v volumes \<Rightarrow> bool" where
  "codec_reads_back norm cd vs \<longleftrightarrow>
     (case cd_marshal cd vs of
        Inl _ \<Rightarrow> True
      | Inr s \<Rightarrow> s \<noteq> [] \<and> cd_valid cd s \<and>
          (case cd_unmarshal cd s [] of
             (vs', err) \<Rightarrow> err = None \<and> distinct (map fst vs') \<and> map_of vs' = map_option norm \<circ> map_of vs))"

end
