(* ===== verification/Json_String.thy ===== *)
theory Json_String
  imports Go_Strings
begin

text \<open>
  The strings of encoding/json: text in UTF-8, how \<open>Marshal\<close> writes it between quotes, and how \<open>Unmarshal\<close>
  reads it. Bytes that are no UTF-8 become the replacement character, both ways; so what was read is
  in UTF-8, and text in UTF-8 is read back as it was written.
\<close>

section \<open>UTF-8\<close>

abbreviation byte :: "char \<Rightarrow> nat" where
  "byte c \<equiv> of_char c"

text \<open>The ranges of the bytes that follow a first byte; none for a byte that starts no character.\<close>

definition rune_ranges :: "nat \<Rightarrow> (nat \<times> nat) list option" where
  "rune_ranges n =
     (if n < 0x80 then Some []
      else if 0xC2 \<le> n \<and> n \<le> 0xDF then Some [(0x80, 0xBF)]
      else if 0xE0 \<le> n \<and> n \<le> 0xEF then
        Some [(if n = 0xE0 then 0xA0 else 0x80, if n = 0xED then 0x9F else 0xBF), (0x80, 0xBF)]
      else if 0xF0 \<le> n \<and> n \<le> 0xF4 then
        Some [(if n = 0xF0 then 0x90 else 0x80, if n = 0xF4 then 0x8F else 0xBF), (0x80, 0xBF), (0x80, 0xBF)]
      else None)"

fun in_ranges :: "(nat \<times> nat) list \<Rightarrow> string \<Rightarrow> bool" where
  "in_ranges [] s = True"
| "in_ranges ((lo, hi) # rs) [] = False"
| "in_ranges ((lo, hi) # rs) (c # s) = (lo \<le> byte c \<and> byte c \<le> hi \<and> in_ranges rs s)"

text \<open>How many bytes after the first belong to the character (\<open>utf8.DecodeRune\<close>).\<close>

definition rune_tail :: "char \<Rightarrow> string \<Rightarrow> nat option" where
  "rune_tail c s =
     (case rune_ranges (byte c) of
        None \<Rightarrow> None
      | Some rs \<Rightarrow> if in_ranges rs s then Some (length rs) else None)"

text \<open>The characters of a text, as their bytes; \<^const>\<open>None\<close> is a byte that belongs to no character.\<close>

fun runes :: "string \<Rightarrow> string option list" where
  "runes [] = []"
| "runes (c # s) =
     (case rune_tail c s of
        None \<Rightarrow> None # runes s
      | Some k \<Rightarrow> Some (c # take k s) # runes (drop k s))"

definition utf8 :: "string \<Rightarrow> bool" where
  "utf8 s \<longleftrightarrow> None \<notin> set (runes s)"

definition encode_rune :: "nat \<Rightarrow> string" where
  "encode_rune n =
     (if n < 0x80 then [char_of n]
      else if n < 0x800 then [char_of (0xC0 + n div 64), char_of (0x80 + n mod 64)]
      else if n < 0x10000 then
        [char_of (0xE0 + n div 4096), char_of (0x80 + n div 64 mod 64), char_of (0x80 + n mod 64)]
      else [char_of (0xF0 + n div 262144), char_of (0x80 + n div 4096 mod 64),
        char_of (0x80 + n div 64 mod 64), char_of (0x80 + n mod 64)])"

definition replacement :: string where
  "replacement = [CHR 0xEF, CHR 0xBF, CHR 0xBD]"


section \<open>Strings of a JSON text\<close>

abbreviation quote :: char where "quote \<equiv> CHR 0x22"
abbreviation backslash :: char where "backslash \<equiv> CHR 0x5C"

definition hex_digit :: "nat \<Rightarrow> char" where
  "hex_digit n = (if n < 10 then char_of (48 + n) else char_of (87 + n))"

text \<open>\<open>appendString\<close> with the escapes for HTML, which \<open>Marshal\<close> makes.\<close>

definition json_char :: "char \<Rightarrow> string" where
  "json_char c =
     (if c = quote \<or> c = backslash then [backslash, c]
      else if c = CHR 0x08 then [backslash, CHR ''b'']
      else if c = CHR 0x0C then [backslash, CHR ''f'']
      else if c = CHR 0x0A then [backslash, CHR ''n'']
      else if c = CHR 0x0D then [backslash, CHR ''r'']
      else if c = CHR 0x09 then [backslash, CHR ''t'']
      else if byte c < 0x20 \<or> c = CHR ''<'' \<or> c = CHR ''>'' \<or> c = CHR ''&''
      then [backslash, CHR ''u'', CHR ''0'', CHR ''0'', hex_digit (byte c div 16), hex_digit (byte c mod 16)]
      else [c])"

fun json_rune :: "string option \<Rightarrow> string" where
  "json_rune None = backslash # ''ufffd''"
| "json_rune (Some r) =
     (if length r = 1 then json_char (hd r)
      else if r = [CHR 0xE2, CHR 0x80, CHR 0xA8] then backslash # ''u2028''
      else if r = [CHR 0xE2, CHR 0x80, CHR 0xA9] then backslash # ''u2029''
      else r)"

definition json_body :: "string \<Rightarrow> string" where
  "json_body s = concat (map json_rune (runes s))"

definition json_string :: "string \<Rightarrow> string" where
  "json_string s = quote # json_body s @ [quote]"

definition hex_val :: "char \<Rightarrow> nat option" where
  "hex_val c = (let n = byte c in
     if 48 \<le> n \<and> n \<le> 57 then Some (n - 48)
     else if 97 \<le> n \<and> n \<le> 102 then Some (n - 87)
     else if 65 \<le> n \<and> n \<le> 70 then Some (n - 55)
     else None)"

fun hex_vals :: "nat \<Rightarrow> nat \<Rightarrow> string \<Rightarrow> nat option" where
  "hex_vals 0 n s = Some n"
| "hex_vals (Suc k) n [] = None"
| "hex_vals (Suc k) n (c # s) = (case hex_val c of None \<Rightarrow> None | Some d \<Rightarrow> hex_vals k (16 * n + d) s)"

definition getu4 :: "string \<Rightarrow> nat option" where
  "getu4 s = (if take 2 s = [backslash, CHR ''u''] then hex_vals 4 0 (drop 2 s) else None)"

text \<open>A character that is escaped as two surrogates, or the replacement character for one alone.\<close>

definition surrogate :: "nat \<Rightarrow> bool" where
  "surrogate n \<longleftrightarrow> 0xD800 \<le> n \<and> n < 0xE000"

definition surrogate_pair :: "nat \<Rightarrow> nat option \<Rightarrow> nat option" where
  "surrogate_pair hi lo =
     (case lo of
        None \<Rightarrow> None
      | Some l \<Rightarrow>
          if 0xD800 \<le> hi \<and> hi < 0xDC00 \<and> 0xDC00 \<le> l \<and> l < 0xE000
          then Some (0x10000 + (hi - 0xD800) * 0x400 + (l - 0xDC00)) else None)"

definition simple_escape :: "char \<Rightarrow> char option" where
  "simple_escape e =
     (if e = quote \<or> e = backslash \<or> e = CHR ''/'' then Some e
      else if e = CHR ''b'' then Some (CHR 0x08)
      else if e = CHR ''f'' then Some (CHR 0x0C)
      else if e = CHR ''n'' then Some (CHR 0x0A)
      else if e = CHR ''r'' then Some (CHR 0x0D)
      else if e = CHR ''t'' then Some (CHR 0x09)
      else None)"

text \<open>\<open>unquote\<close>: what stands between the quotes, decoded.\<close>

fun unquote :: "string \<Rightarrow> string option" where
  "unquote [] = Some []"
| "unquote (c # s) =
     (if c = backslash then
        (case getu4 (c # s) of
           Some n \<Rightarrow>
             if \<not> surrogate n then map_option ((@) (encode_rune n)) (unquote (drop 5 s))
             else (case surrogate_pair n (getu4 (drop 5 s)) of
                     Some m \<Rightarrow> map_option ((@) (encode_rune m)) (unquote (drop 11 s))
                   | None \<Rightarrow> map_option ((@) replacement) (unquote (drop 5 s)))
         | None \<Rightarrow>
             (case s of
                [] \<Rightarrow> None
              | e # s \<Rightarrow>
                  (case simple_escape e of
                     None \<Rightarrow> None
                   | Some x \<Rightarrow> map_option ((#) x) (unquote s))))
      else if c = quote \<or> byte c < 0x20 then None
      else (case rune_tail c s of
              None \<Rightarrow> map_option ((@) replacement) (unquote s)
            | Some k \<Rightarrow> map_option ((@) (c # take k s)) (unquote (drop k s))))"


section \<open>Strings read back\<close>

lemma in_ranges_length: "in_ranges rs s \<Longrightarrow> length rs \<le> length s"
  by (induction rs s rule: in_ranges.induct) auto

lemma in_ranges_take: "in_ranges rs s \<Longrightarrow> in_ranges rs (take (length rs) s @ t)"
  by (induction rs s rule: in_ranges.induct) auto

lemma rune_tail_length: "rune_tail c s = Some k \<Longrightarrow> k \<le> length s"
  by (auto simp: rune_tail_def in_ranges_length split: option.splits if_splits)

lemma rune_tail_take: "rune_tail c s = Some k \<Longrightarrow> rune_tail c (take k s @ t) = Some k"
  by (auto simp: rune_tail_def in_ranges_take split: option.splits if_splits)

lemma rune_tail_ascii [simp]: "byte c < 0x80 \<Longrightarrow> rune_tail c s = Some 0"
  by (simp add: rune_tail_def rune_ranges_def)

lemma rune_tail_pos: "rune_tail c s = Some k \<Longrightarrow> 0x80 \<le> byte c \<Longrightarrow> 0 < k"
  by (auto simp: rune_tail_def rune_ranges_def split: if_splits)

text \<open>One character.\<close>

definition is_rune :: "string \<Rightarrow> bool" where
  "is_rune r \<longleftrightarrow> r \<noteq> [] \<and> rune_tail (hd r) (tl r) = Some (length r - 1)"

lemma is_rune_Cons: "is_rune (c # s) \<longleftrightarrow> rune_tail c s = Some (length s)"
  by (simp add: is_rune_def)

lemma rune_tail_append: "rune_tail c s = Some (length s) \<Longrightarrow> rune_tail c (s @ t) = Some (length s)"
  using rune_tail_take [of c s "length s" t] by simp

lemma runes_append: "is_rune r \<Longrightarrow> runes (r @ t) = Some r # runes t"
  by (cases r) (auto simp: is_rune_Cons rune_tail_append, simp add: is_rune_def)

lemma utf8_Nil [simp]: "utf8 []"
  by (simp add: utf8_def)

lemma utf8_append [simp]: "is_rune r \<Longrightarrow> utf8 (r @ t) = utf8 t"
  by (simp add: utf8_def runes_append)

lemma utf8_induct [consumes 1, case_names Nil rune]:
  assumes "utf8 s" and "P []" and "\<And>r t. is_rune r \<Longrightarrow> utf8 t \<Longrightarrow> P t \<Longrightarrow> P (r @ t)"
  shows "P s"
  using assms(1)
proof (induction s rule: runes.induct)
  case (2 c s)
  then obtain k where k: "rune_tail c s = Some k"
    by (auto simp: utf8_def split: option.splits)
  with 2(3) have "utf8 (drop k s)" by (auto simp: utf8_def)
  moreover have "is_rune (c # take k s)"
    using rune_tail_take [OF k, of "[]"] rune_tail_length [OF k] by (simp add: is_rune_Cons)
  ultimately have "P ((c # take k s) @ drop k s)"
    using assms(3) 2(2) [OF k] by blast
  then show ?case by simp
qed (rule assms(2))

lemma json_body_Nil [simp]: "json_body [] = []"
  by (simp add: json_body_def)

lemma json_body_append: "is_rune r \<Longrightarrow> json_body (r @ t) = json_rune (Some r) @ json_body t"
  by (simp add: json_body_def runes_append)

text \<open>A character is one byte below 128, or it starts with a greater one.\<close>

lemma rune_cases:
  assumes "is_rune r"
  obtains c where "r = [c]" and "byte c < 0x80" | c s where "r = c # s" and "0x80 \<le> byte c" and "s \<noteq> []"
proof -
  obtain c s where r: "r = c # s" using assms by (auto simp: is_rune_def neq_Nil_conv)
  show thesis
  proof (cases "byte c < 0x80")
    case True
    with assms r have "s = []" by (simp add: is_rune_Cons)
    with True r that(1) show thesis by blast
  next
    case False
    with assms r rune_tail_pos [of c s "length s"] have "s \<noteq> []" by (auto simp: is_rune_Cons)
    with False r that(2) show thesis by simp
  qed
qed

lemma hex_val_digit: "n < 16 \<Longrightarrow> hex_val (hex_digit n) = Some n"
  by (simp add: hex_val_def hex_digit_def Let_def)

lemma hex_vals_4:
  "hex_vals 4 0 (a # b # c # d # t) = Option.bind (hex_val a) (\<lambda>i. Option.bind (hex_val b) (\<lambda>j.
     Option.bind (hex_val c) (\<lambda>k. map_option (\<lambda>l. 16 * (16 * (16 * i + j) + k) + l) (hex_val d))))"
proof -
  have four: "4 = Suc (Suc (Suc (Suc 0)))" by simp
  show ?thesis unfolding four by (auto split: option.splits)
qed

lemma getu4_u: "getu4 (backslash # CHR ''u'' # t) = hex_vals 4 0 t"
  by (simp add: getu4_def)

lemma getu4_byte:
  assumes "n < 256"
  shows "getu4 (backslash # CHR ''u'' # CHR ''0'' # CHR ''0'' # hex_digit (n div 16) # hex_digit (n mod 16) # t) = Some n"
proof -
  have "n div 16 < 16" using assms by simp
  then have "hex_val (hex_digit (n div 16)) = Some (n div 16)" "hex_val (hex_digit (n mod 16)) = Some (n mod 16)"
    by (simp_all only: hex_val_digit pos_mod_bound mod_less_divisor)
  moreover have "hex_val (CHR ''0'') = Some 0" by (simp add: hex_val_def)
  ultimately show ?thesis unfolding getu4_u hex_vals_4 by simp
qed

declare unquote.simps(2) [simp del]

lemma unquote_escape:
  "getu4 (backslash # s) = Some n \<Longrightarrow> \<not> surrogate n \<Longrightarrow>
     unquote (backslash # s) = map_option ((@) (encode_rune n)) (unquote (drop 5 s))"
  by (simp add: unquote.simps(2))

lemma unquote_simple: "simple_escape e = Some x \<Longrightarrow> unquote (backslash # e # t) = map_option ((#) x) (unquote t)"
proof -
  assume e: "simple_escape e = Some x"
  then have "e \<noteq> CHR ''u''" by (auto simp: simple_escape_def)
  then have "getu4 (backslash # e # t) = None" by (simp add: getu4_def)
  with e show ?thesis by (simp add: unquote.simps(2))
qed

lemma unquote_plain:
  "c \<noteq> backslash \<Longrightarrow> c \<noteq> quote \<Longrightarrow> 0x20 \<le> byte c \<Longrightarrow> rune_tail c s = Some k \<Longrightarrow>
     unquote (c # s) = map_option ((@) (c # take k s)) (unquote (drop k s))"
  by (simp add: unquote.simps(2))

lemma unquote_hex:
  assumes "byte c < 0x80"
  shows "unquote (backslash # CHR ''u'' # CHR ''0'' # CHR ''0'' # hex_digit (byte c div 16) # hex_digit (byte c mod 16) # t) =
    map_option ((#) c) (unquote t)"
proof -
  have "encode_rune (byte c) = [c]" using assms by (simp add: encode_rune_def)
  moreover have "\<not> surrogate (byte c)" using assms by (simp add: surrogate_def)
  moreover have "(@) [c] = (#) c" by (simp add: fun_eq_iff)
  ultimately show ?thesis
    using unquote_escape [OF getu4_byte [of "byte c" t]] assms by simp
qed

lemma simple_escapes:
  "simple_escape quote = Some quote" "simple_escape backslash = Some backslash"
  "simple_escape (CHR ''b'') = Some (CHR 0x08)" "simple_escape (CHR ''f'') = Some (CHR 0x0C)"
  "simple_escape (CHR ''n'') = Some (CHR 0x0A)" "simple_escape (CHR ''r'') = Some (CHR 0x0D)"
  "simple_escape (CHR ''t'') = Some (CHR 0x09)"
  by (simp_all add: simple_escape_def)

lemma unquote_json_char:
  assumes "byte c < 0x80"
  shows "unquote (json_char c @ t) = map_option ((#) c) (unquote t)"
proof -
  have "unquote (c # t) = map_option ((#) c) (unquote t)" if "c \<noteq> backslash" "c \<noteq> quote" "\<not> byte c < 0x20"
  proof -
    have "(@) [c] = (#) c" by (simp add: fun_eq_iff)
    with that assms unquote_plain [of c t 0] show ?thesis by simp
  qed
  then show ?thesis
    using unquote_hex [OF assms, of t] unquote_simple [OF simple_escapes(1)] unquote_simple [OF simple_escapes(2)]
      unquote_simple [OF simple_escapes(3)] unquote_simple [OF simple_escapes(4)] unquote_simple [OF simple_escapes(5)]
      unquote_simple [OF simple_escapes(6)] unquote_simple [OF simple_escapes(7)]
    unfolding json_char_def by (simp split: if_splits)
qed

text \<open>What \<open>appendString\<close> makes of a text in UTF-8 is read back as the text.\<close>

lemma unquote_json_rune:
  assumes "is_rune r"
  shows "unquote (json_rune (Some r) @ t) = map_option ((@) r) (unquote t)"
  using assms
proof (cases rule: rune_cases)
  case (1 c)
  moreover have "(@) [c] = (#) c" by (simp add: fun_eq_iff)
  ultimately show ?thesis using unquote_json_char [of c t] by simp
next
  case (2 c s)
  have "char_of (226::nat) = CHR 0xE2" "char_of (128::nat) = CHR 0x80" "char_of (168::nat) = CHR 0xA8" "char_of (169::nat) = CHR 0xA9"
    by (simp_all add: char_of_eq_iff)
  then have sep: "unquote (backslash # ''u2028'' @ t) = map_option ((@) [CHR 0xE2, CHR 0x80, CHR 0xA8]) (unquote t)"
    "unquote (backslash # ''u2029'' @ t) = map_option ((@) [CHR 0xE2, CHR 0x80, CHR 0xA9]) (unquote t)"
    using unquote_escape [of "''u2028'' @ t" "0x2028"] unquote_escape [of "''u2029'' @ t" "0x2029"]
    by (simp_all add: getu4_u hex_vals_4 hex_val_def surrogate_def encode_rune_def)
  have c: "c \<noteq> backslash" "c \<noteq> quote" "0x20 \<le> byte c" using 2(2) by auto
  have "rune_tail c (s @ t) = Some (length s)" using assms 2(1) by (simp add: is_rune_Cons rune_tail_append)
  from unquote_plain [OF c this] have "unquote (r @ t) = map_option ((@) r) (unquote t)" using 2(1) by simp
  with sep 2 show ?thesis by simp
qed

lemma unquote_json_body: "utf8 s \<Longrightarrow> unquote (json_body s) = Some s"
  by (induction s rule: utf8_induct) (simp_all add: json_body_append unquote_json_rune del: json_rune.simps)

text \<open>Whatever is read is in UTF-8.\<close>

lemma byte_char_of: "n < 256 \<Longrightarrow> byte (char_of n) = n"
  by simp

lemma is_rune_3:
  fixes a b c :: nat
  assumes "a < 16" "b < 64" "c < 64" and "a = 0 \<Longrightarrow> 32 \<le> b" and "a = 13 \<Longrightarrow> b < 32"
  shows "is_rune [char_of (0xE0 + a), char_of (0x80 + b), char_of (0x80 + c)]"
proof -
  have "byte (char_of (0xE0 + a)) = 0xE0 + a" "byte (char_of (0x80 + b)) = 0x80 + b" "byte (char_of (0x80 + c)) = 0x80 + c"
    using assms by - (rule byte_char_of, simp)+
  with assms show ?thesis by (auto simp: is_rune_Cons rune_tail_def rune_ranges_def)
qed

lemma is_rune_4:
  fixes a b c d :: nat
  assumes "a < 5" "b < 64" "c < 64" "d < 64" and "a = 0 \<Longrightarrow> 16 \<le> b" and "a = 4 \<Longrightarrow> b < 16"
  shows "is_rune [char_of (0xF0 + a), char_of (0x80 + b), char_of (0x80 + c), char_of (0x80 + d)]"
proof -
  have "byte (char_of (0xF0 + a)) = 0xF0 + a" "byte (char_of (0x80 + b)) = 0x80 + b"
    "byte (char_of (0x80 + c)) = 0x80 + c" "byte (char_of (0x80 + d)) = 0x80 + d"
    using assms by - (rule byte_char_of, simp)+
  with assms show ?thesis by (auto simp: is_rune_Cons rune_tail_def rune_ranges_def)
qed

lemma is_rune_2:
  fixes a b :: nat
  assumes "2 \<le> a" "a < 32" "b < 64"
  shows "is_rune [char_of (0xC0 + a), char_of (0x80 + b)]"
proof -
  have "byte (char_of (0xC0 + a)) = 0xC0 + a" "byte (char_of (0x80 + b)) = 0x80 + b"
    using assms by - (rule byte_char_of, simp)+
  with assms show ?thesis by (simp add: is_rune_Cons rune_tail_def rune_ranges_def)
qed

lemma is_rune_encode:
  assumes "n < 0x110000" and "\<not> surrogate n"
  shows "is_rune (encode_rune n)"
proof -
  consider (1) "n < 0x80" | (2) "0x80 \<le> n" "n < 0x800" | (3) "0x800 \<le> n" "n < 0x10000" | (4) "0x10000 \<le> n"
    by linarith
  then show ?thesis
  proof cases
    case 1
    then show ?thesis by (simp add: encode_rune_def is_rune_Cons)
  next
    case 2
    then have "is_rune [char_of (0xC0 + n div 64), char_of (0x80 + n mod 64)]"
      using div_le_mono [of 128 n 64] less_mult_imp_div_less [of n 32 64] by (intro is_rune_2) simp_all
    with 2 show ?thesis by (simp add: encode_rune_def)
  next
    case 3
    let ?a = "n div 4096" and ?b = "n div 64 mod 64"
    have q: "n div 64 = 64 * ?a + ?b" "64 * (n div 64) \<le> n" "n < 64 * (n div 64) + 64" "?b < 64"
      using div_mult2_eq [of n 64 64] by simp_all
    have "is_rune [char_of (0xE0 + ?a), char_of (0x80 + ?b), char_of (0x80 + n mod 64)]"
      using 3 assms(2) q unfolding surrogate_def by (intro is_rune_3) (linarith | simp)+
    with 3 show ?thesis by (simp add: encode_rune_def)
  next
    case 4
    let ?a = "n div 262144" and ?b = "n div 4096 mod 64"
    have q: "n div 4096 = 64 * ?a + ?b" "4096 * (n div 4096) \<le> n" "n < 4096 * (n div 4096) + 4096" "?b < 64"
      using div_mult2_eq [of n 4096 64] by simp_all
    have "is_rune [char_of (0xF0 + ?a), char_of (0x80 + ?b), char_of (0x80 + n div 64 mod 64), char_of (0x80 + n mod 64)]"
      using 4 assms(1) q by (intro is_rune_4) (linarith | simp)+
    with 4 show ?thesis by (simp add: encode_rune_def)
  qed
qed

lemma is_rune_replacement: "is_rune replacement"
  by (simp add: replacement_def is_rune_Cons rune_tail_def rune_ranges_def)

lemma hex_val_less: "hex_val c = Some d \<Longrightarrow> d < 16"
  by (auto simp: hex_val_def Let_def split: if_splits)

lemma hex_vals_less: "hex_vals k n s = Some m \<Longrightarrow> m < (n + 1) * 16 ^ k"
proof (induction k n s rule: hex_vals.induct)
  case (3 k n c s)
  then obtain d where d: "hex_val c = Some d" "m < (16 * n + d + 1) * 16 ^ k" by (auto split: option.splits)
  then have "16 * n + d + 1 \<le> (n + 1) * 16" using hex_val_less by fastforce
  then have "(16 * n + d + 1) * 16 ^ k \<le> (n + 1) * 16 * 16 ^ k" by (rule mult_le_mono1)
  with d(2) have "m < (n + 1) * 16 * 16 ^ k" by (rule less_le_trans)
  then show ?case by (simp only: power_Suc mult.assoc)
qed simp_all

lemma getu4_less: "getu4 s = Some n \<Longrightarrow> n < 0x10000"
  using hex_vals_less [of 4 0 "drop 2 s" n] by (auto simp: getu4_def split: if_splits)

lemma surrogate_pair_ok: "surrogate_pair hi lo = Some m \<Longrightarrow> m < 0x110000 \<and> \<not> surrogate m"
  by (auto simp: surrogate_pair_def surrogate_def split: option.splits if_splits)

lemma is_rune_ascii: "byte c < 0x80 \<Longrightarrow> is_rune [c]"
  by (simp add: is_rune_Cons)

lemma utf8_unquote: "unquote s = Some t \<Longrightarrow> utf8 t"
proof (induction s arbitrary: t rule: unquote.induct)
  case (2 c s)
  show ?case
  proof (cases "c = backslash")
    case True
    show ?thesis
    proof (cases "getu4 (c # s)")
      case None
      with True 2 obtain e s' x t' where s: "s = e # s'" "simple_escape e = Some x" "unquote s' = Some t'" "t = x # t'"
        by (auto simp: unquote.simps(2) split: list.splits option.splits)
      with 2(1) [OF True None s(1,2)] have "utf8 t'" by simp
      moreover have "byte x < 0x80" using s(2) by (auto simp: simple_escape_def split: if_splits)
      then have "is_rune [x]" by (rule is_rune_ascii)
      ultimately show ?thesis using utf8_append [of "[x]" t'] s(4) by simp
    next
      case (Some n)
      have n: "n < 0x10000" using getu4_less [OF Some] .
      show ?thesis
        using 2(2) [OF True Some] 2(3,4) [OF True Some] 2(7) True Some surrogate_pair_ok is_rune_encode [of n] n
        by (auto simp: unquote.simps(2) is_rune_replacement is_rune_encode split: if_splits option.splits)
    qed
  next
    case False
    show ?thesis
    proof (cases "rune_tail c s")
      case None
      with False 2 show ?thesis by (auto simp: unquote.simps(2) is_rune_replacement split: if_splits)
    next
      case (Some k)
      have r: "is_rune (c # take k s)"
        using rune_tail_take [OF Some, of "[]"] rune_tail_length [OF Some] by (simp add: is_rune_Cons)
      from False Some 2 show ?thesis
        using utf8_append [OF r] by (auto simp: unquote.simps(2) split: if_splits)
    qed
  qed
qed simp

end
