(* ===== verification/Go_Json.thy ===== *)
theory Go_Json
  imports Json_String
begin

text \<open>
  Values of encoding/json, as far as the driver uses them: \<open>Marshal\<close> and \<open>MarshalIndent\<close> print a value,
  \<open>Valid\<close> and \<open>Unmarshal\<close> scan a text. The scanner is that of the library: an automaton that takes the
  bytes one by one, with a stack of the arrays and objects that are open; here it also builds the
  value. Numbers stay text.
\<close>

section \<open>Values and their text\<close>

datatype json =
    JNull | JBool bool | JNumber string | JString string
  | JArray "json list" | JObject "(string \<times> json) list"

text \<open>\<open>nl d\<close> is what stands before an entry at depth \<open>d\<close>, \<open>sp\<close> what follows a colon.\<close>

fun json_print :: "(nat \<Rightarrow> string) \<Rightarrow> string \<Rightarrow> nat \<Rightarrow> json \<Rightarrow> string"
  and json_elems :: "(nat \<Rightarrow> string) \<Rightarrow> string \<Rightarrow> nat \<Rightarrow> json list \<Rightarrow> string"
  and json_entries :: "(nat \<Rightarrow> string) \<Rightarrow> string \<Rightarrow> nat \<Rightarrow> (string \<times> json) list \<Rightarrow> string"
where
  "json_print nl sp d JNull = ''null''"
| "json_print nl sp d (JBool b) = (if b then ''true'' else ''false'')"
| "json_print nl sp d (JNumber s) = s"
| "json_print nl sp d (JString s) = json_string s"
| "json_print nl sp d (JArray js) =
     (if js = [] then ''[]'' else CHR ''['' # json_elems nl sp (Suc d) js @ nl d @ '']'')"
| "json_print nl sp d (JObject es) =
     (if es = [] then ''{}'' else CHR ''{'' # json_entries nl sp (Suc d) es @ nl d @ ''}'')"
| "json_elems nl sp d [] = []"
| "json_elems nl sp d (j # js) =
     nl d @ json_print nl sp d j @ (if js = [] then [] else CHR '','' # json_elems nl sp d js)"
| "json_entries nl sp d [] = []"
| "json_entries nl sp d ((k, j) # es) =
     nl d @ json_string k @ CHR '':'' # sp @ json_print nl sp d j
       @ (if es = [] then [] else CHR '','' # json_entries nl sp d es)"

definition json_text :: "json \<Rightarrow> string" where
  "json_text j = json_print (\<lambda>_. []) [] 0 j"

text \<open>\<open>MarshalIndent\<close> with no prefix and two spaces.\<close>

definition json_indented :: "json \<Rightarrow> string" where
  "json_indented j = json_print (\<lambda>d. CHR 0x0A # replicate (2 * d) (CHR '' '')) '' '' 0 j"


section \<open>The scanner\<close>

datatype str_state = Str_Plain | Str_Esc | Str_U nat

datatype num_state = Num_Neg | Num_1 | Num_0 | Num_Dot | Num_Dot0 | Num_E | Num_ESign | Num_E0

text \<open>
  \<open>M_Value True\<close> and \<open>M_Key True\<close> come right after the bracket that opens, where the closing one may follow.
  \<open>M_String True\<close> is a key; the bytes read are kept in reverse.
\<close>

datatype pmode =
    M_Value bool
  | M_Key bool
  | M_Colon
  | M_String bool string str_state
  | M_Number string num_state
  | M_Literal string json
  | M_After json
  | M_Error

datatype frame = F_Array "json list" | F_Object "(string \<times> json) list" string

type_synonym pstate = "pmode \<times> frame list"

definition json_space :: "char \<Rightarrow> bool" where
  "json_space c \<longleftrightarrow> c = CHR '' '' \<or> c = CHR 0x09 \<or> c = CHR 0x0A \<or> c = CHR 0x0D"

definition max_depth :: nat where
  "max_depth = 10000"

definition open_frame :: "pmode \<Rightarrow> frame \<Rightarrow> frame list \<Rightarrow> pstate" where
  "open_frame m f fs = (if length fs < max_depth then (m, f # fs) else (M_Error, fs))"

fun num_next :: "num_state \<Rightarrow> char \<Rightarrow> num_state option" where
  "num_next Num_Neg c = (if c = CHR ''0'' then Some Num_0 else if is_digit c then Some Num_1 else None)"
| "num_next Num_1 c = (if is_digit c then Some Num_1 else if c = CHR ''.'' then Some Num_Dot else if c = CHR ''e'' \<or> c = CHR ''E'' then Some Num_E else None)"
| "num_next Num_0 c = (if c = CHR ''.'' then Some Num_Dot else if c = CHR ''e'' \<or> c = CHR ''E'' then Some Num_E else None)"
| "num_next Num_Dot c = (if is_digit c then Some Num_Dot0 else None)"
| "num_next Num_Dot0 c = (if is_digit c then Some Num_Dot0 else if c = CHR ''e'' \<or> c = CHR ''E'' then Some Num_E else None)"
| "num_next Num_E c = (if c = CHR ''+'' \<or> c = CHR ''-'' then Some Num_ESign else if is_digit c then Some Num_E0 else None)"
| "num_next Num_ESign c = (if is_digit c then Some Num_E0 else None)"
| "num_next Num_E0 c = (if is_digit c then Some Num_E0 else None)"

definition num_final :: "num_state \<Rightarrow> bool" where
  "num_final st \<longleftrightarrow> st = Num_1 \<or> st = Num_0 \<or> st = Num_Dot0 \<or> st = Num_E0"

text \<open>The first byte of a value.\<close>

definition scan_value :: "bool \<Rightarrow> char \<Rightarrow> frame list \<Rightarrow> pstate" where
  "scan_value first c fs =
     (if json_space c then (M_Value first, fs)
      else if c = CHR ''{'' then open_frame (M_Key True) (F_Object [] []) fs
      else if c = CHR ''['' then open_frame (M_Value True) (F_Array []) fs
      else if c = quote then (M_String False [] Str_Plain, fs)
      else if c = CHR ''-'' then (M_Number [c] Num_Neg, fs)
      else if c = CHR ''0'' then (M_Number [c] Num_0, fs)
      else if is_digit c then (M_Number [c] Num_1, fs)
      else if c = CHR ''t'' then (M_Literal ''rue'' (JBool True), fs)
      else if c = CHR ''f'' then (M_Literal ''alse'' (JBool False), fs)
      else if c = CHR ''n'' then (M_Literal ''ull'' JNull, fs)
      else if c = CHR '']'' \<and> first then (M_After (JArray []), tl fs)
      else (M_Error, fs))"

text \<open>The byte after a value.\<close>

definition scan_after :: "json \<Rightarrow> char \<Rightarrow> frame list \<Rightarrow> pstate" where
  "scan_after j c fs =
     (if json_space c then (M_After j, fs)
      else case fs of
        F_Array js # fs' \<Rightarrow>
          if c = CHR '','' then (M_Value False, F_Array (js @ [j]) # fs')
          else if c = CHR '']'' then (M_After (JArray (js @ [j])), fs')
          else (M_Error, fs)
      | F_Object es k # fs' \<Rightarrow>
          if c = CHR '','' then (M_Key False, F_Object (es @ [(k, j)]) [] # fs')
          else if c = CHR ''}'' then (M_After (JObject (es @ [(k, j)])), fs')
          else (M_Error, fs)
      | [] \<Rightarrow> (M_Error, fs))"

definition scan_key :: "bool \<Rightarrow> char \<Rightarrow> frame list \<Rightarrow> pstate" where
  "scan_key first c fs =
     (if json_space c then (M_Key first, fs)
      else if c = quote then (M_String True [] Str_Plain, fs)
      else if c = CHR ''}'' \<and> first then (M_After (JObject []), tl fs)
      else (M_Error, fs))"

text \<open>The end of a string: a value, or the key of the innermost object.\<close>

definition end_string :: "bool \<Rightarrow> string \<Rightarrow> frame list \<Rightarrow> pstate" where
  "end_string is_key raw fs =
     (case unquote (rev raw) of
        None \<Rightarrow> (M_Error, fs)
      | Some s \<Rightarrow>
          if is_key then
            (case fs of
               F_Object es _ # fs' \<Rightarrow> (M_Colon, F_Object es s # fs')
             | _ \<Rightarrow> (M_Error, fs))
          else (M_After (JString s), fs))"

fun scan_string :: "bool \<Rightarrow> string \<Rightarrow> str_state \<Rightarrow> char \<Rightarrow> frame list \<Rightarrow> pstate" where
  "scan_string k raw Str_Plain c fs =
     (if c = quote then end_string k raw fs
      else if c = backslash then (M_String k (c # raw) Str_Esc, fs)
      else if byte c < 0x20 then (M_Error, fs)
      else (M_String k (c # raw) Str_Plain, fs))"
| "scan_string k raw Str_Esc c fs =
     (if c = CHR ''u'' then (M_String k (c # raw) (Str_U 4), fs)
      else if simple_escape c \<noteq> None then (M_String k (c # raw) Str_Plain, fs)
      else (M_Error, fs))"
| "scan_string k raw (Str_U n) c fs =
     (if hex_val c \<noteq> None then (M_String k (c # raw) (if n \<le> 1 then Str_Plain else Str_U (n - 1)), fs)
      else (M_Error, fs))"

fun scan :: "char \<Rightarrow> pstate \<Rightarrow> pstate" where
  "scan c (M_Value first, fs) = scan_value first c fs"
| "scan c (M_Key first, fs) = scan_key first c fs"
| "scan c (M_Colon, fs) =
     (if json_space c then (M_Colon, fs) else if c = CHR '':'' then (M_Value False, fs) else (M_Error, fs))"
| "scan c (M_String k raw st, fs) = scan_string k raw st c fs"
| "scan c (M_Number ds st, fs) =
     (case num_next st c of
        Some st' \<Rightarrow> (M_Number (c # ds) st', fs)
      | None \<Rightarrow> if num_final st then scan_after (JNumber (rev ds)) c fs else (M_Error, fs))"
| "scan c (M_Literal lit j, fs) =
     (case lit of
        [] \<Rightarrow> (M_Error, fs)
      | x # xs \<Rightarrow> if c = x then (if xs = [] then (M_After j, fs) else (M_Literal xs j, fs)) else (M_Error, fs))"
| "scan c (M_After j, fs) = scan_after j c fs"
| "scan c (M_Error, fs) = (M_Error, fs)"

text \<open>The value that is complete, where one is.\<close>

fun complete :: "pmode \<Rightarrow> json option" where
  "complete (M_After j) = Some j"
| "complete (M_Number ds st) = (if num_final st then Some (JNumber (rev ds)) else None)"
| "complete _ = None"

definition json_parse :: "string \<Rightarrow> json option" where
  "json_parse s = (case fold scan s (M_Value False, []) of (m, fs) \<Rightarrow> if fs = [] then complete m else None)"

text \<open>\<open>json.Valid\<close>.\<close>

definition json_valid :: "string \<Rightarrow> bool" where
  "json_valid s \<longleftrightarrow> json_parse s \<noteq> None"


section \<open>Reading back\<close>

text \<open>What can be printed and read back: text in UTF-8, numbers that are numbers, and no more levels than the scanner's.\<close>

definition num_start :: "char \<Rightarrow> num_state option" where
  "num_start c = (if c = CHR ''-'' then Some Num_Neg else if c = CHR ''0'' then Some Num_0
     else if is_digit c then Some Num_1 else None)"

fun num_run :: "num_state \<Rightarrow> string \<Rightarrow> bool" where
  "num_run st [] = num_final st"
| "num_run st (c # cs) = (case num_next st c of None \<Rightarrow> False | Some st' \<Rightarrow> num_run st' cs)"

fun number_ok :: "string \<Rightarrow> bool" where
  "number_ok [] = False"
| "number_ok (c # cs) = (case num_start c of None \<Rightarrow> False | Some st \<Rightarrow> num_run st cs)"

fun json_ok :: "nat \<Rightarrow> json \<Rightarrow> bool" where
  "json_ok n JNull = True"
| "json_ok n (JBool b) = True"
| "json_ok n (JNumber s) = number_ok s"
| "json_ok n (JString s) = utf8 s"
| "json_ok n (JArray js) = (case n of 0 \<Rightarrow> False | Suc n \<Rightarrow> list_all (json_ok n) js)"
| "json_ok n (JObject es) = (case n of 0 \<Rightarrow> False | Suc n \<Rightarrow> list_all (\<lambda>(k, j). utf8 k \<and> json_ok n j) es)"

text \<open>The text of a string.\<close>

definition plain_char :: "char \<Rightarrow> bool" where
  "plain_char c \<longleftrightarrow> c \<noteq> quote \<and> c \<noteq> backslash \<and> 0x20 \<le> byte c"

lemma scan_plain: "list_all plain_char s \<Longrightarrow>
    fold scan s (M_String k raw Str_Plain, fs) = (M_String k (rev s @ raw) Str_Plain, fs)"
  by (induction s arbitrary: raw) (auto simp: plain_char_def)

lemma scan_simple: "simple_escape e \<noteq> None \<Longrightarrow>
    fold scan [backslash, e] (M_String k raw Str_Plain, fs) = (M_String k (e # backslash # raw) Str_Plain, fs)"
  by (auto simp: simple_escape_def split: if_splits)

lemma scan_hex: "hex_val a \<noteq> None \<Longrightarrow> hex_val b \<noteq> None \<Longrightarrow> hex_val c \<noteq> None \<Longrightarrow> hex_val d \<noteq> None \<Longrightarrow>
    fold scan [backslash, CHR ''u'', a, b, c, d] (M_String k raw Str_Plain, fs) =
      (M_String k (rev [backslash, CHR ''u'', a, b, c, d] @ raw) Str_Plain, fs)"
  by simp

lemma scan_json_char:
  assumes "byte c < 0x80"
  shows "fold scan (json_char c) (M_String k raw Str_Plain, fs) = (M_String k (rev (json_char c) @ raw) Str_Plain, fs)"
proof -
  have d: "byte c div 16 < 16" "byte c mod 16 < 16" using assms by auto
  have h: "hex_val (hex_digit (byte c div 16)) \<noteq> None" "hex_val (hex_digit (byte c mod 16)) \<noteq> None"
    using hex_val_digit [OF d(1)] hex_val_digit [OF d(2)] by simp_all
  have z: "hex_val (CHR ''0'') \<noteq> None" by (simp add: hex_val_def)
  have p: "plain_char c" if "c \<noteq> quote" "c \<noteq> backslash" "\<not> byte c < 0x20" using that by (simp add: plain_char_def)
  show ?thesis
    using scan_simple [where k = k and raw = raw and fs = fs] scan_hex [OF z z h, of k raw fs]
      scan_plain [of "[c]" k raw fs] p simple_escapes
    unfolding json_char_def by (simp del: fold_simps fold.simps scan.simps)
qed

lemma in_ranges_high: "in_ranges rs s \<Longrightarrow> list_all (\<lambda>(lo, hi). 0x80 \<le> lo) rs \<Longrightarrow> length rs = length s \<Longrightarrow>
    list_all (\<lambda>c. 0x80 \<le> byte c) s"
  by (induction rs s rule: in_ranges.induct) auto

lemma rune_plain:
  assumes "is_rune (c # s)" and "0x80 \<le> byte c"
  shows "list_all plain_char (c # s)"
proof -
  obtain rs where rs: "rune_ranges (byte c) = Some rs" "in_ranges rs s" "length rs = length s"
    using assms(1) by (auto simp: is_rune_Cons rune_tail_def split: option.splits if_splits)
  have "list_all (\<lambda>(lo, hi). 0x80 \<le> lo) rs" using rs(1) by (auto simp: rune_ranges_def split: if_splits)
  from in_ranges_high [OF rs(2) this rs(3)] assms(2) show ?thesis
    by (auto simp: plain_char_def list_all_iff)
qed

lemma scan_json_rune:
  assumes "is_rune r"
  shows "fold scan (json_rune (Some r)) (M_String k raw Str_Plain, fs) =
    (M_String k (rev (json_rune (Some r)) @ raw) Str_Plain, fs)"
  using assms
proof (cases rule: rune_cases)
  case (1 c)
  then show ?thesis using scan_json_char [of c] by simp
next
  case (2 c s)
  have "list_all plain_char r" using rune_plain assms 2 by simp
  then have p: "fold scan r (M_String k raw Str_Plain, fs) = (M_String k (rev r @ raw) Str_Plain, fs)" by (rule scan_plain)
  have h: "hex_val (CHR ''2'') \<noteq> None" "hex_val (CHR ''0'') \<noteq> None" "hex_val (CHR ''8'') \<noteq> None" "hex_val (CHR ''9'') \<noteq> None"
    by (simp_all add: hex_val_def)
  show ?thesis
    using p 2 scan_hex [OF h(1,2,1,3), of k raw fs] scan_hex [OF h(1,2,1,4), of k raw fs]
    by (simp del: fold_simps fold.simps scan.simps)
qed

lemma scan_json_body:
  "utf8 s \<Longrightarrow> fold scan (json_body s) (M_String k raw Str_Plain, fs) = (M_String k (rev (json_body s) @ raw) Str_Plain, fs)"
  by (induction s arbitrary: raw rule: utf8_induct)
    (simp_all add: json_body_append scan_json_rune del: json_rune.simps scan.simps)

lemma scan_json_string:
  assumes "utf8 s"
  shows "fold scan (json_string s) (M_Value b, fs) = (M_After (JString s), fs)"
    and "fold scan (json_string s) (M_Key b, F_Object es k # fs) = (M_Colon, F_Object es s # fs)"
  using scan_json_body [OF assms, where raw = "[]"] unquote_json_body [OF assms]
  by (simp_all add: json_string_def scan_value_def scan_key_def json_space_def end_string_def is_digit_def)

text \<open>Numbers.\<close>

lemma scan_number_run:
  "num_run st cs \<Longrightarrow> \<exists>m. fold scan cs (M_Number ds st, fs) = (m, fs) \<and> complete m = Some (JNumber (rev ds @ cs))"
proof (induction st cs arbitrary: ds rule: num_run.induct)
  case (2 st c cs)
  then obtain st' where st: "num_next st c = Some st'" "num_run st' cs" by (auto split: option.splits)
  from 2(1) [OF st, of "c # ds"] st(1) show ?case by simp
qed simp

lemma digit_not_opening:
  "is_digit c \<Longrightarrow> \<not> json_space c \<and> c \<noteq> CHR ''{'' \<and> c \<noteq> CHR ''['' \<and> c \<noteq> quote \<and> c \<noteq> CHR ''-''"
  by (auto simp: is_digit_def json_space_def)

lemma scan_number:
  assumes "number_ok s"
  shows "\<exists>m. fold scan s (M_Value b, fs) = (m, fs) \<and> complete m = Some (JNumber s)"
proof -
  obtain c cs st where s: "s = c # cs" "num_start c = Some st" "num_run st cs"
    using assms by (cases s) (auto split: option.splits)
  have "scan c (M_Value b, fs) = (M_Number [c] st, fs)"
    using s(2) digit_not_opening [of c] by (auto simp: num_start_def scan_value_def json_space_def split: if_splits)
  with scan_number_run [OF s(3), of "[c]" fs] s(1) show ?thesis by simp
qed

text \<open>What comes after a value does not continue it.\<close>

definition ends_value :: "char \<Rightarrow> bool" where
  "ends_value c \<longleftrightarrow> json_space c \<or> c = CHR '','' \<or> c = CHR '']'' \<or> c = CHR ''}''"

lemma ends_valueD:
  assumes "ends_value c"
  shows "\<not> is_digit c" and "c \<noteq> CHR ''.''" and "c \<noteq> CHR ''e''" and "c \<noteq> CHR ''E''" and "c \<noteq> CHR ''+''" and "c \<noteq> CHR ''-''"
    and "c \<noteq> CHR ''0''"
  using assms by (auto simp: ends_value_def json_space_def is_digit_def)

lemma num_next_end: "ends_value c \<Longrightarrow> num_next st c = None"
  using ends_valueD [of c] by (cases st) simp_all

lemma scan_complete: "complete m = Some j \<Longrightarrow> ends_value c \<Longrightarrow> scan c (m, fs) = scan_after j c fs"
  by (cases m) (auto simp: num_next_end split: if_splits)

lemma scan_spaces_after:
  "complete m = Some j \<Longrightarrow> list_all json_space ws \<Longrightarrow> \<exists>m'. fold scan ws (m, fs) = (m', fs) \<and> complete m' = Some j"
proof (induction ws arbitrary: m)
  case (Cons c ws)
  then have "scan c (m, fs) = (M_After j, fs)"
    using scan_complete [of m j c fs] by (simp add: ends_value_def scan_after_def)
  with Cons show ?case by simp
qed simp

lemma scan_spaces_value [simp]: "list_all json_space ws \<Longrightarrow> fold scan ws (M_Value b, fs) = (M_Value b, fs)"
  by (induction ws) (auto simp: scan_value_def)

lemma scan_spaces_key [simp]: "list_all json_space ws \<Longrightarrow> fold scan ws (M_Key b, fs) = (M_Key b, fs)"
  by (induction ws) (auto simp: scan_key_def)

text \<open>A printed value is scanned as that value, whatever is open around it.\<close>

lemma scan_print:
  assumes nl: "\<And>d. list_all json_space (nl d)" and sp: "list_all json_space sp"
  shows "json_ok n j \<Longrightarrow> n + length fs \<le> max_depth \<Longrightarrow>
      \<exists>m. fold scan (json_print nl sp d j) (M_Value b, fs) = (m, fs) \<and> complete m = Some j"
    and "list_all (json_ok n) js \<Longrightarrow> n + Suc (length fs) \<le> max_depth \<Longrightarrow> js \<noteq> [] \<Longrightarrow>
      \<exists>m. fold scan (json_elems nl sp d js) (M_Value b, F_Array acc # fs) = (m, F_Array (acc @ butlast js) # fs) \<and>
        complete m = Some (last js)"
    and "list_all (\<lambda>(k, j). utf8 k \<and> json_ok n j) es \<Longrightarrow> n + Suc (length fs) \<le> max_depth \<Longrightarrow> es \<noteq> [] \<Longrightarrow>
      \<exists>m. fold scan (json_entries nl sp d es) (M_Key b, F_Object eacc k0 # fs) =
          (m, F_Object (eacc @ butlast es) (fst (last es)) # fs) \<and> complete m = Some (snd (last es))"
  using nl sp
proof (induction nl sp d j and nl sp d js and nl sp d es arbitrary: n fs b and n fs b acc and n fs b eacc k0
    rule: json_print_json_elems_json_entries.induct)
  case (1 nl sp d)
  then show ?case by (simp add: scan_value_def json_space_def is_digit_def)
next
  case (2 nl sp d b)
  then show ?case by (simp add: scan_value_def json_space_def is_digit_def)
next
  case (3 nl sp d s)
  then show ?case by (simp add: scan_number del: scan.simps)
next
  case (4 nl sp d s)
  then show ?case by (simp add: scan_json_string del: scan.simps)
next
  case (5 nl sp d js)
  obtain n' where n: "n = Suc n'" "list_all (json_ok n') js" using 5(2) by (auto split: nat.splits)
  have o: "scan (CHR ''['') (M_Value b, fs) = (M_Value True, F_Array [] # fs)"
    using 5(3) n by (simp add: scan_value_def json_space_def is_digit_def open_frame_def)
  show ?case
  proof (cases "js = []")
    case True
    with o show ?thesis by (simp add: scan_value_def json_space_def is_digit_def)
  next
    case False
    obtain m where m: "fold scan (json_elems nl sp (Suc d) js) (M_Value True, F_Array [] # fs) = (m, F_Array (butlast js) # fs)"
      "complete m = Some (last js)"
      using 5(1) [OF False n(2), of fs True "[]"] 5(3,4,5) n(1) False by auto
    obtain m' where m': "fold scan (nl d) (m, F_Array (butlast js) # fs) = (m', F_Array (butlast js) # fs)"
      "complete m' = Some (last js)"
      using scan_spaces_after [OF m(2)] 5(4) by blast
    show ?thesis
      using o m(1) m' False scan_complete [OF m'(2), of "CHR '']''"]
      by (simp add: ends_value_def scan_after_def json_space_def del: scan.simps)
  qed
next
  case (6 nl sp d es)
  obtain n' where n: "n = Suc n'" "list_all (\<lambda>(k, j). utf8 k \<and> json_ok n' j) es" using 6(2) by (auto split: nat.splits)
  have o: "scan (CHR ''{'') (M_Value b, fs) = (M_Key True, F_Object [] [] # fs)"
    using 6(3) n by (simp add: scan_value_def json_space_def is_digit_def open_frame_def)
  show ?case
  proof (cases "es = []")
    case True
    with o show ?thesis by (simp add: scan_key_def json_space_def)
  next
    case False
    let ?fs = "F_Object (butlast es) (fst (last es)) # fs"
    obtain m where m: "fold scan (json_entries nl sp (Suc d) es) (M_Key True, F_Object [] [] # fs) = (m, ?fs)"
      "complete m = Some (snd (last es))"
      using 6(1) [OF False n(2), of fs True "[]" "[]"] 6(3,4,5) n(1) False by auto
    obtain m' where m': "fold scan (nl d) (m, ?fs) = (m', ?fs)" "complete m' = Some (snd (last es))"
      using scan_spaces_after [OF m(2)] 6(4) by blast
    show ?thesis
      using o m(1) m' False scan_complete [OF m'(2), of "CHR ''}''"]
      by (simp add: ends_value_def scan_after_def json_space_def del: scan.simps)
  qed
next
  case (7 nl sp d)
  then show ?case by simp
next
  case (8 nl sp d j js)
  obtain m where m: "fold scan (json_print nl sp d j) (M_Value b, F_Array acc # fs) = (m, F_Array acc # fs)" "complete m = Some j"
    using 8(1) [of n "F_Array acc # fs" b] 8(3,4,6,7) by auto
  show ?case
  proof (cases "js = []")
    case True
    with m 8(6) show ?thesis by simp
  next
    case False
    have "scan (CHR '','') (m, F_Array acc # fs) = (M_Value False, F_Array (acc @ [j]) # fs)"
      using scan_complete [OF m(2), of "CHR '',''"] by (simp add: ends_value_def scan_after_def json_space_def)
    with m 8(2) [OF False, of n fs False "acc @ [j]"] 8(3,4,6,7) False show ?thesis by (simp del: scan.simps)
  qed
next
  case (9 nl sp d)
  then show ?case by simp
next
  case (10 nl sp d k j es)
  let ?fs = "F_Object eacc k # fs"
  have k: "fold scan (json_string k) (M_Key b, F_Object eacc k0 # fs) = (M_Colon, ?fs)"
    using 10(3) by (simp add: scan_json_string)
  obtain m where m: "fold scan (json_print nl sp d j) (M_Value False, ?fs) = (m, ?fs)" "complete m = Some j"
    using 10(1) [of n ?fs False] 10(3,4,6,7) by auto
  have colon: "scan (CHR '':'') (M_Colon, ?fs) = (M_Value False, ?fs)" by (simp add: json_space_def)
  have pre: "fold scan (nl d @ json_string k @ CHR '':'' # sp @ json_print nl sp d j) (M_Key b, F_Object eacc k0 # fs) = (m, ?fs)"
    using k m(1) 10(6,7) colon by (simp del: scan.simps)
  show ?case
  proof (cases "es = []")
    case True
    with pre m(2) show ?thesis by simp
  next
    case False
    have "scan (CHR '','') (m, ?fs) = (M_Key False, F_Object (eacc @ [(k, j)]) [] # fs)"
      using scan_complete [OF m(2), of "CHR '',''"] by (simp add: ends_value_def scan_after_def json_space_def)
    with pre 10(2) [OF False, of n fs False "eacc @ [(k, j)]" "[]"] 10(3,4,6,7) False show ?thesis
      by (simp del: scan.simps)
  qed
qed

theorem json_parse_print:
  assumes "\<And>d. list_all json_space (nl d)" and "list_all json_space sp" and "json_ok max_depth j"
  shows "json_parse (json_print nl sp d j) = Some j"
  using scan_print(1) [of nl sp max_depth j "[]" d False] assms by (auto simp: json_parse_def)

corollary json_parse_text: "json_ok max_depth j \<Longrightarrow> json_parse (json_text j) = Some j"
  unfolding json_text_def by (rule json_parse_print) simp_all

corollary json_parse_indented: "json_ok max_depth j \<Longrightarrow> json_parse (json_indented j) = Some j"
  unfolding json_indented_def by (rule json_parse_print) (simp_all add: json_space_def list_all_iff)


section \<open>What is scanned is in UTF-8\<close>

fun json_utf8 :: "json \<Rightarrow> bool" where
  "json_utf8 (JString s) = utf8 s"
| "json_utf8 (JArray js) = list_all json_utf8 js"
| "json_utf8 (JObject es) = list_all (\<lambda>(k, j). utf8 k \<and> json_utf8 j) es"
| "json_utf8 _ = True"

fun frame_utf8 :: "frame \<Rightarrow> bool" where
  "frame_utf8 (F_Array js) = list_all json_utf8 js"
| "frame_utf8 (F_Object es k) = (list_all (\<lambda>(k, j). utf8 k \<and> json_utf8 j) es \<and> utf8 k)"

fun mode_utf8 :: "pmode \<Rightarrow> bool" where
  "mode_utf8 (M_After j) = json_utf8 j"
| "mode_utf8 (M_Literal xs j) = json_utf8 j"
| "mode_utf8 _ = True"

definition pstate_utf8 :: "pstate \<Rightarrow> bool" where
  "pstate_utf8 st \<longleftrightarrow> mode_utf8 (fst st) \<and> list_all frame_utf8 (snd st)"

lemma pstate_utf8_pair: "pstate_utf8 (m, fs) \<longleftrightarrow> mode_utf8 m \<and> list_all frame_utf8 fs"
  by (simp add: pstate_utf8_def)

lemma frames_tl: "list_all frame_utf8 fs \<Longrightarrow> list_all frame_utf8 (tl fs)"
  by (cases fs) auto

lemma scan_after_utf8: "json_utf8 j \<Longrightarrow> list_all frame_utf8 fs \<Longrightarrow> pstate_utf8 (scan_after j c fs)"
  by (auto simp: scan_after_def pstate_utf8_def split: list.splits frame.splits)

lemma scan_value_utf8: "list_all frame_utf8 fs \<Longrightarrow> pstate_utf8 (scan_value b c fs)"
  by (auto simp: scan_value_def pstate_utf8_def open_frame_def frames_tl)

lemma scan_key_utf8: "list_all frame_utf8 fs \<Longrightarrow> pstate_utf8 (scan_key b c fs)"
  by (auto simp: scan_key_def pstate_utf8_def frames_tl)

lemma end_string_utf8: "list_all frame_utf8 fs \<Longrightarrow> pstate_utf8 (end_string k raw fs)"
  by (auto simp: end_string_def pstate_utf8_def dest: utf8_unquote split: option.splits list.splits frame.splits)

lemma scan_string_utf8: "list_all frame_utf8 fs \<Longrightarrow> pstate_utf8 (scan_string k raw st c fs)"
  by (cases st) (auto simp: end_string_utf8, auto simp: pstate_utf8_def)

lemma scan_utf8: "pstate_utf8 st \<Longrightarrow> pstate_utf8 (scan c st)"
proof -
  obtain m fs where st: "st = (m, fs)" by (cases st)
  assume "pstate_utf8 st"
  with st have u: "mode_utf8 m" "list_all frame_utf8 fs" by (simp_all add: pstate_utf8_def)
  have e: "pstate_utf8 (M_Error, fs)" using u by (simp add: pstate_utf8_def)
  show ?thesis
    using u e unfolding st
    by (cases m) (auto simp: scan_after_utf8 scan_value_utf8 scan_key_utf8 scan_string_utf8 pstate_utf8_pair
        split: option.splits list.splits)
qed

lemma scans_utf8: "pstate_utf8 st \<Longrightarrow> pstate_utf8 (fold scan s st)"
  by (induction s arbitrary: st) (simp_all add: scan_utf8 del: scan.simps)

lemma complete_utf8: "complete m = Some j \<Longrightarrow> mode_utf8 m \<Longrightarrow> json_utf8 j"
  by (cases m) (auto split: if_splits)

theorem json_parse_utf8: "json_parse s = Some j \<Longrightarrow> json_utf8 j"
  using scans_utf8 [of "(M_Value False, [])" s]
  by (auto simp: json_parse_def pstate_utf8_def complete_utf8 split: prod.splits if_splits)

end
