(* ===== verification/Volume_Json.thy ===== *)
theory Volume_Json
  imports Volume_Types Go_Json "HOL-Library.Char_ord" "HOL-Library.List_Lexorder"
begin

text \<open>
  The text of the volume files: what encoding/json makes of a map of \<open>NodeVolume\<close>s or \<open>ControllerVolume\<close>s by
  the tags of their fields, and how it reads one back. A map is written in the order of its keys.
  The fields of a connection that come from the iRODS packages are a parameter, \<open>conn_codec\<close>.

  Text that the driver did not write is read as the library reads it: names match without regard to
  case, unknown ones are skipped, and a value of another type leaves its field and gives an error at the end.
  The driver makes no nil list, map or volume. Where such a text has \<open>null\<close>, nil is not told from empty: in the
  place of a volume (a nil pointer) it is read as no volume, in the place of a list or a map as
  an empty one.
\<close>

section \<open>Writing\<close>

definition in_order :: "(string \<times> 'v) list \<Rightarrow> (string \<times> 'v) list" where
  "in_order es = sort_key fst es"

definition json_strings :: "string list \<Rightarrow> json" where
  "json_strings xs = JArray (map JString xs)"

definition json_gomap :: "gomap \<Rightarrow> json" where
  "json_gomap m = JObject (map (\<lambda>(k, v). (k, JString v)) (in_order m))"

definition json_node :: "node_volume \<Rightarrow> json" where
  "json_node v = JObject
     [(''id'', JString (nv_ID v)),
      (''staging_mount_path'', JString (nv_StagingMountPath v)),
      (''mount_path'', JString (nv_MountPath v)),
      (''staging_mount_options'', json_strings (nv_StagingMountOptions v)),
      (''mount_options'', json_strings (nv_MountOptions v)),
      (''client_type'', JString (nv_ClientType v)),
      (''client_config'', json_gomap (nv_ClientConfig v)),
      (''dynamic_volume_provisioning'', JBool (nv_DynamicVolumeProvisioning v)),
      (''stage_volume'', JBool (nv_StageVolume v))]"

text \<open>A connection is written as \<open>cc_to_json\<close> gives it, and read into a new one.\<close>

record conn_codec =
  cc_to_json :: "conn_info \<Rightarrow> json"
  cc_of_json :: "json \<Rightarrow> conn_info \<times> go_error option"
  cc_zero :: conn_info

definition json_controller :: "conn_codec \<Rightarrow> controller_volume \<Rightarrow> json" where
  "json_controller cc v = JObject
     [(''id'', JString (cv_ID v)),
      (''name'', JString (cv_Name v)),
      (''root_path'', JString (cv_RootPath v)),
      (''path'', JString (cv_Path v)),
      (''connection_info'', cc_to_json cc (cv_ConnectionInfo v)),
      (''retain_data'', JBool (cv_RetainData v))]"


section \<open>Reading\<close>

definition fold_char :: "char \<Rightarrow> char" where
  "fold_char c = (if 97 \<le> byte c \<and> byte c \<le> 122 then char_of (byte c - 32) else c)"

text \<open>\<open>foldName\<close>: the two characters outside ASCII that fold into it are the Kelvin sign and the long s.\<close>

fun fold_rune :: "string option \<Rightarrow> string" where
  "fold_rune None = replacement"
| "fold_rune (Some r) =
     (if length r = 1 then map fold_char r
      else if r = [CHR 0xE2, CHR 0x84, CHR 0xAA] then ''K''
      else if r = [CHR 0xC5, CHR 0xBF] then ''S''
      else r)"

definition fold_name :: "string \<Rightarrow> string" where
  "fold_name s = concat (map fold_rune (runes s))"

fun json_kind :: "json \<Rightarrow> string" where
  "json_kind JNull = ''null''" | "json_kind (JBool b) = ''bool''" | "json_kind (JNumber s) = ''number''"
| "json_kind (JString s) = ''string''" | "json_kind (JArray js) = ''array''" | "json_kind (JObject es) = ''object''"

definition type_error :: "json \<Rightarrow> string \<Rightarrow> go_error option" where
  "type_error j t = Some (XErr ''json: cannot unmarshal %s into Go value of type %s'' [AStr (json_kind j), AStr t])"

text \<open>The first error is the one reported.\<close>

definition first_error :: "go_error option \<Rightarrow> go_error option \<Rightarrow> go_error option" where
  "first_error e e' = (case e of None \<Rightarrow> e' | Some x \<Rightarrow> Some x)"

definition read_string :: "json \<Rightarrow> string \<Rightarrow> string \<times> go_error option" where
  "read_string j old = (case j of JString s \<Rightarrow> (s, None) | JNull \<Rightarrow> (old, None) | _ \<Rightarrow> (old, type_error j ''string''))"

definition read_bool :: "json \<Rightarrow> bool \<Rightarrow> bool \<times> go_error option" where
  "read_bool j old = (case j of JBool b \<Rightarrow> (b, None) | JNull \<Rightarrow> (old, None) | _ \<Rightarrow> (old, type_error j ''bool''))"

fun read_elems :: "json list \<Rightarrow> string list \<Rightarrow> string list \<times> go_error option" where
  "read_elems [] old = ([], None)"
| "read_elems (j # js) old =
     (let (x, e) = read_string j (case old of [] \<Rightarrow> [] | y # ys \<Rightarrow> y);
          (xs, e') = read_elems js (tl old)
      in (x # xs, first_error e e'))"

definition read_strings :: "json \<Rightarrow> string list \<Rightarrow> string list \<times> go_error option" where
  "read_strings j old =
     (case j of JArray js \<Rightarrow> read_elems js old | JNull \<Rightarrow> ([], None) | _ \<Rightarrow> (old, type_error j ''[]string''))"

fun read_entries :: "(string \<times> json) list \<Rightarrow> gomap \<Rightarrow> gomap \<times> go_error option" where
  "read_entries [] m = (m, None)"
| "read_entries ((k, j) # es) m =
     (let (x, e) = read_string j [];
          (m', e') = read_entries es (AList.update k x m)
      in (m', first_error e e'))"

definition read_gomap :: "json \<Rightarrow> gomap \<Rightarrow> gomap \<times> go_error option" where
  "read_gomap j old =
     (case j of JObject es \<Rightarrow> read_entries es old | JNull \<Rightarrow> ([], None) | _ \<Rightarrow> (old, type_error j ''map[string]string''))"

text \<open>A field is set from what was read for it.\<close>

definition set_field :: "('a \<Rightarrow> 'v) \<Rightarrow> 'a \<times> go_error option \<Rightarrow> 'v \<times> go_error option" where
  "set_field f r = (f (fst r), snd r)"

definition node_field :: "string \<Rightarrow> json \<Rightarrow> node_volume \<Rightarrow> node_volume \<times> go_error option" where
  "node_field k j v =
     (let n = fold_name k in
      if n = ''ID'' then set_field (\<lambda>x. v\<lparr>nv_ID := x\<rparr>) (read_string j (nv_ID v))
      else if n = ''STAGING_MOUNT_PATH'' then set_field (\<lambda>x. v\<lparr>nv_StagingMountPath := x\<rparr>) (read_string j (nv_StagingMountPath v))
      else if n = ''MOUNT_PATH'' then set_field (\<lambda>x. v\<lparr>nv_MountPath := x\<rparr>) (read_string j (nv_MountPath v))
      else if n = ''STAGING_MOUNT_OPTIONS'' then
        set_field (\<lambda>x. v\<lparr>nv_StagingMountOptions := x\<rparr>) (read_strings j (nv_StagingMountOptions v))
      else if n = ''MOUNT_OPTIONS'' then set_field (\<lambda>x. v\<lparr>nv_MountOptions := x\<rparr>) (read_strings j (nv_MountOptions v))
      else if n = ''CLIENT_TYPE'' then set_field (\<lambda>x. v\<lparr>nv_ClientType := x\<rparr>) (read_string j (nv_ClientType v))
      else if n = ''CLIENT_CONFIG'' then set_field (\<lambda>x. v\<lparr>nv_ClientConfig := x\<rparr>) (read_gomap j (nv_ClientConfig v))
      else if n = ''DYNAMIC_VOLUME_PROVISIONING'' then
        set_field (\<lambda>x. v\<lparr>nv_DynamicVolumeProvisioning := x\<rparr>) (read_bool j (nv_DynamicVolumeProvisioning v))
      else if n = ''STAGE_VOLUME'' then set_field (\<lambda>x. v\<lparr>nv_StageVolume := x\<rparr>) (read_bool j (nv_StageVolume v))
      else (v, None))"

definition controller_field :: "conn_codec \<Rightarrow> string \<Rightarrow> json \<Rightarrow> controller_volume \<Rightarrow> controller_volume \<times> go_error option" where
  "controller_field cc k j v =
     (let n = fold_name k in
      if n = ''ID'' then set_field (\<lambda>x. v\<lparr>cv_ID := x\<rparr>) (read_string j (cv_ID v))
      else if n = ''NAME'' then set_field (\<lambda>x. v\<lparr>cv_Name := x\<rparr>) (read_string j (cv_Name v))
      else if n = ''ROOT_PATH'' then set_field (\<lambda>x. v\<lparr>cv_RootPath := x\<rparr>) (read_string j (cv_RootPath v))
      else if n = ''PATH'' then set_field (\<lambda>x. v\<lparr>cv_Path := x\<rparr>) (read_string j (cv_Path v))
      else if n = ''CONNECTION_INFO'' then set_field (\<lambda>x. v\<lparr>cv_ConnectionInfo := x\<rparr>) (cc_of_json cc j)
      else if n = ''RETAIN_DATA'' then set_field (\<lambda>x. v\<lparr>cv_RetainData := x\<rparr>) (read_bool j (cv_RetainData v))
      else (v, None))"

definition zero_node :: node_volume where
  "zero_node = \<lparr>nv_ID = [], nv_StagingMountPath = [], nv_MountPath = [], nv_StagingMountOptions = [], nv_MountOptions = [],
     nv_ClientType = [], nv_ClientConfig = [], nv_DynamicVolumeProvisioning = False, nv_StageVolume = False\<rparr>"

definition zero_controller :: "conn_codec \<Rightarrow> controller_volume" where
  "zero_controller cc = \<lparr>cv_ID = [], cv_Name = [], cv_RootPath = [], cv_Path = [], cv_ConnectionInfo = cc_zero cc,
     cv_RetainData = False\<rparr>"

fun read_fields :: "(string \<Rightarrow> json \<Rightarrow> 'v \<Rightarrow> 'v \<times> go_error option) \<Rightarrow> (string \<times> json) list \<Rightarrow> 'v \<Rightarrow> 'v \<times> go_error option" where
  "read_fields fld [] v = (v, None)"
| "read_fields fld ((k, j) # es) v =
     (let (v, e) = fld k j v; (v, e') = read_fields fld es v in (v, first_error e e'))"

fun read_volumes :: "(string \<Rightarrow> json \<Rightarrow> 'v \<Rightarrow> 'v \<times> go_error option) \<Rightarrow> 'v \<Rightarrow> (string \<times> json) list \<Rightarrow> 'v volumes
    \<Rightarrow> 'v volumes \<times> go_error option" where
  "read_volumes fld zero [] vs = (vs, None)"
| "read_volumes fld zero ((k, j) # es) vs =
     (case j of
        JNull \<Rightarrow> read_volumes fld zero es (AList.delete k vs)
      | JObject fs \<Rightarrow>
          (let (v, e) = read_fields fld fs zero; (vs, e') = read_volumes fld zero es (AList.update k v vs)
           in (vs, first_error e e'))
      | _ \<Rightarrow>
          (let (vs, e') = read_volumes fld zero es (AList.update k zero vs)
           in (vs, first_error (type_error j ''volume'') e')))"

text \<open>The codec of a map of volumes, given the fields of one.\<close>

definition json_volumes :: "('v \<Rightarrow> json) \<Rightarrow> 'v volumes \<Rightarrow> json" where
  "json_volumes enc vs = JObject (map (\<lambda>(k, v). (k, enc v)) (in_order vs))"

definition volumes_text :: "('v \<Rightarrow> json) \<Rightarrow> 'v volumes \<Rightarrow> string" where
  "volumes_text enc vs = json_text (json_volumes enc vs)"

definition volume_codec :: "('v \<Rightarrow> json) \<Rightarrow> (string \<Rightarrow> json \<Rightarrow> 'v \<Rightarrow> 'v \<times> go_error option) \<Rightarrow> 'v \<Rightarrow> 'v codec" where
  "volume_codec enc fld zero = \<lparr>
     cd_marshal = (\<lambda>vs. Inr (volumes_text enc vs)),
     cd_valid = json_valid,
     cd_unmarshal = (\<lambda>s old.
       (case json_parse s of
          None \<Rightarrow> (old, Some (XErr ''invalid character'' []))
        | Some j \<Rightarrow>
            (case j of
               JObject es \<Rightarrow> read_volumes fld zero es old
             | JNull \<Rightarrow> ([], None)
             | _ \<Rightarrow> (old, type_error j ''map''))))\<rparr>"

definition node_codec :: "node_volume codec" where
  "node_codec = volume_codec json_node node_field zero_node"

definition controller_codec :: "conn_codec \<Rightarrow> controller_volume codec" where
  "controller_codec cc = volume_codec (json_controller cc) (controller_field cc) (zero_controller cc)"


section \<open>Reading back what was written\<close>

lemma update_fresh: "k \<notin> fst ` set es \<Longrightarrow> AList.update k v es = es @ [(k, v)]"
  by (induction es) auto

lemma in_order_set [simp]: "set (in_order es) = set es"
  by (simp add: in_order_def)

lemma in_order_keys: "distinct (map fst es) \<Longrightarrow> distinct (map fst (in_order es))"
  by (metis in_order_def distinct_map distinct_sort inj_on_cong set_sort)

lemma in_order_map_of:
  assumes "distinct (map fst es)"
  shows "map_of (in_order es) = map_of es"
proof -
  have "map_of (in_order es) k = Some v \<longleftrightarrow> map_of es k = Some v" for k v
    using map_of_eq_Some_iff [OF in_order_keys [OF assms]] map_of_eq_Some_iff [OF assms] by simp
  then show ?thesis by (intro ext) (metis option.exhaust)
qed

lemma map_fst_values: "map fst (map (\<lambda>(k, v). (k, f v)) es) = map fst es"
  by (induction es) auto

lemma read_elems_strings: "read_elems (map JString xs) old = (xs, None)"
  by (induction xs arbitrary: old) (simp_all add: read_string_def first_error_def)

lemma read_entries_strings:
  "distinct (map fst (m @ es)) \<Longrightarrow> read_entries (map (\<lambda>(k, v). (k, JString v)) es) m = (m @ es, None)"
proof (induction es arbitrary: m)
  case (Cons e es)
  then show ?case
    by (cases e) (simp add: read_string_def first_error_def update_fresh)
qed simp

lemma read_written:
  "read_string (JString s) old = (s, None)" "read_bool (JBool b) c = (b, None)"
  "read_strings (json_strings xs) ys = (xs, None)"
  "distinct (map fst m) \<Longrightarrow> read_gomap (json_gomap m) [] = (in_order m, None)"
  using read_entries_strings [of "[]" "in_order m"]
  by (simp_all add: read_string_def read_bool_def read_strings_def json_strings_def read_elems_strings
      read_gomap_def json_gomap_def in_order_keys)

lemma json_ok_strings: "list_all utf8 xs \<Longrightarrow> json_ok (Suc n) (json_strings xs)"
  by (simp add: json_strings_def list_all_iff)

lemma json_ok_gomap: "list_all (\<lambda>(k, v). utf8 k \<and> utf8 v) m \<Longrightarrow> json_ok (Suc n) (json_gomap m)"
  by (auto simp: json_gomap_def list_all_iff)

text \<open>
  The contract of a kind of volume: its text is an object from whose fields it is read back, up to \<open>norm\<close>.
  The file of all volumes is one object more.
\<close>

locale volume_json =
  fixes enc :: "'v \<Rightarrow> json" and fld :: "string \<Rightarrow> json \<Rightarrow> 'v \<Rightarrow> 'v \<times> go_error option" and zero :: 'v
    and norm :: "'v \<Rightarrow> 'v" and ok :: "'v \<Rightarrow> bool"
  assumes write_ok: "ok v \<Longrightarrow> json_ok (max_depth - 1) (enc v)"
    and read_write: "ok v \<Longrightarrow> \<exists>fs. enc v = JObject fs \<and> read_fields fld fs zero = (norm v, None)"
begin

lemma read_volumes_written:
  "list_all (\<lambda>(k, v). ok v) es \<Longrightarrow> distinct (map fst (vs @ es)) \<Longrightarrow>
     read_volumes fld zero (map (\<lambda>(k, v). (k, enc v)) es) vs = (vs @ map (\<lambda>(k, v). (k, norm v)) es, None)"
proof (induction es arbitrary: vs)
  case (Cons e es)
  obtain k v where e: "e = (k, v)" by (cases e)
  with Cons.prems obtain fs where "enc v = JObject fs" "read_fields fld fs zero = (norm v, None)"
    using read_write [of v] by auto
  moreover have "read_volumes fld zero (map (\<lambda>(k, v). (k, enc v)) es) (vs @ [(k, norm v)]) =
      ((vs @ [(k, norm v)]) @ map (\<lambda>(k, v). (k, norm v)) es, None)"
    using Cons.prems e by (intro Cons.IH) auto
  ultimately show ?case using Cons.prems e by (simp add: first_error_def update_fresh)
qed simp

lemma codec_reads_back:
  assumes "list_all (\<lambda>(k, v). utf8 k \<and> ok v) vs" and "distinct (map fst vs)"
  shows "codec_reads_back norm (volume_codec enc fld zero) vs"
proof -
  let ?es = "map (\<lambda>(k, v). (k, enc v)) (in_order vs)"
  have d: "max_depth = Suc (max_depth - 1)" by (simp add: max_depth_def)
  have "json_ok max_depth (JObject ?es)"
    by (subst d) (use assms(1) write_ok in \<open>auto simp: list_all_iff\<close>)
  then have p: "json_parse (json_text (JObject ?es)) = Some (JObject ?es)" by (rule json_parse_text)
  then have ne: "json_text (JObject ?es) \<noteq> []" by (auto simp: json_parse_def)
  have r: "read_volumes fld zero ?es [] = (map (\<lambda>(k, v). (k, norm v)) (in_order vs), None)"
    using read_volumes_written [of "in_order vs" "[]"] assms by (auto simp: list_all_iff in_order_keys)
  have m: "map_of (map (\<lambda>(k, v). (k, norm v)) (in_order vs)) = map_option norm \<circ> map_of vs"
    by (simp add: map_of_map in_order_map_of [OF assms(2)])
  show ?thesis
    using p r m ne in_order_keys [OF assms(2)]
    by (simp add: codec_reads_back_def volume_codec_def volumes_text_def json_volumes_def json_valid_def map_fst_values
        del: map_map)
qed

end


section \<open>Node volumes\<close>

definition norm_node :: "node_volume \<Rightarrow> node_volume" where
  "norm_node v = v\<lparr>nv_ClientConfig := in_order (nv_ClientConfig v)\<rparr>"

text \<open>What a node volume is in Go once it was read from a file: text in UTF-8, and a map with distinct keys.\<close>

definition node_ok :: "node_volume \<Rightarrow> bool" where
  "node_ok v \<longleftrightarrow> list_all utf8 ([nv_ID v, nv_StagingMountPath v, nv_MountPath v, nv_ClientType v] @
       nv_StagingMountOptions v @ nv_MountOptions v) \<and>
     list_all (\<lambda>(k, x). utf8 k \<and> utf8 x) (nv_ClientConfig v) \<and> distinct (map fst (nv_ClientConfig v))"

lemma node_names:
  "fold_name ''id'' = ''ID''" "fold_name ''staging_mount_path'' = ''STAGING_MOUNT_PATH''"
  "fold_name ''mount_path'' = ''MOUNT_PATH''" "fold_name ''staging_mount_options'' = ''STAGING_MOUNT_OPTIONS''"
  "fold_name ''mount_options'' = ''MOUNT_OPTIONS''" "fold_name ''client_type'' = ''CLIENT_TYPE''"
  "fold_name ''client_config'' = ''CLIENT_CONFIG''"
  "fold_name ''dynamic_volume_provisioning'' = ''DYNAMIC_VOLUME_PROVISIONING''" "fold_name ''stage_volume'' = ''STAGE_VOLUME''"
  by code_simp+

lemma controller_names:
  "fold_name ''name'' = ''NAME''" "fold_name ''root_path'' = ''ROOT_PATH''" "fold_name ''path'' = ''PATH''"
  "fold_name ''connection_info'' = ''CONNECTION_INFO''" "fold_name ''retain_data'' = ''RETAIN_DATA''"
  by code_simp+

lemma names_utf8:
  "list_all utf8 [''id'', ''staging_mount_path'', ''mount_path'', ''staging_mount_options'', ''mount_options'', ''client_type'',
     ''client_config'', ''dynamic_volume_provisioning'', ''stage_volume'', ''name'', ''root_path'', ''path'', ''connection_info'',
     ''retain_data'']"
  by code_simp

lemma max_depth_Suc: "max_depth - 1 = Suc (Suc (max_depth - 3))"
  by (simp add: max_depth_def)

interpretation node_json: volume_json json_node node_field zero_node norm_node node_ok
proof unfold_locales
  fix v assume v: "node_ok v"
  then show "json_ok (max_depth - 1) (json_node v)"
    using names_utf8 unfolding max_depth_Suc json_node_def
    by (simp add: node_ok_def json_ok_strings json_ok_gomap)
  have "read_fields node_field (case json_node v of JObject fs \<Rightarrow> fs | _ \<Rightarrow> []) zero_node = (norm_node v, None)"
    using v by (simp add: json_node_def node_field_def node_names set_field_def read_written zero_node_def first_error_def
        node_ok_def norm_node_def)
  then show "\<exists>fs. json_node v = JObject fs \<and> read_fields node_field fs zero_node = (norm_node v, None)"
    by (simp add: json_node_def)
qed


section \<open>Controller volumes\<close>

text \<open>What is relied on of the connection: its value is printable and is read back.\<close>

definition conn_reads_back :: "conn_codec \<Rightarrow> conn_info \<Rightarrow> bool" where
  "conn_reads_back cc ci \<longleftrightarrow> json_ok (max_depth - 2) (cc_to_json cc ci) \<and> cc_of_json cc (cc_to_json cc ci) = (ci, None)"

definition controller_ok :: "conn_codec \<Rightarrow> controller_volume \<Rightarrow> bool" where
  "controller_ok cc v \<longleftrightarrow> list_all utf8 [cv_ID v, cv_Name v, cv_RootPath v, cv_Path v] \<and> conn_reads_back cc (cv_ConnectionInfo v)"

interpretation controller_json: volume_json "json_controller cc" "controller_field cc" "zero_controller cc" id "controller_ok cc" for cc
proof unfold_locales
  fix v assume v: "controller_ok cc v"
  have "max_depth - 1 = Suc (max_depth - 2)" by (simp add: max_depth_def)
  with v show "json_ok (max_depth - 1) (json_controller cc v)"
    using names_utf8 unfolding json_controller_def by (simp add: controller_ok_def conn_reads_back_def)
  have "read_fields (controller_field cc) (case json_controller cc v of JObject fs \<Rightarrow> fs | _ \<Rightarrow> []) (zero_controller cc) = (v, None)"
    using v by (simp add: json_controller_def controller_field_def node_names controller_names set_field_def read_written
        zero_controller_def first_error_def controller_ok_def conn_reads_back_def)
  then show "\<exists>fs. json_controller cc v = JObject fs \<and> read_fields (controller_field cc) fs (zero_controller cc) = (id v, None)"
    by (simp add: json_controller_def)
qed


section \<open>Whatever is read can be written and read again\<close>

abbreviation entries_utf8 :: "(string \<times> json) list \<Rightarrow> bool" where
  "entries_utf8 es \<equiv> list_all (\<lambda>(k, j). utf8 k \<and> json_utf8 j) es"

text \<open>The type of a map of volumes: text in UTF-8, good volumes, every key once.\<close>

definition volumes_ok :: "('v \<Rightarrow> bool) \<Rightarrow> 'v volumes \<Rightarrow> bool" where
  "volumes_ok ok vs \<longleftrightarrow> list_all (\<lambda>(k, v). utf8 k \<and> ok v) vs \<and> distinct (map fst vs)"

lemma set_update: "set (AList.update k v es) \<subseteq> insert (k, v) (set es)"
  by (induction es) auto

lemma list_all_update: "list_all P es \<Longrightarrow> P (k, v) \<Longrightarrow> list_all P (AList.update k v es)"
  using set_update [of k v es] by (auto simp: list_all_iff)

lemma volumes_ok_update: "volumes_ok ok vs \<Longrightarrow> utf8 k \<Longrightarrow> ok v \<Longrightarrow> volumes_ok ok (AList.update k v vs)"
  by (simp add: volumes_ok_def list_all_update distinct_update)

lemma volumes_ok_delete: "volumes_ok ok vs \<Longrightarrow> volumes_ok ok (AList.delete k vs)"
  by (auto simp: volumes_ok_def list_all_iff AList.delete_eq distinct_map_filter)

text \<open>The errors apart, the readers go from element to element.\<close>

lemma fst_read:
  "fst (read_fields fld ((k, j) # es) v) = fst (read_fields fld es (fst (fld k j v)))"
  "fst (read_elems (j # js) old) = fst (read_string j (case old of [] \<Rightarrow> [] | y # ys \<Rightarrow> y)) # fst (read_elems js (tl old))"
  "fst (read_entries ((k, j) # es) m) = fst (read_entries es (AList.update k (fst (read_string j [])) m))"
  by (simp_all split: prod.splits)

lemma fst_read_volumes:
  "fst (read_volumes fld zero ((k, j) # es) vs) = fst (read_volumes fld zero es
     (case j of JNull \<Rightarrow> AList.delete k vs | JObject fs \<Rightarrow> AList.update k (fst (read_fields fld fs zero)) vs
      | _ \<Rightarrow> AList.update k zero vs))"
  by (cases j) (simp_all split: prod.splits)

locale volume_json_typed = volume_json +
  assumes field_ok: "json_utf8 j \<Longrightarrow> ok v \<Longrightarrow> ok (fst (fld k j v))" and zero_ok: "ok zero"
begin

lemma read_fields_ok: "entries_utf8 es \<Longrightarrow> ok v \<Longrightarrow> ok (fst (read_fields fld es v))"
proof (induction es arbitrary: v)
  case (Cons e es)
  obtain k j where e: "e = (k, j)" by (cases e)
  with Cons field_ok [of j v k] show ?case by (simp add: fst_read del: read_fields.simps read_entries.simps)
qed simp

lemma read_volumes_ok: "entries_utf8 es \<Longrightarrow> volumes_ok ok vs \<Longrightarrow> volumes_ok ok (fst (read_volumes fld zero es vs))"
proof (induction es arbitrary: vs)
  case (Cons e es)
  obtain k j where e: "e = (k, j)" by (cases e)
  with Cons.prems have k: "utf8 k" "json_utf8 j" "entries_utf8 es" by simp_all
  have d: "volumes_ok ok (AList.delete k vs)" using Cons.prems(2) by (rule volumes_ok_delete)
  have u: "volumes_ok ok (AList.update k v vs)" if "ok v" for v
    by (rule volumes_ok_update [OF Cons.prems(2) k(1) that])
  have o: "ok (fst (read_fields fld fs zero))" if "j = JObject fs" for fs
    using k(2) that zero_ok by (intro read_fields_ok) simp_all
  show ?case
    using d u zero_ok o unfolding e fst_read_volumes by (intro Cons.IH [OF k(3)]) (simp split: json.split)
qed simp

lemma unmarshal_ok:
  assumes "volumes_ok ok vs"
  shows "volumes_ok ok (fst (cd_unmarshal (volume_codec enc fld zero) s vs))"
proof (cases "json_parse s")
  case (Some j)
  with json_parse_utf8 have "json_utf8 j" .
  with Some assms read_volumes_ok show ?thesis
    by (cases j) (simp_all add: volume_codec_def volumes_ok_def)
qed (simp add: volume_codec_def assms)

text \<open>So what a process has read from any file, its own file gives back to the next.\<close>

lemma read_back_again: "codec_reads_back norm (volume_codec enc fld zero) (fst (cd_unmarshal (volume_codec enc fld zero) s []))"
  using unmarshal_ok [of "[]" s] codec_reads_back by (simp add: volumes_ok_def)

end

lemma read_string_utf8: "json_utf8 j \<Longrightarrow> utf8 old \<Longrightarrow> utf8 (fst (read_string j old))"
  by (cases j) (simp_all add: read_string_def)

lemma read_elems_utf8: "list_all json_utf8 js \<Longrightarrow> list_all utf8 old \<Longrightarrow> list_all utf8 (fst (read_elems js old))"
proof (induction js arbitrary: old)
  case (Cons j js)
  then have "list_all utf8 (tl old)" by (cases old) auto
  with Cons read_string_utf8 [of j "case old of [] \<Rightarrow> [] | y # ys \<Rightarrow> y"] show ?case
    by (cases old) (auto simp: fst_read simp del: read_elems.simps)
qed simp

lemma read_strings_utf8: "json_utf8 j \<Longrightarrow> list_all utf8 old \<Longrightarrow> list_all utf8 (fst (read_strings j old))"
  by (cases j) (simp_all add: read_strings_def read_elems_utf8)

abbreviation gomap_utf8 :: "gomap \<Rightarrow> bool" where
  "gomap_utf8 m \<equiv> list_all (\<lambda>(k, x). utf8 k \<and> utf8 x) m \<and> distinct (map fst m)"

lemma read_entries_utf8: "entries_utf8 es \<Longrightarrow> gomap_utf8 m \<Longrightarrow> gomap_utf8 (fst (read_entries es m))"
proof (induction es arbitrary: m)
  case (Cons e es)
  obtain k j where e: "e = (k, j)" by (cases e)
  with Cons.prems have "gomap_utf8 (AList.update k (fst (read_string j [])) m)"
    by (simp add: list_all_update distinct_update read_string_utf8)
  with Cons e show ?case by (simp add: fst_read del: read_fields.simps read_entries.simps)
qed simp

lemma read_gomap_utf8: "json_utf8 j \<Longrightarrow> gomap_utf8 m \<Longrightarrow> gomap_utf8 (fst (read_gomap j m))"
  by (cases j) (simp_all add: read_gomap_def read_entries_utf8)

interpretation node_json_typed: volume_json_typed json_node node_field zero_node norm_node node_ok
proof unfold_locales
  fix j v k assume j: "json_utf8 j" and v: "node_ok v"
  note r = read_string_utf8 [OF j] read_strings_utf8 [OF j] read_gomap_utf8 [OF j]
  show "node_ok (fst (node_field k j v))"
    using v r(1) [of "nv_ID v"] r(1) [of "nv_StagingMountPath v"] r(1) [of "nv_MountPath v"] r(1) [of "nv_ClientType v"]
      r(2) [of "nv_StagingMountOptions v"] r(2) [of "nv_MountOptions v"] r(3) [of "nv_ClientConfig v"]
    by (simp add: node_field_def Let_def node_ok_def set_field_def)
qed (simp add: node_ok_def zero_node_def)

end
