(* ===== verification/World.thy ===== *)
theory World
  imports Irods_Validate Volume_Json
begin

text \<open>
  The outside world of the driver: the operating system, the commands it runs, the iRODS client
  library and the other third-party packages. A program of type \<open>'a io\<close> runs on a \<open>world\<close>:
  an environment, and the trace of the calls made so far, newest first. Every answer of the
  environment is a function of that trace, so quantifying over environments quantifies over all
  behaviours of the outside, failures and changes behind the driver's back included. The trace
  also is what the properties speak about. The process's umask is state of its own.
\<close>

section \<open>Calls, events and environments\<close>

datatype call =
    MkdirAll string nat
  | Symlink string string
  | OsRemove string
  | RemoveAll string
  | WriteFile string string nat
  | StdinPipe string
  | K8sUnmount string
  | IrodsConnect irodsfs_config
  | IrodsDisconnect
  | IrodsOpen irodsfs_config
  | IrodsRelease
  | IrodsMakeDir string bool
  | IrodsRemoveDir string bool bool

datatype event =
    EvCall call "go_error option"
  | EvExec string "string list" "string list option" "go_error option"
  | EvStat string "go_error + int"
  | EvReadFile string
  | EvReadDir string
  | EvEvalSymlinks string
  | EvConsistentRead string nat
  | EvDevice string
  | EvXid string
  | EvNonce nat
  | EvRange
  | EvGoSync string conn_info string

type_synonym trace = "event list"

text \<open>
  \<open>e_stat\<close> answers a stat with the device number; \<open>e_exec\<close> runs a command (the third argument
  is what is written to its stdin, if anything) and gives its combined output and error;
  \<open>e_device\<close> is \<open>mount.GetDeviceNameFromMount\<close>; \<open>e_range\<close> is the order in which the Go
  runtime visits a map; \<open>e_seal\<close> and \<open>e_open\<close> are AES-256-GCM (key, nonce, text), and
  \<open>e_conn_json\<close> is the JSON value of a connection, whose fields are those of the iRODS packages.
\<close>

record env =
  e_lib :: irods_lib
  e_call :: "trace \<Rightarrow> call \<Rightarrow> go_error option"
  e_exec :: "trace \<Rightarrow> string \<Rightarrow> string list \<Rightarrow> string list option \<Rightarrow> string \<times> go_error option"
  e_stat :: "trace \<Rightarrow> string \<Rightarrow> go_error + int"
  e_read_file :: "trace \<Rightarrow> string \<Rightarrow> go_error + string"
  e_read_dir :: "trace \<Rightarrow> string \<Rightarrow> go_error + (string \<times> bool) list"
  e_eval_symlinks :: "trace \<Rightarrow> string \<Rightarrow> go_error + string"
  e_consistent_read :: "trace \<Rightarrow> string \<Rightarrow> nat \<Rightarrow> go_error + string"
  e_device :: "trace \<Rightarrow> string \<Rightarrow> go_error + string \<times> nat"
  e_xid :: "trace \<Rightarrow> string"
  e_nonce :: "trace \<Rightarrow> nat \<Rightarrow> go_error + string"
  e_range :: "trace \<Rightarrow> gomap \<Rightarrow> gomap"
  e_make_bind_opts :: "string list \<Rightarrow> string list \<Rightarrow> bool \<times> string list \<times> string list \<times> string list"
  e_path_within_base :: "string \<Rightarrow> string \<Rightarrow> bool"
  e_marshal_config :: "irodsfs_config \<Rightarrow> go_error + string"
  e_seal :: "string \<Rightarrow> string \<Rightarrow> string \<Rightarrow> string"
  e_open :: "string \<Rightarrow> string \<Rightarrow> string \<Rightarrow> go_error + string"
  e_conn_json :: conn_codec

record world =
  w_env :: env
  w_trace :: trace
  w_umask :: nat

type_synonym 'a io = "(world, 'a) state"


section \<open>Primitive programs\<close>

definition push :: "event \<Rightarrow> world \<Rightarrow> world" where
  "push ev w = w\<lparr>w_trace := ev # w_trace w\<rparr>"

definition os_call :: "call \<Rightarrow> go_error option io" where
  "os_call c = State (\<lambda>w. let r = e_call (w_env w) (w_trace w) c in (r, push (EvCall c r) w))"

definition os_exec :: "string \<Rightarrow> string list \<Rightarrow> string list option \<Rightarrow> (string \<times> go_error option) io" where
  "os_exec cmd args stdin = State (\<lambda>w.
     let (out, err) = e_exec (w_env w) (w_trace w) cmd args stdin in ((out, err), push (EvExec cmd args stdin err) w))"

definition os_stat :: "string \<Rightarrow> (go_error + int) io" where
  "os_stat p = State (\<lambda>w. let r = e_stat (w_env w) (w_trace w) p in (r, push (EvStat p r) w))"

definition os_read_file :: "string \<Rightarrow> (go_error + string) io" where
  "os_read_file p = State (\<lambda>w. (e_read_file (w_env w) (w_trace w) p, push (EvReadFile p) w))"

definition os_read_dir :: "string \<Rightarrow> (go_error + (string \<times> bool) list) io" where
  "os_read_dir p = State (\<lambda>w. (e_read_dir (w_env w) (w_trace w) p, push (EvReadDir p) w))"

definition eval_symlinks :: "string \<Rightarrow> (go_error + string) io" where
  "eval_symlinks p = State (\<lambda>w. (e_eval_symlinks (w_env w) (w_trace w) p, push (EvEvalSymlinks p) w))"

definition consistent_read :: "string \<Rightarrow> nat \<Rightarrow> (go_error + string) io" where
  "consistent_read p n =
     State (\<lambda>w. (e_consistent_read (w_env w) (w_trace w) p n, push (EvConsistentRead p n) w))"

definition device_name :: "string \<Rightarrow> (go_error + string \<times> nat) io" where
  "device_name p = State (\<lambda>w. (e_device (w_env w) (w_trace w) p, push (EvDevice p) w))"

definition new_xid :: "string io" where
  "new_xid = State (\<lambda>w. let x = e_xid (w_env w) (w_trace w) in (x, push (EvXid x) w))"

definition rand_read :: "nat \<Rightarrow> (go_error + string) io" where
  "rand_read n = State (\<lambda>w. (e_nonce (w_env w) (w_trace w) n, push (EvNonce n) w))"

text \<open>
  The visiting order of a \<open>range\<close> loop: what the environment gives where that is a permutation
  of the map's entries, and the entries as they are otherwise.
\<close>

definition go_range :: "gomap \<Rightarrow> gomap io" where
  "go_range m = State (\<lambda>w.
     let p = e_range (w_env w) (w_trace w) m
     in (if mset p = mset m then p else m, push EvRange w))"

definition Umask :: "nat \<Rightarrow> nat io" where
  "Umask m = State (\<lambda>w. (w_umask w, w\<lparr>w_umask := m\<rparr>))"

text \<open>
  The one goroutine a handler leaves behind: the synchronisation of an overlay volume's upper
  layer, started when the volume is unmounted and running on its own afterwards.
\<close>

definition go_sync :: "string \<Rightarrow> conn_info \<Rightarrow> string \<Rightarrow> unit io" where
  "go_sync volID ci upper = State (\<lambda>w. ((), push (EvGoSync volID ci upper) w))"

definition the_env :: "env io" where
  "the_env = gets w_env"


section \<open>Running the primitives\<close>

lemma push_simps [simp]:
  "w_env (push ev w) = w_env w" "w_trace (push ev w) = ev # w_trace w" "w_umask (push ev w) = w_umask w"
  by (simp_all add: push_def)

lemma run_os_call [run_rules]:
  "run_state (os_call c) w = (let r = e_call (w_env w) (w_trace w) c in (r, push (EvCall c r) w))"
  by (simp add: os_call_def)

lemma run_os_exec [run_rules]:
  "run_state (os_exec cmd args stdin) w =
     (let (out, err) = e_exec (w_env w) (w_trace w) cmd args stdin in ((out, err), push (EvExec cmd args stdin err) w))"
  by (simp add: os_exec_def)

lemma run_os_stat [run_rules]:
  "run_state (os_stat p) w = (let r = e_stat (w_env w) (w_trace w) p in (r, push (EvStat p r) w))"
  by (simp add: os_stat_def)

lemma run_reads [run_rules]:
  "run_state (os_read_file p) w = (e_read_file (w_env w) (w_trace w) p, push (EvReadFile p) w)"
  "run_state (os_read_dir p) w = (e_read_dir (w_env w) (w_trace w) p, push (EvReadDir p) w)"
  "run_state (eval_symlinks p) w = (e_eval_symlinks (w_env w) (w_trace w) p, push (EvEvalSymlinks p) w)"
  "run_state (consistent_read p n) w = (e_consistent_read (w_env w) (w_trace w) p n, push (EvConsistentRead p n) w)"
  "run_state (device_name p) w = (e_device (w_env w) (w_trace w) p, push (EvDevice p) w)"
  "run_state (rand_read n) w = (e_nonce (w_env w) (w_trace w) n, push (EvNonce n) w)"
  by (simp_all add: os_read_file_def os_read_dir_def eval_symlinks_def consistent_read_def
      device_name_def rand_read_def)

lemma run_new_xid [run_rules]:
  "run_state new_xid w = (let x = e_xid (w_env w) (w_trace w) in (x, push (EvXid x) w))"
  by (simp add: new_xid_def)

lemma run_go_range [run_rules]:
  "run_state (go_range m) w =
     (let p = e_range (w_env w) (w_trace w) m in (if mset p = mset m then p else m, push EvRange w))"
  by (simp add: go_range_def)

lemma run_go_sync [run_rules]: "run_state (go_sync v ci u) w = ((), push (EvGoSync v ci u) w)"
  by (simp add: go_sync_def)

lemma run_Umask [run_rules]: "run_state (Umask m) w = (w_umask w, w\<lparr>w_umask := m\<rparr>)"
  by (simp add: Umask_def)

lemma run_the_env [run_rules]: "run_state the_env w = (w_env w, w)"
  by (simp add: the_env_def)

text \<open>A visiting order has the entries of the map, each once.\<close>

lemma go_range_perm: "run_state (go_range m) w = (p, w') \<Longrightarrow> mset p = mset m"
  by (auto simp: run_go_range Let_def split: if_splits)

lemma map_of_perm: "mset p = mset m \<Longrightarrow> go_map_ok m \<Longrightarrow> map_of p = map_of m"
proof -
  assume m: "mset p = mset m" and d: "go_map_ok m"
  have "distinct (map fst p)"
    using m d by (metis go_map_ok_def mset_eq_imp_distinct_iff mset_map)
  with m d show ?thesis
    by (auto simp: go_map_ok_def map_of_inject_set dest: mset_eq_setD)
qed


section \<open>Histories only grow\<close>

text \<open>
  What every program of the driver keeps about its world: the environment is the same, the
  umask is restored, and the trace has only grown.
\<close>

definition extends :: "world \<Rightarrow> world \<Rightarrow> bool" where
  "extends w w' \<longleftrightarrow> w_env w' = w_env w \<and> w_umask w' = w_umask w \<and> suffix (w_trace w) (w_trace w')"

lemma extends_refl [simp]: "extends w w"
  by (simp add: extends_def)

lemma extends_trans: "extends u v \<Longrightarrow> extends v w \<Longrightarrow> extends u w"
  by (auto simp: extends_def intro: suffix_order.trans)

lemma extends_push [simp]: "extends w0 w \<Longrightarrow> extends w0 (push ev w)"
  by (auto simp: extends_def intro: suffix_ConsI)

lemma keeps_extends_prims [keeps_rules]:
  "keeps (extends w0) (os_call c)" "keeps (extends w0) (os_exec cmd args stdin)"
  "keeps (extends w0) (os_stat p)" "keeps (extends w0) (os_read_file p)"
  "keeps (extends w0) (os_read_dir p)" "keeps (extends w0) (eval_symlinks p)"
  "keeps (extends w0) (consistent_read p n)" "keeps (extends w0) (device_name p)"
  "keeps (extends w0) (rand_read n)" "keeps (extends w0) new_xid" "keeps (extends w0) (go_range m)"
  "keeps (extends w0) the_env" "keeps (extends w0) (go_sync v ci u)"
  by (simp_all add: keeps_def run_rules Let_def split: prod.splits)

lemma extendsD:
  "(\<And>w0. keeps (extends w0) m) \<Longrightarrow> run_state m w = (a, w') \<Longrightarrow> extends w w'"
  by (metis extends_refl keepsD snd_conv)


section \<open>Creating a directory with open permissions\<close>

text \<open>
  Five functions of the driver make a data directory the same way: stat it, and where it does
  not exist clear the umask, create it with mode 0777 and restore the umask (a deferred call).
  The two messages are those of the caller.
\<close>

abbreviation (input) mode_0777 :: nat where "mode_0777 \<equiv> 511"
abbreviation (input) mode_0755 :: nat where "mode_0755 \<equiv> 493"
abbreviation (input) mode_0664 :: nat where "mode_0664 \<equiv> 436"
abbreviation (input) mode_0644 :: nat where "mode_0644 \<equiv> 420"

definition make_open_dir :: "string \<Rightarrow> string \<Rightarrow> string \<Rightarrow> go_error option io" where
  "make_open_dir create_msg access_msg path = do {
     r \<leftarrow> os_stat path;
     case r of
       Inr _ \<Rightarrow> ret None
     | Inl err \<Rightarrow>
         if IsNotExist err then do {
           oldMask \<leftarrow> Umask 0;
           mk \<leftarrow> os_call (MkdirAll path mode_0777);
           _ \<leftarrow> Umask oldMask;
           case mk of
             Some e \<Rightarrow> ret (Some (XErr create_msg [AStr path, AErr e]))
           | None \<Rightarrow> ret None }
         else ret (Some (XErr access_msg [AStr path, AErr err])) }"

lemma keeps_extends_make_open_dir [keeps_rules]: "keeps (extends w0) (make_open_dir cm am p)"
proof (rule keepsI)
  fix w assume "extends w0 w"
  moreover have "extends w (snd (run_state (make_open_dir cm am p) w))"
    by (auto simp: make_open_dir_def run_rules Let_def extends_def split: sum.splits option.splits
        intro: suffix_ConsI)
  ultimately show "extends w0 (snd (run_state (make_open_dir cm am p) w))"
    by (rule extends_trans)
qed

end
