(* ===== verification/Mount_Args.thy ===== *)
theory Mount_Args
  imports Go_Strings
begin

text \<open>
  The pure parts of pkg/mounter/mounter.go: the command line of mount(8) with its loggable
  form, and the mount options taken from a CSI volume capability. The CSI request types are
  generated protobuf code; the model keeps the fields the driver reads.
\<close>

section \<open>CSI capabilities\<close>

text \<open>The access modes the driver names; any other value of the protobuf enum is \<open>OTHER_MODE\<close>
  (0 is the enum's UNKNOWN, which \<open>GetMode\<close> returns for a nil access mode).\<close>

datatype access_mode =
    SINGLE_NODE_WRITER | SINGLE_NODE_READER_ONLY | MULTI_NODE_READER_ONLY
  | MULTI_NODE_SINGLE_WRITER | MULTI_NODE_MULTI_WRITER | OTHER_MODE int

record volume_capability =
  vc_mount_flags :: "string list option"
  vc_access_mode :: "access_mode option"

definition GetMode :: "access_mode option \<Rightarrow> access_mode" where
  "GetMode m = (case m of None \<Rightarrow> OTHER_MODE 0 | Some x \<Rightarrow> x)"


section \<open>Arguments of the mount command\<close>

definition sensitiveOptionsRemoved :: string where
  "sensitiveOptionsRemoved = ''<masked>''"

definition sanitizedOptionsForLogging :: "string list \<Rightarrow> string list \<Rightarrow> string" where
  "sanitizedOptionsForLogging options sensitiveOptions =
     (let separator = (if length options > 0 \<and> length sensitiveOptions > 0 then '','' else []);
          sensitiveOptionsStart = (if length sensitiveOptions > 0
            then Repeat (sensitiveOptionsRemoved @ '','') (length sensitiveOptions - 1) else []);
          sensitiveOptionsEnd = (if length sensitiveOptions > 0 then sensitiveOptionsRemoved else [])
      in Join options '','' @ separator @ sensitiveOptionsStart @ sensitiveOptionsEnd)"

definition MakeMountArgsSensitive ::
  "string \<Rightarrow> string \<Rightarrow> string \<Rightarrow> string \<Rightarrow> string list \<Rightarrow> string list \<Rightarrow> string list \<times> string" where
  "MakeMountArgsSensitive source sourceMasked target fstype options sensitiveOptions =
     (let args1 = (if length fstype > 0 then [''-t'', fstype] else []);
          log1 = (if length fstype > 0 then Join args1 '' '' else []);
          args2 = (if length options > 0 \<or> length sensitiveOptions > 0
            then args1 @ [''-o'', Join (options @ sensitiveOptions) '',''] else args1);
          log2 = (if length options > 0 \<or> length sensitiveOptions > 0
            then log1 @ '' -o '' @ sanitizedOptionsForLogging options sensitiveOptions else log1);
          args3 = (if length source > 0 then args2 @ [source] else args2);
          log3 = (if length source > 0 then log2 @ '' '' @ sourceMasked else log2)
      in (args3 @ [target], log3 @ '' '' @ target))"

section \<open>Mount options\<close>

fun hasValueInArray :: "string list \<Rightarrow> string \<Rightarrow> bool" where
  "hasValueInArray [] val = False"
| "hasValueInArray (arrVal # arr) val = (if arrVal = val then True else hasValueInArray arr val)"

fun add_flags :: "string list \<Rightarrow> string list \<Rightarrow> string list" where
  "add_flags mountOptions [] = mountOptions"
| "add_flags mountOptions (f # fs) =
     add_flags (if \<not> hasValueInArray mountOptions f then mountOptions @ [f] else mountOptions) fs"

definition GetMountOptions :: "string list option \<Rightarrow> access_mode option \<Rightarrow> string list" where
  "GetMountOptions volumes accessModes =
     (let mountOptions = (case volumes of None \<Rightarrow> [] | Some flags \<Rightarrow> add_flags [] flags)
      in case accessModes of
           None \<Rightarrow> mountOptions
         | Some m \<Rightarrow>
             if GetMode (Some m) = SINGLE_NODE_READER_ONLY \<or> GetMode (Some m) = MULTI_NODE_READER_ONLY
             then mountOptions @ [''ro''] else mountOptions)"


section \<open>Lemmas\<close>

lemma hasValueInArray_iff [simp]: "hasValueInArray arr v \<longleftrightarrow> v \<in> set arr"
  by (induction arr) auto

lemma add_flags_set: "set (add_flags acc fs) = set acc \<union> set fs"
  by (induction acc fs rule: add_flags.induct) auto

lemma add_flags_distinct: "distinct acc \<Longrightarrow> distinct (add_flags acc fs)"
  by (induction acc fs rule: add_flags.induct) auto

lemma add_flags_prefix: "prefix acc (add_flags acc fs)"
proof (induction acc fs rule: add_flags.induct)
  case (2 acc f fs)
  then show ?case by (auto dest: append_prefixD)
qed simp

text \<open>Masking: the log text depends on the sensitive options only through their number.\<close>

lemma Repeat_Join:
  "n > 0 \<Longrightarrow> Repeat (s @ '','') (n - 1) @ s = Join (replicate n s) '',''"
proof (induction n)
  case (Suc n)
  then show ?case by (cases n) (simp_all add: Repeat_def)
qed simp

lemma sanitizedOptionsForLogging_eq:
  "sanitizedOptionsForLogging opts sens =
     Join (opts @ replicate (length sens) sensitiveOptionsRemoved) '',''"
proof (cases "sens = []")
  case False
  then have "Repeat (sensitiveOptionsRemoved @ '','') (length sens - 1) @ sensitiveOptionsRemoved
    = Join (replicate (length sens) sensitiveOptionsRemoved) '',''"
    by (intro Repeat_Join) simp
  with False show ?thesis
    by (cases "opts = []") (simp_all add: sanitizedOptionsForLogging_def Join_append)
qed (simp add: sanitizedOptionsForLogging_def)

lemma mount_args_target:
  "last (fst (MakeMountArgsSensitive src srcm tgt fs opts sens)) = tgt"
  by (simp add: MakeMountArgsSensitive_def Let_def)

lemma mount_args_not_Nil [simp]: "fst (MakeMountArgsSensitive src srcm tgt fs opts sens) \<noteq> []"
  by (simp add: MakeMountArgsSensitive_def Let_def)

end
