(* ===== verification/Node_Mounter.thy ===== *)
theory Node_Mounter
  imports World Mount_Args
begin

text \<open>
  The effectful part of pkg/mounter: running the mount and unmount commands, the checks on paths
  and directories, bind mounts. \<open>Unmount\<close> of the embedded \<open>mount.Interface\<close> and
  \<open>GetDeviceNameFromMount\<close> are k8s.io code and calls of the world, as is
  \<open>MakeBindOptsSensitive\<close>, a pure function of the environment.

  \<open>last_op p tr\<close> is the specification's view of a trace: the latest command that succeeded in
  mounting on or unmounting the path \<open>p\<close>.
\<close>

section \<open>Paths and directories\<close>

definition PathExists :: "string \<Rightarrow> (bool \<times> go_error option) io" where
  "PathExists path = do {
     r \<leftarrow> os_stat path;
     case r of
       Inr _ \<Rightarrow> ret (True, None)
     | Inl err \<Rightarrow>
         if IsNotExist err then ret (False, None)
         else if IsCorruptedMount (Some err) then ret (True, Some err)
         else ret (False, Some err) }"

definition MakeDir :: "string \<Rightarrow> go_error option io" where
  "MakeDir path = do {
     r \<leftarrow> os_call (MkdirAll path mode_0755);
     case r of
       Some err \<Rightarrow> if \<not> IsExist err then ret (Some err) else ret None
     | None \<Rightarrow> ret None }"

definition IsLikelyNotMountPoint :: "string \<Rightarrow> (bool \<times> go_error option) io" where
  "IsLikelyNotMountPoint file = do {
     r \<leftarrow> os_stat file;
     case r of
       Inl err \<Rightarrow> ret (True, Some err)
     | Inr dev \<Rightarrow> do {
         root \<leftarrow> os_stat (Dir (TrimSuffix file ''/''));
         case root of
           Inl err \<Rightarrow> ret (True, Some err)
         | Inr rootDev \<Rightarrow> if dev \<noteq> rootDev then ret (False, None) else ret (True, None) } }"

definition GetDeviceName :: "string \<Rightarrow> (go_error + string \<times> nat) io" where
  "GetDeviceName mountPath = device_name mountPath"

section \<open>Mounting\<close>

definition ensureMtab :: "go_error option io" where
  "ensureMtab = do {
     (pathExists, pathErr) \<leftarrow> PathExists ''/etc/mtab'';
     case pathErr of
       Some e \<Rightarrow> ret (Some (XErr ''file /etc/mtab not accessible: %w'' [AErr e]))
     | None \<Rightarrow>
         if \<not> pathExists then do {
           symlinkErr \<leftarrow> os_call (Symlink ''/proc/mounts'' ''/etc/mtab'');
           case symlinkErr of
             Some e \<Rightarrow> ret (Some (XErr ''symlink failed: %v'' [AErr e]))
           | None \<Rightarrow> ret None }
         else ret None }"

text \<open>The stdin text: every value and a newline. A nil slice opens no pipe.\<close>

definition doMount :: "string \<Rightarrow> string \<Rightarrow> string \<Rightarrow> string \<Rightarrow> string \<Rightarrow> string list \<Rightarrow> string list
    \<Rightarrow> string list option \<Rightarrow> go_error option io" where
  "doMount mountCmd source sourceMasked target fstype options sensitiveOptions stdinValues = do {
     let (mountArgs, mountArgsLogStr) =
       MakeMountArgsSensitive source sourceMasked target fstype options sensitiveOptions;
     err \<leftarrow> ensureMtab;
     case err of
       Some e \<Rightarrow> ret (Some e)
     | None \<Rightarrow> do {
         pipeErr \<leftarrow> (case stdinValues of None \<Rightarrow> ret None | Some _ \<Rightarrow> os_call (StdinPipe mountCmd));
         case pipeErr of
           Some e \<Rightarrow> ret (Some (XErr
             ''accessing stdin failed, Mounting command %q, Mounting arguments %q: %w''
             [AStr mountCmd, AStr mountArgsLogStr, AErr e]))
         | None \<Rightarrow> do {
             (output, runErr) \<leftarrow> os_exec mountCmd mountArgs stdinValues;
             case runErr of
               Some e \<Rightarrow> ret (Some (XErr
                 ''mount failed, Mounting command %q, Mounting arguments %q, Output %q: %w''
                 [AStr mountCmd, AStr mountArgsLogStr, AStr output, AErr e]))
             | None \<Rightarrow> ret None } } }"

definition defaultMountCommand :: string where
  "defaultMountCommand = ''mount''"

definition MountSensitive2 :: "string \<Rightarrow> string \<Rightarrow> string \<Rightarrow> string \<Rightarrow> string list \<Rightarrow> string list
    \<Rightarrow> string list option \<Rightarrow> go_error option io" where
  "MountSensitive2 source sourceMasked target fstype options sensitiveOptions stdinValues = do {
     e \<leftarrow> the_env;
     let (bind, bindOpts, bindRemountOpts, bindRemountOptsSensitive) =
       e_make_bind_opts e options sensitiveOptions;
     if bind then do {
       err \<leftarrow> doMount defaultMountCommand source sourceMasked target fstype bindOpts
         bindRemountOptsSensitive stdinValues;
       case err of
         Some er \<Rightarrow> ret (Some er)
       | None \<Rightarrow> doMount defaultMountCommand source sourceMasked target fstype bindRemountOpts
           bindRemountOptsSensitive stdinValues }
     else doMount defaultMountCommand source sourceMasked target fstype options sensitiveOptions
       stdinValues }"

definition MountSensitive :: "string \<Rightarrow> string \<Rightarrow> string \<Rightarrow> string list \<Rightarrow> string list
    \<Rightarrow> go_error option io" where
  "MountSensitive source target fstype options sensitiveOptions = do {
     e \<leftarrow> the_env;
     let (bind, bindOpts, bindRemountOpts, bindRemountOptsSensitive) =
       e_make_bind_opts e options sensitiveOptions;
     if bind then do {
       err \<leftarrow> doMount defaultMountCommand source source target fstype bindOpts
         bindRemountOptsSensitive None;
       case err of
         Some er \<Rightarrow> ret (Some er)
       | None \<Rightarrow> doMount defaultMountCommand source source target fstype bindRemountOpts
           bindRemountOptsSensitive None }
     else doMount defaultMountCommand source source target fstype options sensitiveOptions None }"

definition NodeMounter_Mount :: "string \<Rightarrow> string \<Rightarrow> string \<Rightarrow> string list \<Rightarrow> go_error option io" where
  "NodeMounter_Mount source target fstype options = MountSensitive source target fstype options []"

definition MountBind :: "string \<Rightarrow> string list \<Rightarrow> string \<Rightarrow> go_error option io" where
  "MountBind sourcePath mntOptions targetPath = do {
     let mountOptions = mntOptions @ [''bind''];
     err \<leftarrow> MountSensitive2 sourcePath sourcePath targetPath [] mountOptions [] (Some []);
     case err of
       Some e \<Rightarrow> ret (Some (StatusErr Internal ''Could not mount %q (%q) at %q: %v''
         [AStr sourcePath, AStr [], AStr targetPath, AErr e]))
     | None \<Rightarrow> ret None }"

section \<open>Unmounting\<close>

definition UnmountLazy :: "string \<Rightarrow> bool \<Rightarrow> go_error option io" where
  "UnmountLazy target lazy = do {
     let cmdArgs = (if lazy then [''-l''] else []) @ [target];
     (output, err) \<leftarrow> os_exec ''umount'' cmdArgs None;
     case err of
       Some e \<Rightarrow> ret (Some (XErr ''umount failed, Unmounting arguments %q, Output %q: %w''
         [AStr target, AStr output, AErr e]))
     | None \<Rightarrow> ret None }"

definition FuseUnmount :: "string \<Rightarrow> bool \<Rightarrow> go_error option io" where
  "FuseUnmount target lazy = do {
     let cmdArgs = [''-u''] @ (if lazy then [''-z''] else []) @ [target];
     (output, err) \<leftarrow> os_exec ''fusermount'' cmdArgs None;
     case err of
       Some e \<Rightarrow> ret (Some (XErr ''fusermount failed, Unmounting arguments %q, Output %q: %w''
         [AStr target, AStr output, AErr e]))
     | None \<Rightarrow> ret None }"

definition Unmount :: "string \<Rightarrow> go_error option io" where
  "Unmount target = os_call (K8sUnmount target)"


section \<open>The view of a trace\<close>

datatype mount_op = Did_mount | Did_unmount

definition op_of :: "event \<Rightarrow> (string \<times> mount_op) option" where
  "op_of ev =
     (case ev of
        EvExec cmd args stdin None \<Rightarrow>
          if args = [] then None
          else if cmd = ''mount'' then Some (last args, Did_mount)
          else if cmd = ''umount'' \<or> cmd = ''fusermount'' then Some (last args, Did_unmount)
          else None
      | EvCall (K8sUnmount target) None \<Rightarrow> Some (target, Did_unmount)
      | _ \<Rightarrow> None)"

fun last_op :: "string \<Rightarrow> trace \<Rightarrow> mount_op option" where
  "last_op p [] = None"
| "last_op p (ev # tr) =
     (case op_of ev of
        None \<Rightarrow> last_op p tr
      | Some (q, d) \<Rightarrow> if q = p then Some d else last_op p tr)"

text \<open>The paths that programs mount on or unmount: those of the events they add.\<close>

definition touched :: "trace \<Rightarrow> string set" where
  "touched tr = {p. \<exists>ev \<in> set tr. \<exists>d. op_of ev = Some (p, d)}"


section \<open>Lemmas\<close>

definition op_is :: "string \<Rightarrow> mount_op option \<Rightarrow> world \<Rightarrow> bool" where
  "op_is p d w \<longleftrightarrow> last_op p (w_trace w) = d"

lemma op_isD: "(\<And>d. keeps (op_is p d) m) \<Longrightarrow> run_state m w = (a, w') \<Longrightarrow>
    last_op p (w_trace w') = last_op p (w_trace w)"
  using keepsD [of "op_is p (last_op p (w_trace w))" m w] by (auto simp: op_is_def)

lemma keeps_op_os_call [keeps_rules]:
  "(\<forall>t. c \<noteq> K8sUnmount t) \<Longrightarrow> keeps (op_is p d) (os_call c)"
  by (cases c) (simp_all add: keeps_def op_is_def run_rules Let_def op_of_def split: option.splits)

lemma keeps_op_prims [keeps_rules]:
  "keeps (op_is p d) (os_stat q)" "keeps (op_is p d) (os_read_file q)"
  "keeps (op_is p d) (os_read_dir q)" "keeps (op_is p d) (eval_symlinks q)"
  "keeps (op_is p d) (consistent_read q n)" "keeps (op_is p d) (device_name q)"
  "keeps (op_is p d) (rand_read n)" "keeps (op_is p d) new_xid" "keeps (op_is p d) (go_range m)"
  "keeps (op_is p d) the_env" "keeps (op_is p d) (Umask n)"
  "keeps (op_is p d) (go_sync v ci u)"
  by (simp_all add: keeps_def run_rules Let_def op_is_def op_of_def)

lemma keeps_op_exec [keeps_rules]:
  "args \<noteq> [] \<longrightarrow> last args \<noteq> p \<Longrightarrow> keeps (op_is p d) (os_exec cmd args stdin)"
  by (auto simp: keeps_def run_rules Let_def op_is_def op_of_def split: prod.splits option.splits)

lemma keeps_op_make_open_dir [keeps_rules]: "keeps (op_is p d) (make_open_dir cm am q)"
  unfolding make_open_dir_def by (intro keeps_rules) auto

text \<open>The programs of this theory extend the trace and leave other paths alone.\<close>

lemma keeps_extends_paths [keeps_rules]:
  "keeps (extends w0) (PathExists q)" "keeps (extends w0) (MakeDir q)"
  "keeps (extends w0) (IsLikelyNotMountPoint q)" "keeps (extends w0) (GetDeviceName q)"
  "keeps (extends w0) ensureMtab"
  unfolding PathExists_def MakeDir_def IsLikelyNotMountPoint_def GetDeviceName_def ensureMtab_def
  by (intro keeps_rules)+

lemma keeps_op_paths [keeps_rules]:
  "keeps (op_is p d) (PathExists q)" "keeps (op_is p d) (MakeDir q)"
  "keeps (op_is p d) (IsLikelyNotMountPoint q)" "keeps (op_is p d) (GetDeviceName q)"
  "keeps (op_is p d) ensureMtab"
  unfolding PathExists_def MakeDir_def IsLikelyNotMountPoint_def GetDeviceName_def ensureMtab_def
  by (intro keeps_rules; simp)+

lemma keeps_extends_doMount [keeps_rules]:
  "keeps (extends w0) (doMount cmd src srcm tgt fs opts sens stdin)"
  unfolding doMount_def by (intro keeps_rules)

lemma keeps_op_doMount [keeps_rules]:
  "tgt \<noteq> p \<Longrightarrow> keeps (op_is p d) (doMount cmd src srcm tgt fs opts sens stdin)"
  unfolding doMount_def Let_def case_prod_beta
  by (intro keeps_rules) (simp_all add: mount_args_target)

text \<open>A mount command that succeeds is the last operation on its target.\<close>

lemma doMount_ok:
  assumes "run_state (doMount ''mount'' src srcm tgt fs opts sens stdin) w = (None, w')"
  shows "last_op tgt (w_trace w') = Some Did_mount"
  using assms
  by (auto simp: doMount_def run_rules Let_def case_prod_beta op_of_def mount_args_target
      split: prod.splits option.splits if_splits)

lemma keeps_extends_mounts [keeps_rules]:
  "keeps (extends w0) (MountSensitive2 src srcm tgt fs opts sens stdin)"
  "keeps (extends w0) (MountSensitive src tgt fs opts sens)"
  "keeps (extends w0) (MountBind src opts tgt)"
  "keeps (extends w0) (UnmountLazy tgt lz)" "keeps (extends w0) (FuseUnmount tgt lz)"
  "keeps (extends w0) (Unmount tgt)"
  unfolding MountSensitive2_def MountSensitive_def MountBind_def UnmountLazy_def FuseUnmount_def
    Unmount_def Let_def case_prod_beta
  by (intro keeps_rules)+

lemma keeps_op_mounts [keeps_rules]:
  assumes "tgt \<noteq> p"
  shows "keeps (op_is p d) (MountSensitive2 src srcm tgt fs opts sens stdin)"
    and "keeps (op_is p d) (MountSensitive src tgt fs opts sens)"
    and "keeps (op_is p d) (MountBind src opts tgt)"
    and "keeps (op_is p d) (UnmountLazy tgt lz)" and "keeps (op_is p d) (FuseUnmount tgt lz)"
    and "keeps (op_is p d) (Unmount tgt)"
proof -
  show m2: "keeps (op_is p d) (MountSensitive2 src srcm tgt fs opts sens stdin)" for src srcm fs opts sens stdin
    unfolding MountSensitive2_def Let_def case_prod_beta using assms by (intro keeps_rules)
  show "keeps (op_is p d) (MountSensitive src tgt fs opts sens)"
    unfolding MountSensitive_def Let_def case_prod_beta using assms by (intro keeps_rules)
  show "keeps (op_is p d) (MountBind src opts tgt)"
    unfolding MountBind_def Let_def case_prod_beta by (intro keeps_rules m2)
  show "keeps (op_is p d) (UnmountLazy tgt lz)" "keeps (op_is p d) (FuseUnmount tgt lz)"
    unfolding UnmountLazy_def FuseUnmount_def Let_def case_prod_beta
    using assms by (intro keeps_rules; simp)+
  show "keeps (op_is p d) (Unmount tgt)"
    using assms by (auto simp: Unmount_def keeps_def run_rules Let_def op_is_def op_of_def split: option.splits)
qed

lemma MountSensitive2_ok:
  assumes "run_state (MountSensitive2 src srcm tgt fs opts sens stdin) w = (None, w')"
  shows "last_op tgt (w_trace w') = Some Did_mount"
  using assms
  by (auto simp: MountSensitive2_def run_rules Let_def case_prod_beta defaultMountCommand_def
      split: prod.splits option.splits if_splits dest: doMount_ok)

lemma MountSensitive_ok:
  assumes "run_state (MountSensitive src tgt fs opts sens) w = (None, w')"
  shows "last_op tgt (w_trace w') = Some Did_mount"
  using assms
  by (auto simp: MountSensitive_def run_rules Let_def case_prod_beta defaultMountCommand_def
      split: prod.splits option.splits if_splits dest: doMount_ok)

lemma MountBind_ok:
  assumes "run_state (MountBind src opts tgt) w = (None, w')"
  shows "last_op tgt (w_trace w') = Some Did_mount"
  using assms
  by (auto simp: MountBind_def split: prod.splits option.splits dest: MountSensitive2_ok)

lemma UnmountLazy_ok:
  assumes "run_state (UnmountLazy tgt lz) w = (None, w')"
  shows "last_op tgt (w_trace w') = Some Did_unmount"
  using assms
  by (auto simp: UnmountLazy_def run_rules Let_def case_prod_beta op_of_def
      split: prod.splits option.splits)

lemma Unmount_ok:
  assumes "run_state (Unmount tgt) w = (None, w')"
  shows "last_op tgt (w_trace w') = Some Did_unmount"
  using assms by (auto simp: Unmount_def run_rules Let_def op_of_def)

end
