(* ===== verification/Irods_Mount.thy ===== *)
theory Irods_Mount
  imports Node_Mounter
begin

text \<open>
  pkg/client/irods/mount.go and operations.go: mounting an iRODS collection with irodsfs, alone or
  under an overlay file system, and unmounting it. The background synchronisation of the upper
  layer is started here (\<^const>\<open>go_sync\<close>) and runs on its own.
\<close>

section \<open>iRODS operations\<close>

text \<open>A new file system client, one operation on it, and the deferred release.\<close>

definition with_irods_fs :: "conn_info \<Rightarrow> call \<Rightarrow> go_error option io" where
  "with_irods_fs conn c = do {
     err \<leftarrow> os_call (IrodsOpen (get_config conn));
     case err of
       Some e \<Rightarrow> ret (Some e)
     | None \<Rightarrow> do {
         r \<leftarrow> os_call c;
         _ \<leftarrow> os_call IrodsRelease;
         ret r } }"

definition irods_Mkdir :: "conn_info \<Rightarrow> string \<Rightarrow> go_error option io" where
  "irods_Mkdir conn path = with_irods_fs conn (IrodsMakeDir path True)"

definition irods_Rmdir :: "conn_info \<Rightarrow> string \<Rightarrow> go_error option io" where
  "irods_Rmdir conn path = with_irods_fs conn (IrodsRemoveDir path True True)"

definition TestConnection :: "conn_info \<Rightarrow> go_error option io" where
  "TestConnection conn = do {
     err \<leftarrow> os_call (IrodsConnect (get_config conn));
     case err of
       Some e \<Rightarrow> ret (Some e)
     | None \<Rightarrow> do {
         _ \<leftarrow> os_call IrodsDisconnect;
         ret None } }"


section \<open>Directories\<close>

definition makeIrodsFuseLiteDataRootPath :: "string \<Rightarrow> go_error option io" where
  "makeIrodsFuseLiteDataRootPath dataRootPath =
     make_open_dir ''failed to create a irodsfs data root path %q: %w''
       ''failed to access a irodsfs data root path %q: %w'' dataRootPath"

definition makeOverlayFSPath :: "string \<Rightarrow> go_error option io" where
  "makeOverlayFSPath overlayfsPath =
     make_open_dir ''failed to create a overlayfs data path %q: %w''
       ''failed to access a overlayfs data path %q: %w'' overlayfsPath"

definition deleteIrodsFuseLiteData :: "string \<Rightarrow> go_error option io" where
  "deleteIrodsFuseLiteData dataRootPath = do {
     err \<leftarrow> os_call (RemoveAll dataRootPath);
     case err of
       Some e \<Rightarrow> ret (Some (XErr ''failed to delete a irodsfs data root path %q: %w'' [AStr dataRootPath, AErr e]))
     | None \<Rightarrow> ret None }"

definition deleteOverlayFSData :: "string \<Rightarrow> go_error option io" where
  "deleteOverlayFSData dataPath = do {
     err \<leftarrow> os_call (RemoveAll dataPath);
     case err of
       Some e \<Rightarrow> ret (Some (XErr ''failed to delete a overlayfs data path %q: %w'' [AStr dataPath, AErr e]))
     | None \<Rightarrow> ret None }"

definition internal_of :: "go_error \<Rightarrow> go_error" where
  "internal_of e = StatusErr Internal ''%s'' [AErr e]"


section \<open>Mount\<close>

definition read_conn_info :: "gomap \<Rightarrow> (go_error + conn_info) io" where
  "read_conn_info configs = do {
     e \<leftarrow> the_env;
     visited \<leftarrow> go_range configs;
     ret (irods_GetConnectionInfo (e_lib e) visited) }"

definition IsOverlayDriverSupported :: "bool io" where
  "IsOverlayDriverSupported = do {
     data \<leftarrow> os_read_file ''/proc/sys/kernel/osrelease'';
     ret (overlay_supported (GetKernelInfo data)) }"

definition layer_options :: "gomap \<Rightarrow> string \<Rightarrow> string list" where
  "layer_options configs volID =
     [''lowerdir='' @ GetConfigOverlayFSLowerPath configs volID,
      ''upperdir='' @ GetConfigOverlayFSUpperPath configs volID,
      ''workdir='' @ GetConfigOverlayFSWorkDirPath configs volID]"

definition mountOverlay :: "conn_info \<Rightarrow> string \<Rightarrow> gomap \<Rightarrow> string \<Rightarrow> go_error option io" where
  "mountOverlay irodsConnectionInfo volID configs mountPath = do {
     err \<leftarrow> makeOverlayFSPath (GetConfigOverlayFSUpperPath configs volID);
     case err of
       Some e \<Rightarrow> ret (Some (internal_of e))
     | None \<Rightarrow> do {
     err \<leftarrow> makeOverlayFSPath (GetConfigOverlayFSWorkDirPath configs volID);
     case err of
       Some e \<Rightarrow> ret (Some (internal_of e))
     | None \<Rightarrow> do {
     let mountOptions = layer_options configs volID @ [''xino=off''];
     err \<leftarrow> MountSensitive ''overlay'' mountPath ''overlay'' mountOptions [];
     case err of
       Some e \<Rightarrow> do {
         _ \<leftarrow> Unmount mountPath;
         ret (Some (StatusErr Internal ''Failed to mount overlay at %q: %v'' [AStr mountPath, AErr e])) }
     | None \<Rightarrow> ret None } } }"

definition mountFuseOverlayFS :: "conn_info \<Rightarrow> string \<Rightarrow> gomap \<Rightarrow> string \<Rightarrow> go_error option io" where
  "mountFuseOverlayFS irodsConnectionInfo volID configs mountPath = do {
     err \<leftarrow> makeOverlayFSPath (GetConfigOverlayFSLowerPath configs volID);
     case err of
       Some e \<Rightarrow> ret (Some (internal_of e))
     | None \<Rightarrow> do {
     err \<leftarrow> makeOverlayFSPath (GetConfigOverlayFSUpperPath configs volID);
     case err of
       Some e \<Rightarrow> ret (Some (internal_of e))
     | None \<Rightarrow> do {
     err \<leftarrow> makeOverlayFSPath (GetConfigOverlayFSWorkDirPath configs volID);
     case err of
       Some e \<Rightarrow> ret (Some (internal_of e))
     | None \<Rightarrow> do {
     let mountOptions = layer_options configs volID @
       [''squash_to_uid='' @ Itoa (UID irodsConnectionInfo), ''squash_to_gid='' @ Itoa (GID irodsConnectionInfo),
        ''static_nlink'', ''noacl''];
     err \<leftarrow> MountSensitive2 ''fuseoverlayfs'' ''fuseoverlayfs'' mountPath ''fuseoverlayfs'' mountOptions [] (Some []);
     case err of
       Some e \<Rightarrow> do {
         _ \<leftarrow> UnmountLazy mountPath True;
         ret (Some (StatusErr Internal ''Failed to mount fuse-overlayfs at %q: %v'' [AStr mountPath, AErr e])) }
     | None \<Rightarrow> ret None } } } }"

definition irodsfs_options :: "conn_info \<Rightarrow> string list \<Rightarrow> string list" where
  "irodsfs_options ci mntOptions =
     mntOptions @ [''mounttimeout='' @ Itoa (MountTimeout ci)]
       @ (if \<not> OverlayFS ci then [''allow_other''] else []) @ [''config=-'']"

text \<open>Mounting irodsfs itself at \<open>path\<close>; a failed mount is unmounted lazily, to leave nothing.\<close>

definition mount_irodsfs :: "conn_info \<Rightarrow> string list \<Rightarrow> string \<Rightarrow> string \<Rightarrow> go_error option io" where
  "mount_irodsfs ci mntOptions configYaml path = do {
     err \<leftarrow> MountSensitive2 ''irodsfs'' ''irodsfs'' path ''irodsfs'' (irodsfs_options ci mntOptions) []
       (Some [configYaml]);
     case err of
       Some e \<Rightarrow> do {
         _ \<leftarrow> UnmountLazy path True;
         ret (Some (StatusErr Internal ''Failed to mount %q (%q) at %q: %v''
           [AStr ''irodsfs'', AStr ''irodsfs'', AStr path, AErr e])) }
     | None \<Rightarrow> ret None }"

definition mount_under_overlay :: "conn_info \<Rightarrow> string \<Rightarrow> gomap \<Rightarrow> string list \<Rightarrow> string \<Rightarrow> string
    \<Rightarrow> go_error option io" where
  "mount_under_overlay ci volID configs mntOptions configYaml targetPath = do {
     supported \<leftarrow> IsOverlayDriverSupported;
     let ci = (if \<not> supported
       then ci\<lparr>OverlayFSDriver := overlay_driver_string FuseOverlayFSDriverType\<rparr> else ci);
     err \<leftarrow> makeOverlayFSPath (GetConfigOverlayFSLowerPath configs volID);
     case err of
       Some e \<Rightarrow> ret (Some (internal_of e))
     | None \<Rightarrow> do {
     err \<leftarrow> mount_irodsfs ci mntOptions configYaml (GetConfigOverlayFSLowerPath configs volID);
     case err of
       Some e \<Rightarrow> ret (Some e)
     | None \<Rightarrow>
         if OverlayFSDriver ci = overlay_driver_string FuseOverlayFSDriverType
         then mountFuseOverlayFS ci volID configs targetPath
         else mountOverlay ci volID configs targetPath } }"

definition irods_Mount :: "string \<Rightarrow> gomap \<Rightarrow> string list \<Rightarrow> string \<Rightarrow> go_error option io" where
  "irods_Mount volID configs mntOptions targetPath = do {
     info \<leftarrow> read_conn_info configs;
     case info of
       Inl e \<Rightarrow> ret (Some e)
     | Inr ci0 \<Rightarrow> do {
     err \<leftarrow> TestConnection ci0;
     case err of
       Some e \<Rightarrow> ret (Some (StatusErr InvalidArgument
         ''Could not create iRODS Conenction with given access parameters - %v'' [AErr e]))
     | None \<Rightarrow> do {
     let dataRootPath = GetConfigDataRootPath configs volID;
     err \<leftarrow> makeIrodsFuseLiteDataRootPath dataRootPath;
     case err of
       Some e \<Rightarrow> ret (Some (internal_of e))
     | None \<Rightarrow> do {
     let ci = ci0\<lparr>DataRootPath := dataRootPath, InstanceID := volID\<rparr>;
     env \<leftarrow> the_env;
     case e_marshal_config env (get_config ci) of
       Inl e \<Rightarrow> ret (Some (StatusErr Internal ''Could not serialize configuration: %v'' [AErr e]))
     | Inr configYaml \<Rightarrow>
         if \<not> OverlayFS ci then mount_irodsfs ci mntOptions configYaml targetPath
         else mount_under_overlay ci volID configs mntOptions configYaml targetPath } } } }"


section \<open>Unmount\<close>

definition unmountOverlayFS :: "conn_info \<Rightarrow> string \<Rightarrow> gomap \<Rightarrow> string \<Rightarrow> go_error option io" where
  "unmountOverlayFS irodsConnectionInfo volID configs mountPath = do {
     err \<leftarrow> UnmountLazy mountPath True;
     case err of
       Some e \<Rightarrow> ret (Some (StatusErr Internal ''Failed to unmount %q: %v'' [AStr mountPath, AErr e]))
     | None \<Rightarrow> do {
         _ \<leftarrow> deleteOverlayFSData (GetConfigOverlayFSWorkDirPath configs volID);
         ret None } }"

definition irods_Unmount :: "string \<Rightarrow> gomap \<Rightarrow> string \<Rightarrow> go_error option io" where
  "irods_Unmount volID configs targetPath = do {
     info \<leftarrow> read_conn_info configs;
     case info of
       Inl e \<Rightarrow> ret (Some e)
     | Inr ci \<Rightarrow>
         let dataRootPath = GetConfigDataRootPath configs volID in
         if \<not> OverlayFS ci then do {
           err \<leftarrow> UnmountLazy targetPath True;
           case err of
             Some e \<Rightarrow> ret (Some (StatusErr Internal ''Failed to unmount %q: %v'' [AStr targetPath, AErr e]))
           | None \<Rightarrow> do {
               _ \<leftarrow> deleteIrodsFuseLiteData dataRootPath;
               ret None } }
         else do {
           err \<leftarrow> unmountOverlayFS ci volID configs targetPath;
           case err of
             Some e \<Rightarrow> ret (Some e)
           | None \<Rightarrow> do {
               let lowerPath = GetConfigOverlayFSLowerPath configs volID;
               err \<leftarrow> UnmountLazy lowerPath True;
               case err of
                 Some e \<Rightarrow> ret (Some (StatusErr Internal ''Failed to unmount %q: %v'' [AStr lowerPath, AErr e]))
               | None \<Rightarrow> do {
                   _ \<leftarrow> deleteIrodsFuseLiteData dataRootPath;
                   _ \<leftarrow> deleteOverlayFSData lowerPath;
                   _ \<leftarrow> go_sync volID ci (GetConfigOverlayFSUpperPath configs volID);
                   ret None } } } }"


section \<open>Lemmas\<close>

lemmas irods_dir_defs = makeIrodsFuseLiteDataRootPath_def makeOverlayFSPath_def
  deleteIrodsFuseLiteData_def deleteOverlayFSData_def

lemma keeps_extends_irods_parts [keeps_rules]:
  "keeps (extends w0) (with_irods_fs conn c)" "keeps (extends w0) (irods_Mkdir conn q)"
  "keeps (extends w0) (irods_Rmdir conn q)" "keeps (extends w0) (TestConnection conn)"
  "keeps (extends w0) (makeIrodsFuseLiteDataRootPath q)" "keeps (extends w0) (makeOverlayFSPath q)"
  "keeps (extends w0) (deleteIrodsFuseLiteData q)" "keeps (extends w0) (deleteOverlayFSData q)"
  "keeps (extends w0) (read_conn_info configs)" "keeps (extends w0) IsOverlayDriverSupported"
  "keeps (extends w0) (mount_irodsfs ci opts yaml q)"
  unfolding with_irods_fs_def irods_Mkdir_def irods_Rmdir_def TestConnection_def irods_dir_defs
    read_conn_info_def IsOverlayDriverSupported_def mount_irodsfs_def
  by (intro keeps_rules)+

lemma keeps_op_irods_parts [keeps_rules]:
  "keeps (op_is p d) (irods_Mkdir conn q)"
  "keeps (op_is p d) (irods_Rmdir conn q)" "keeps (op_is p d) (TestConnection conn)"
  "keeps (op_is p d) (makeIrodsFuseLiteDataRootPath q)" "keeps (op_is p d) (makeOverlayFSPath q)"
  "keeps (op_is p d) (deleteIrodsFuseLiteData q)" "keeps (op_is p d) (deleteOverlayFSData q)"
  "keeps (op_is p d) (read_conn_info configs)" "keeps (op_is p d) IsOverlayDriverSupported"
  "q \<noteq> p \<Longrightarrow> keeps (op_is p d) (mount_irodsfs ci opts yaml q)"
  unfolding with_irods_fs_def irods_Mkdir_def irods_Rmdir_def TestConnection_def irods_dir_defs
    read_conn_info_def IsOverlayDriverSupported_def mount_irodsfs_def
  by (intro keeps_rules; simp)+

lemma keeps_extends_overlay [keeps_rules]:
  "keeps (extends w0) (mountOverlay ci v c t)" "keeps (extends w0) (mountFuseOverlayFS ci v c t)"
  "keeps (extends w0) (unmountOverlayFS ci v c t)"
  unfolding mountOverlay_def mountFuseOverlayFS_def unmountOverlayFS_def Let_def
  by (intro keeps_rules)+

lemma keeps_op_overlay [keeps_rules]:
  assumes "t \<noteq> p"
  shows "keeps (op_is p d) (mountOverlay ci v c t)" and "keeps (op_is p d) (mountFuseOverlayFS ci v c t)"
    and "keeps (op_is p d) (unmountOverlayFS ci v c t)"
  unfolding mountOverlay_def mountFuseOverlayFS_def unmountOverlayFS_def Let_def
  using assms by (intro keeps_rules; simp)+

lemma keeps_extends_irods [keeps_rules]:
  "keeps (extends w0) (mount_under_overlay ci v c opts yaml t)"
  "keeps (extends w0) (irods_Mount v c opts t)" "keeps (extends w0) (irods_Unmount v c t)"
proof -
  show u: "keeps (extends w0) (mount_under_overlay ci v c opts yaml t)" for ci yaml
    unfolding mount_under_overlay_def Let_def by (intro keeps_rules)
  show "keeps (extends w0) (irods_Mount v c opts t)"
    unfolding irods_Mount_def Let_def by (intro keeps_rules u)
  show "keeps (extends w0) (irods_Unmount v c t)"
    unfolding irods_Unmount_def Let_def by (intro keeps_rules)
qed

text \<open>Only the target and the lower layer are mounted on or unmounted.\<close>

lemma keeps_op_irods [keeps_rules]:
  assumes "t \<noteq> p" and "GetConfigOverlayFSLowerPath c v \<noteq> p"
  shows "keeps (op_is p d) (irods_Mount v c opts t)" and "keeps (op_is p d) (irods_Unmount v c t)"
proof -
  have u: "keeps (op_is p d) (mount_under_overlay ci v c opts yaml t)" for ci yaml
    unfolding mount_under_overlay_def Let_def using assms by (intro keeps_rules)
  show "keeps (op_is p d) (irods_Mount v c opts t)"
    unfolding irods_Mount_def Let_def using assms by (intro keeps_rules u)
  show "keeps (op_is p d) (irods_Unmount v c t)"
    unfolding irods_Unmount_def Let_def using assms by (intro keeps_rules; simp)
qed

lemma mount_irodsfs_ok:
  "run_state (mount_irodsfs ci opts yaml q) w = (None, w') \<Longrightarrow> last_op q (w_trace w') = Some Did_mount"
  by (auto simp: mount_irodsfs_def split: prod.splits option.splits dest: MountSensitive2_ok)

lemma mountOverlay_ok:
  "run_state (mountOverlay ci v c t) w = (None, w') \<Longrightarrow> last_op t (w_trace w') = Some Did_mount"
  by (auto simp: mountOverlay_def Let_def split: prod.splits option.splits dest: MountSensitive_ok)

lemma mountFuseOverlayFS_ok:
  "run_state (mountFuseOverlayFS ci v c t) w = (None, w') \<Longrightarrow> last_op t (w_trace w') = Some Did_mount"
  by (auto simp: mountFuseOverlayFS_def Let_def split: prod.splits option.splits dest: MountSensitive2_ok)

lemma mount_under_overlay_ok:
  "run_state (mount_under_overlay ci v c opts yaml t) w = (None, w') \<Longrightarrow>
   last_op t (w_trace w') = Some Did_mount"
  by (auto simp: mount_under_overlay_def Let_def split: prod.splits option.splits if_splits
      dest: mountOverlay_ok mountFuseOverlayFS_ok)

lemma irods_Mount_ok:
  "run_state (irods_Mount v c opts t) w = (None, w') \<Longrightarrow> last_op t (w_trace w') = Some Did_mount"
  by (auto simp: irods_Mount_def Let_def run_the_env split: prod.splits option.splits sum.splits if_splits
      dest: mount_irodsfs_ok mount_under_overlay_ok)

text \<open>What comes after an unmount leaves its mark unless it is about the same path.\<close>

lemma unmountOverlayFS_ok:
  assumes "run_state (unmountOverlayFS ci v c t) w = (None, w')"
  shows "last_op t (w_trace w') = Some Did_unmount"
  using assms
  by (auto simp: unmountOverlayFS_def split: prod.splits option.splits dest: UnmountLazy_ok
      dest!: op_isD [where p = t, OF keeps_op_irods_parts(7)])

lemma irods_Unmount_ok:
  assumes "run_state (irods_Unmount v c t) w = (None, w')"
  shows "last_op t (w_trace w') = Some Did_unmount"
proof -
  let ?lower = "GetConfigOverlayFSLowerPath c v"
  have lz: "last_op t (w_trace w2) = Some Did_unmount"
    if "last_op t (w_trace w1) = Some Did_unmount" "run_state (UnmountLazy ?lower True) w1 = (None, w2)" for w1 w2
    using that UnmountLazy_ok op_isD [OF keeps_op_mounts(4)] by (cases "?lower = t") fastforce+
  show ?thesis
    using assms lz
    by (auto simp: irods_Unmount_def Let_def run_go_sync op_of_def
        split: prod.splits option.splits sum.splits if_splits
        dest: lz UnmountLazy_ok [where tgt = t] unmountOverlayFS_ok
        dest!: op_isD [where p = t, OF keeps_op_irods_parts(7)] op_isD [where p = t, OF keeps_op_irods_parts(6)])
qed

end
