(* ===== verification/Webdav.thy ===== *)
theory Webdav
  imports Node_Mounter
begin

text \<open>
  pkg/client/webdav: the connection information of a WebDAV volume, the davfs2 configuration file
  written for it, and its mount and unmount.
\<close>

section \<open>Connection information\<close>

record webdav_info =
  wd_URL :: string
  wd_User :: string
  wd_Password :: string
  wd_Config :: gomap

definition webdavAnonymousUser :: string where
  "webdavAnonymousUser = ''anonymous''"

definition webdav_SetAnonymousUser :: "webdav_info \<Rightarrow> webdav_info" where
  "webdav_SetAnonymousUser ci = ci\<lparr>wd_User := webdavAnonymousUser\<rparr>"

definition webdav_IsAnonymousUser :: "webdav_info \<Rightarrow> bool" where
  "webdav_IsAnonymousUser ci \<longleftrightarrow> wd_User ci = webdavAnonymousUser"

text \<open>The \<open>config\<close> argument: comma-separated pairs; what is not one key and one value is dropped.\<close>

fun add_config_strings :: "gomap \<Rightarrow> string list \<Rightarrow> gomap" where
  "add_config_strings c [] = c"
| "add_config_strings c (configString # rest) =
     (let configKV = Split (TrimSpace configString) CHR ''='' in
      add_config_strings
        (if length configKV = 2
         then AList.update (TrimSpace (configKV ! 0)) (TrimSpace (configKV ! 1)) c else c) rest)"

definition webdav_set :: "string \<Rightarrow> string \<Rightarrow> webdav_info \<Rightarrow> webdav_info" where
  "webdav_set k v ci =
     (let nk = NormalizeConfigKey k in
      if nk = NormalizeConfigKey ''user'' \<or> nk = NormalizeConfigKey ''username'' then ci\<lparr>wd_User := v\<rparr>
      else if nk = NormalizeConfigKey ''password'' \<or> nk = NormalizeConfigKey ''user_password''
      then ci\<lparr>wd_Password := v\<rparr>
      else if nk = NormalizeConfigKey ''url'' then ci\<lparr>wd_URL := v\<rparr>
      else if nk = NormalizeConfigKey ''config''
      then ci\<lparr>wd_Config := add_config_strings [] (Split v CHR '','')\<rparr>
      else ci)"

fun webdav_getConnectionInfoFromMap :: "gomap \<Rightarrow> webdav_info \<Rightarrow> webdav_info" where
  "webdav_getConnectionInfoFromMap [] ci = ci"
| "webdav_getConnectionInfoFromMap ((k, v) # params) ci =
     webdav_getConnectionInfoFromMap params (webdav_set k v ci)"

definition webdav_GetConnectionInfo :: "irods_lib \<Rightarrow> gomap \<Rightarrow> go_error + webdav_info" where
  "webdav_GetConnectionInfo lib configs =
     (let ci0 = webdav_getConnectionInfoFromMap configs
            \<lparr>wd_URL = [], wd_User = [], wd_Password = [], wd_Config = []\<rparr>;
          ci = (if length (wd_User ci0) = 0 then webdav_SetAnonymousUser ci0 else ci0)
      in if length (wd_Password ci) = 0 \<and> \<not> webdav_IsAnonymousUser ci
         then Inl (StatusErr InvalidArgument ''Argument password is empty'' [])
         else if length (wd_URL ci) = 0
         then Inl (StatusErr InvalidArgument ''Argument url is empty'' [])
         else
           (case lib_parse_uri lib (wd_URL ci) of
              Inl err \<Rightarrow> Inl (StatusErr InvalidArgument ''Invalid URL - %q'' [AStr (wd_URL ci)])
            | Inr _ \<Rightarrow> Inr ci))"


section \<open>The davfs2 configuration file\<close>

record DavFSConfig =
  Params :: gomap

definition NewDefaultDavFSConfig :: DavFSConfig where
  "NewDefaultDavFSConfig = \<lparr>Params = []\<rparr>"

definition AddParam :: "DavFSConfig \<Rightarrow> string \<Rightarrow> string \<Rightarrow> DavFSConfig" where
  "AddParam config key val = config\<lparr>Params := AList.update key val (Params config)\<rparr>"

fun AddParams :: "DavFSConfig \<Rightarrow> gomap \<Rightarrow> DavFSConfig" where
  "AddParams config [] = config"
| "AddParams config ((k, v) # params) = AddParams (AddParam config k v) params"

definition config_lines :: "gomap \<Rightarrow> string" where
  "config_lines params = concat (map (\<lambda>(k, v). k @ '' '' @ v @ [CHR 0x0A]) params)"

definition SaveToFile :: "DavFSConfig \<Rightarrow> string \<Rightarrow> go_error option io" where
  "SaveToFile config name = do {
     visited \<leftarrow> go_range (Params config);
     os_call (WriteFile name (config_lines visited) mode_0664) }"


section \<open>Mount and unmount\<close>

definition makeDavFSDataRootPath :: "string \<Rightarrow> go_error option io" where
  "makeDavFSDataRootPath dataRootPath =
     make_open_dir ''failed to create a davfs data root path %q: %w''
       ''failed to access a davfs data root path %q: %w'' dataRootPath"

definition getDavFSCachePath :: "string \<Rightarrow> string" where
  "getDavFSCachePath dataRootPath = JoinPath [dataRootPath, ''cache'']"

definition makeDavFSCachePath :: "string \<Rightarrow> go_error option io" where
  "makeDavFSCachePath dataRootPath =
     make_open_dir ''failed to create a davfs cache path %q: %w''
       ''failed to access a davfs cache path %q: %w'' (getDavFSCachePath dataRootPath)"

definition deleteDavFSData :: "string \<Rightarrow> go_error option io" where
  "deleteDavFSData dataRootPath = do {
     err \<leftarrow> os_call (RemoveAll dataRootPath);
     case err of
       Some e \<Rightarrow> ret (Some (XErr ''failed to delete a davfs data root path %q: %w'' [AStr dataRootPath, AErr e]))
     | None \<Rightarrow> ret None }"

definition webdav_needs_login :: "webdav_info \<Rightarrow> bool" where
  "webdav_needs_login ci \<longleftrightarrow>
     length (wd_User ci) > 0 \<and> \<not> webdav_IsAnonymousUser ci \<and> length (wd_Password ci) > 0"

definition webdav_Mount :: "string \<Rightarrow> gomap \<Rightarrow> string list \<Rightarrow> string \<Rightarrow> go_error option io" where
  "webdav_Mount volID configs mntOptions targetPath = do {
     env \<leftarrow> the_env;
     visited \<leftarrow> go_range configs;
     case webdav_GetConnectionInfo (e_lib env) visited of
       Inl e \<Rightarrow> ret (Some e)
     | Inr ci \<Rightarrow> do {
     let dataRootPath = GetConfigDataRootPath configs volID;
     err \<leftarrow> makeDavFSDataRootPath dataRootPath;
     case err of
       Some e \<Rightarrow> ret (Some (StatusErr Internal ''%s'' [AErr e]))
     | None \<Rightarrow> do {
     err \<leftarrow> makeDavFSCachePath dataRootPath;
     case err of
       Some e \<Rightarrow> ret (Some (StatusErr Internal ''%s'' [AErr e]))
     | None \<Rightarrow> do {
     params \<leftarrow> go_range (wd_Config ci);
     let davFsConfig = AddParam (AddParams NewDefaultDavFSConfig params) ''cache_dir''
       (getDavFSCachePath dataRootPath);
     let configPath = JoinPath [dataRootPath, ''davfs2.conf''];
     err \<leftarrow> SaveToFile davFsConfig configPath;
     case err of
       Some e \<Rightarrow> ret (Some (StatusErr Internal ''%s'' [AErr e]))
     | None \<Rightarrow> do {
     let mountOptions = [''conf='' @ configPath] @ mntOptions;
     let mountSensitiveOptions = (if webdav_needs_login ci then [''username='' @ wd_User ci] else []);
     let stdinArgs = (if webdav_needs_login ci then [wd_Password ci] else []);
     err \<leftarrow> MountSensitive2 (wd_URL ci) (wd_URL ci) targetPath ''davfs'' mountOptions mountSensitiveOptions
       (Some stdinArgs);
     case err of
       Some e \<Rightarrow> ret (Some (StatusErr Internal ''Failed to mount %q (%q) at %q: %v''
         [AStr (wd_URL ci), AStr ''davfs'', AStr targetPath, AErr e]))
     | None \<Rightarrow> ret None } } } } }"

definition webdav_Unmount :: "string \<Rightarrow> gomap \<Rightarrow> string \<Rightarrow> go_error option io" where
  "webdav_Unmount volID configs targetPath = do {
     err \<leftarrow> UnmountLazy targetPath True;
     case err of
       Some e \<Rightarrow> ret (Some (StatusErr Internal ''Failed to unmount %q: %v'' [AStr targetPath, AErr e]))
     | None \<Rightarrow> do {
         _ \<leftarrow> deleteDavFSData (GetConfigDataRootPath configs volID);
         ret None } }"


section \<open>Lemmas\<close>

lemma webdav_GetConnectionInfo_ok:
  "webdav_GetConnectionInfo lib configs = Inr ci \<Longrightarrow>
   wd_User ci \<noteq> [] \<and> (wd_Password ci \<noteq> [] \<or> webdav_IsAnonymousUser ci) \<and> wd_URL ci \<noteq> [] \<and>
   \<not> isl (lib_parse_uri lib (wd_URL ci))"
  by (auto simp: webdav_GetConnectionInfo_def Let_def webdav_SetAnonymousUser_def
      webdavAnonymousUser_def split: if_splits sum.splits)

lemma AddParams_ok: "go_map_ok (Params c) \<Longrightarrow> go_map_ok (Params (AddParams c ps))"
  by (induction c ps rule: AddParams.induct) (auto simp: AddParam_def)

text \<open>The driver's own cache directory wins over a \<open>cache_dir\<close> of the user's.\<close>

lemma AddParam_lookup: "map_of (Params (AddParam c k v)) k = Some v"
  by (simp add: AddParam_def update_conv')

lemma keeps_webdav_parts [keeps_rules]:
  "keeps (extends w0) (SaveToFile c n)" "keeps (extends w0) (makeDavFSDataRootPath q)"
  "keeps (extends w0) (makeDavFSCachePath q)" "keeps (extends w0) (deleteDavFSData q)"
  "keeps (op_is p d) (SaveToFile c n)" "keeps (op_is p d) (makeDavFSDataRootPath q)"
  "keeps (op_is p d) (makeDavFSCachePath q)" "keeps (op_is p d) (deleteDavFSData q)"
  unfolding SaveToFile_def makeDavFSDataRootPath_def makeDavFSCachePath_def deleteDavFSData_def
  by (intro keeps_rules; simp)+

lemma keeps_extends_webdav [keeps_rules]:
  "keeps (extends w0) (webdav_Mount v c opts t)" "keeps (extends w0) (webdav_Unmount v c t)"
  unfolding webdav_Mount_def webdav_Unmount_def Let_def by (intro keeps_rules)+

lemma keeps_op_webdav [keeps_rules]:
  assumes "t \<noteq> p"
  shows "keeps (op_is p d) (webdav_Mount v c opts t)" and "keeps (op_is p d) (webdav_Unmount v c t)"
  unfolding webdav_Mount_def webdav_Unmount_def Let_def using assms by (intro keeps_rules; simp)+

lemma webdav_Mount_ok:
  "run_state (webdav_Mount v c opts t) w = (None, w') \<Longrightarrow> last_op t (w_trace w') = Some Did_mount"
  by (auto simp: webdav_Mount_def Let_def run_the_env split: prod.splits option.splits sum.splits
      dest: MountSensitive2_ok)

lemma webdav_Unmount_ok:
  "run_state (webdav_Unmount v c t) w = (None, w') \<Longrightarrow> last_op t (w_trace w') = Some Did_unmount"
  by (auto simp: webdav_Unmount_def split: prod.splits option.splits dest: UnmountLazy_ok
      dest!: op_isD [where p = t, OF keeps_webdav_parts(8)])

end
