(* ===== verification/Nfs.thy ===== *)
theory Nfs
  imports Node_Mounter
begin

text \<open>pkg/client/nfs: the connection information of an NFS volume, its mount and unmount.\<close>

record nfs_info =
  nfs_Hostname :: string
  nfs_Port :: int
  nfs_Path :: string

definition nfs_set :: "string \<Rightarrow> string \<Rightarrow> nfs_info \<Rightarrow> go_error + nfs_info" where
  "nfs_set k v ci =
     (let nk = NormalizeConfigKey k in
      if nk = NormalizeConfigKey ''host'' \<or> nk = NormalizeConfigKey ''hostname'' then Inr (ci\<lparr>nfs_Hostname := v\<rparr>)
      else if nk = NormalizeConfigKey ''port'' then
        (case Atoi v of
           None \<Rightarrow> Inl (arg_err ''Argument %q must be a valid port number - %v'' k v)
         | Some p \<Rightarrow> Inr (ci\<lparr>nfs_Port := p\<rparr>))
      else if nk = NormalizeConfigKey ''path'' then Inr (ci\<lparr>nfs_Path := v\<rparr>)
      else Inr ci)"

fun nfs_getConnectionInfoFromMap :: "gomap \<Rightarrow> nfs_info \<Rightarrow> go_error + nfs_info" where
  "nfs_getConnectionInfoFromMap [] ci = Inr ci"
| "nfs_getConnectionInfoFromMap ((k, v) # params) ci =
     (case nfs_set k v ci of
        Inl err \<Rightarrow> Inl err
      | Inr ci' \<Rightarrow> nfs_getConnectionInfoFromMap params ci')"

definition nfs_GetConnectionInfo :: "gomap \<Rightarrow> go_error + nfs_info" where
  "nfs_GetConnectionInfo configs =
     (case nfs_getConnectionInfoFromMap configs \<lparr>nfs_Hostname = [], nfs_Port = 0, nfs_Path = []\<rparr> of
        Inl err \<Rightarrow> Inl err
      | Inr ci \<Rightarrow>
          if length (nfs_Hostname ci) = 0 then Inl (StatusErr InvalidArgument ''Argument host is empty'' [])
          else if length (nfs_Path ci) = 0 then Inl (StatusErr InvalidArgument ''Argument path is empty'' [])
          else Inr (if nfs_Port ci \<le> 0 then ci\<lparr>nfs_Port := 2049\<rparr> else ci))"

definition nfs_source :: "nfs_info \<Rightarrow> string" where
  "nfs_source ci = nfs_Hostname ci @ '':'' @ nfs_Path ci"

definition nfs_options :: "nfs_info \<Rightarrow> string list \<Rightarrow> string list" where
  "nfs_options ci mntOptions =
     mntOptions @ (if nfs_Port ci \<noteq> 2049 then [''port='' @ Itoa (nfs_Port ci)] else [])"

definition nfs_Mount :: "string \<Rightarrow> gomap \<Rightarrow> string list \<Rightarrow> string \<Rightarrow> go_error option io" where
  "nfs_Mount volID configs mntOptions targetPath = do {
     visited \<leftarrow> go_range configs;
     case nfs_GetConnectionInfo visited of
       Inl e \<Rightarrow> ret (Some e)
     | Inr ci \<Rightarrow> do {
         err \<leftarrow> MountSensitive2 (nfs_source ci) (nfs_source ci) targetPath ''nfs'' (nfs_options ci mntOptions) []
           (Some []);
         case err of
           Some e \<Rightarrow> ret (Some (StatusErr Internal ''Failed to mount %q (%q) at %q: %v''
             [AStr (nfs_source ci), AStr ''nfs'', AStr targetPath, AErr e]))
         | None \<Rightarrow> ret None } }"

definition nfs_Unmount :: "string \<Rightarrow> gomap \<Rightarrow> string \<Rightarrow> go_error option io" where
  "nfs_Unmount volID configs targetPath = do {
     err \<leftarrow> Unmount targetPath;
     case err of
       Some e \<Rightarrow> ret (Some (StatusErr Internal ''Failed to unmount %q: %v'' [AStr targetPath, AErr e]))
     | None \<Rightarrow> ret None }"


section \<open>Lemmas\<close>

lemma nfs_GetConnectionInfo_ok:
  "nfs_GetConnectionInfo configs = Inr ci \<Longrightarrow>
   nfs_Hostname ci \<noteq> [] \<and> nfs_Path ci \<noteq> [] \<and> 0 < nfs_Port ci"
  by (auto simp: nfs_GetConnectionInfo_def split: sum.splits if_splits)

lemma keeps_extends_nfs [keeps_rules]:
  "keeps (extends w0) (nfs_Mount v c opts t)" "keeps (extends w0) (nfs_Unmount v c t)"
  unfolding nfs_Mount_def nfs_Unmount_def by (intro keeps_rules)+

lemma keeps_op_nfs [keeps_rules]:
  assumes "t \<noteq> p"
  shows "keeps (op_is p d) (nfs_Mount v c opts t)" and "keeps (op_is p d) (nfs_Unmount v c t)"
  unfolding nfs_Mount_def nfs_Unmount_def using assms by (intro keeps_rules; simp)+

lemma nfs_Mount_ok:
  "run_state (nfs_Mount v c opts t) w = (None, w') \<Longrightarrow> last_op t (w_trace w') = Some Did_mount"
  by (auto simp: nfs_Mount_def split: prod.splits option.splits sum.splits dest: MountSensitive2_ok)

lemma nfs_Unmount_ok:
  "run_state (nfs_Unmount v c t) w = (None, w') \<Longrightarrow> last_op t (w_trace w') = Some Did_unmount"
  by (auto simp: nfs_Unmount_def split: prod.splits option.splits dest: Unmount_ok)

end
