(* ===== verification/Metrics.thy ===== *)
theory Metrics
  imports Prelude
begin

text \<open>
  pkg/metrics/metrics.go: four Prometheus counters and one gauge. The balance between them
  (the gauge is the mounts minus the unmounts) is the invariant every handler of the driver has
  to keep; the handlers raise a counter and move the gauge in two calls.
\<close>

record metrics =
  promCounterForVolumeMount :: nat
  promCounterForVolumeUnmount :: nat
  promCounterForActiveVolumeMount :: int
  promCounterForVolumeMountFailures :: nat
  promCounterForVolumeUnmountFailures :: nat

definition metrics_init :: metrics where
  "metrics_init = \<lparr>promCounterForVolumeMount = 0, promCounterForVolumeUnmount = 0,
     promCounterForActiveVolumeMount = 0, promCounterForVolumeMountFailures = 0,
     promCounterForVolumeUnmountFailures = 0\<rparr>"

definition IncreaseCounterForVolumeMount :: "metrics \<Rightarrow> metrics" where
  "IncreaseCounterForVolumeMount m = m\<lparr>promCounterForVolumeMount := promCounterForVolumeMount m + 1\<rparr>"

definition IncreaseCounterForVolumeUnmount :: "metrics \<Rightarrow> metrics" where
  "IncreaseCounterForVolumeUnmount m = m\<lparr>promCounterForVolumeUnmount := promCounterForVolumeUnmount m + 1\<rparr>"

definition IncreaseCounterForActiveVolumeMount :: "metrics \<Rightarrow> metrics" where
  "IncreaseCounterForActiveVolumeMount m =
     m\<lparr>promCounterForActiveVolumeMount := promCounterForActiveVolumeMount m + 1\<rparr>"

definition DecreaseCounterForActiveVolumeMount :: "metrics \<Rightarrow> metrics" where
  "DecreaseCounterForActiveVolumeMount m =
     m\<lparr>promCounterForActiveVolumeMount := promCounterForActiveVolumeMount m - 1\<rparr>"

definition IncreaseCounterForVolumeMountFailures :: "metrics \<Rightarrow> metrics" where
  "IncreaseCounterForVolumeMountFailures m =
     m\<lparr>promCounterForVolumeMountFailures := promCounterForVolumeMountFailures m + 1\<rparr>"

definition IncreaseCounterForVolumeUnmountFailures :: "metrics \<Rightarrow> metrics" where
  "IncreaseCounterForVolumeUnmountFailures m =
     m\<lparr>promCounterForVolumeUnmountFailures := promCounterForVolumeUnmountFailures m + 1\<rparr>"

lemmas metrics_defs = IncreaseCounterForVolumeMount_def IncreaseCounterForVolumeUnmount_def
  IncreaseCounterForActiveVolumeMount_def DecreaseCounterForActiveVolumeMount_def
  IncreaseCounterForVolumeMountFailures_def IncreaseCounterForVolumeUnmountFailures_def

definition balanced :: "metrics \<Rightarrow> bool" where
  "balanced m \<longleftrightarrow> promCounterForActiveVolumeMount m =
     int (promCounterForVolumeMount m) - int (promCounterForVolumeUnmount m)"

text \<open>What one operation of the driver added to the counters.\<close>

datatype metrics_step = Quiet | Mounted_one | Unmounted_one | Mount_failure | Unmount_failure

fun apply_step :: "metrics_step \<Rightarrow> metrics \<Rightarrow> metrics" where
  "apply_step Quiet m = m"
| "apply_step Mounted_one m = IncreaseCounterForActiveVolumeMount (IncreaseCounterForVolumeMount m)"
| "apply_step Unmounted_one m = DecreaseCounterForActiveVolumeMount (IncreaseCounterForVolumeUnmount m)"
| "apply_step Mount_failure m = IncreaseCounterForVolumeMountFailures m"
| "apply_step Unmount_failure m = IncreaseCounterForVolumeUnmountFailures m"

lemma balanced_init: "balanced metrics_init"
  by (simp add: balanced_def metrics_init_def)

lemma balanced_step: "balanced m \<Longrightarrow> balanced (apply_step s m)"
  by (cases s) (simp_all add: balanced_def metrics_defs)

end
