(* ===== verification/Client.thy ===== *)
theory Client
  imports Irods_Mount Webdav Nfs Metrics
begin

text \<open>
  pkg/client/client.go: the dispatch of a mount or an unmount to one of the three clients, with
  the counters each outcome moves. The contract the three clients share is the locale
  \<open>mount_client\<close>: a successful mount (unmount) is the last operation on the target, no other
  path but the client's own is touched, and the world is only extended. It is interpreted on
  the three clients, and the dispatch rests on it.
\<close>

record process =
  p_world :: world
  p_metrics :: metrics

definition in_world :: "'a io \<Rightarrow> (process, 'a) state" where
  "in_world m = zoom p_world (\<lambda>w p. p\<lparr>p_world := w\<rparr>) m"

definition count :: "(metrics \<Rightarrow> metrics) \<Rightarrow> (process, unit) state" where
  "count f = modify (\<lambda>p. p\<lparr>p_metrics := f (p_metrics p)\<rparr>)"

lemma run_in_world [simp]:
  "run_state (in_world m) p = (let (a, w) = run_state m (p_world p) in (a, p\<lparr>p_world := w\<rparr>))"
  by (simp add: in_world_def)

lemma run_count [simp]: "run_state (count f) p = ((), p\<lparr>p_metrics := f (p_metrics p)\<rparr>)"
  by (simp add: count_def)

text \<open>The three branches of \<open>MountClient\<close> (\<open>UnmountClient\<close>) have one shape.\<close>

definition counted_mount :: "go_error option io \<Rightarrow> string \<Rightarrow> (process, go_error option) state" where
  "counted_mount mnt targetPath = do {
     err \<leftarrow> in_world mnt;
     case err of
       Some e \<Rightarrow> do {
         _ \<leftarrow> in_world (os_call (OsRemove targetPath));
         _ \<leftarrow> count IncreaseCounterForVolumeMountFailures;
         ret (Some e) }
     | None \<Rightarrow> do {
         _ \<leftarrow> count IncreaseCounterForVolumeMount;
         _ \<leftarrow> count IncreaseCounterForActiveVolumeMount;
         ret None } }"

definition counted_unmount :: "go_error option io \<Rightarrow> (process, go_error option) state" where
  "counted_unmount umnt = do {
     err \<leftarrow> in_world umnt;
     case err of
       Some e \<Rightarrow> do {
         _ \<leftarrow> count IncreaseCounterForVolumeUnmountFailures;
         ret (Some e) }
     | None \<Rightarrow> do {
         _ \<leftarrow> count IncreaseCounterForVolumeUnmount;
         _ \<leftarrow> count DecreaseCounterForActiveVolumeMount;
         ret None } }"

definition MountClient :: "string \<Rightarrow> gomap \<Rightarrow> string list \<Rightarrow> string \<Rightarrow> (process, go_error option) state" where
  "MountClient volID configs mountOptions targetPath =
     (case GetClientType configs of
        IrodsFuseClientType \<Rightarrow> counted_mount (irods_Mount volID configs mountOptions targetPath) targetPath
      | WebdavClientType \<Rightarrow> counted_mount (webdav_Mount volID configs mountOptions targetPath) targetPath
      | NfsClientType \<Rightarrow> counted_mount (nfs_Mount volID configs mountOptions targetPath) targetPath)"

definition UnmountClient :: "string \<Rightarrow> client_type \<Rightarrow> gomap \<Rightarrow> string \<Rightarrow> (process, go_error option) state" where
  "UnmountClient volID irodsClientType configs targetPath =
     (case irodsClientType of
        IrodsFuseClientType \<Rightarrow> counted_unmount (irods_Unmount volID configs targetPath)
      | WebdavClientType \<Rightarrow> counted_unmount (webdav_Unmount volID configs targetPath)
      | NfsClientType \<Rightarrow> counted_unmount (nfs_Unmount volID configs targetPath))"


section \<open>The contract of a client\<close>

locale mount_client =
  fixes cmount :: "string \<Rightarrow> gomap \<Rightarrow> string list \<Rightarrow> string \<Rightarrow> go_error option io"
    and cunmount :: "string \<Rightarrow> gomap \<Rightarrow> string \<Rightarrow> go_error option io"
    and own :: "gomap \<Rightarrow> string \<Rightarrow> string set"
  assumes mount_extends: "keeps (extends w0) (cmount v c opts t)"
    and unmount_extends: "keeps (extends w0) (cunmount v c t)"
    and mount_ok: "run_state (cmount v c opts t) w = (None, w') \<Longrightarrow> last_op t (w_trace w') = Some Did_mount"
    and unmount_ok: "run_state (cunmount v c t) w = (None, w') \<Longrightarrow> last_op t (w_trace w') = Some Did_unmount"
    and mount_frame: "t \<noteq> p \<Longrightarrow> p \<notin> own c v \<Longrightarrow> keeps (op_is p d) (cmount v c opts t)"
    and unmount_frame: "t \<noteq> p \<Longrightarrow> p \<notin> own c v \<Longrightarrow> keeps (op_is p d) (cunmount v c t)"
begin

lemma counted_mount_spec:
  assumes "run_state (counted_mount (cmount v c opts t) t) p = (r, p')"
  shows "p_metrics p' = apply_step (if r = None then Mounted_one else Mount_failure) (p_metrics p)
    \<and> extends (p_world p) (p_world p')
    \<and> (r = None \<longrightarrow> last_op t (w_trace (p_world p')) = Some Did_mount)"
proof -
  obtain e w1 where m: "run_state (cmount v c opts t) (p_world p) = (e, w1)" by force
  then have x: "extends (p_world p) w1" by (rule extendsD [OF mount_extends])
  show ?thesis
    using assms m x mount_ok [of v c opts t "p_world p" w1]
    by (cases e) (auto simp: counted_mount_def run_os_call Let_def)
qed

lemma counted_unmount_spec:
  assumes "run_state (counted_unmount (cunmount v c t)) p = (r, p')"
  shows "p_metrics p' = apply_step (if r = None then Unmounted_one else Unmount_failure) (p_metrics p)
    \<and> extends (p_world p) (p_world p')
    \<and> (r = None \<longrightarrow> last_op t (w_trace (p_world p')) = Some Did_unmount)"
proof -
  obtain e w1 where m: "run_state (cunmount v c t) (p_world p) = (e, w1)" by force
  then have x: "extends (p_world p) w1" by (rule extendsD [OF unmount_extends])
  show ?thesis
    using assms m x unmount_ok [of v c t "p_world p" w1]
    by (cases e) (auto simp: counted_unmount_def)
qed

lemma counted_mount_frame:
  assumes "run_state (counted_mount (cmount v c opts t) t) p = (r, p')"
    and "t \<noteq> q" and "q \<notin> own c v"
  shows "last_op q (w_trace (p_world p')) = last_op q (w_trace (p_world p))"
proof -
  obtain e w1 where m: "run_state (cmount v c opts t) (p_world p) = (e, w1)" by force
  then have "last_op q (w_trace w1) = last_op q (w_trace (p_world p))"
    by (rule op_isD [rotated]) (rule mount_frame [OF assms(2,3)])
  then show ?thesis
    using assms(1) m by (cases e) (auto simp: counted_mount_def run_os_call Let_def op_of_def)
qed

end

interpretation irods_client: mount_client irods_Mount irods_Unmount
  "\<lambda>c v. {GetConfigOverlayFSLowerPath c v}"
  by unfold_locales (auto intro: keeps_rules dest: irods_Mount_ok irods_Unmount_ok)

interpretation webdav_client: mount_client webdav_Mount webdav_Unmount "\<lambda>c v. {}"
  by unfold_locales (auto intro: keeps_rules dest: webdav_Mount_ok webdav_Unmount_ok)

interpretation nfs_client: mount_client nfs_Mount nfs_Unmount "\<lambda>c v. {}"
  by unfold_locales (auto intro: keeps_rules dest: nfs_Mount_ok nfs_Unmount_ok)


section \<open>The dispatch\<close>

lemma MountClient_spec:
  assumes "run_state (MountClient v c opts t) p = (r, p')"
  shows "p_metrics p' = apply_step (if r = None then Mounted_one else Mount_failure) (p_metrics p)"
    and "extends (p_world p) (p_world p')"
    and "r = None \<Longrightarrow> last_op t (w_trace (p_world p')) = Some Did_mount"
  using assms
  by (auto simp: MountClient_def split: client_type.splits dest: irods_client.counted_mount_spec
      webdav_client.counted_mount_spec nfs_client.counted_mount_spec)

lemma UnmountClient_spec:
  assumes "run_state (UnmountClient v ct c t) p = (r, p')"
  shows "p_metrics p' = apply_step (if r = None then Unmounted_one else Unmount_failure) (p_metrics p)"
    and "extends (p_world p) (p_world p')"
    and "r = None \<Longrightarrow> last_op t (w_trace (p_world p')) = Some Did_unmount"
  using assms
  by (auto simp: UnmountClient_def split: client_type.splits dest: irods_client.counted_unmount_spec
      webdav_client.counted_unmount_spec nfs_client.counted_unmount_spec)

lemma MountClient_frame:
  assumes "run_state (MountClient v c opts t) p = (r, p')"
    and "t \<noteq> q" and "q \<noteq> GetConfigOverlayFSLowerPath c v"
  shows "last_op q (w_trace (p_world p')) = last_op q (w_trace (p_world p))"
  using assms
  by (auto simp: MountClient_def split: client_type.splits dest: irods_client.counted_mount_frame
      webdav_client.counted_mount_frame nfs_client.counted_mount_frame)

end
