(* ===== verification/Volume_Store.thy ===== *)
theory Volume_Store
  imports World
begin

text \<open>
  pkg/volumeinfo: the encryption of the save file (encrypt.go) and the two volume managers
  (controller_volume.go, node_volume.go). The managers are the same code for two types of
  volume, so the operations are written once for a codec and instantiated with the two of Volume_Json. An operation
  that changes the map of volumes returns the changed manager. The mutex makes each operation
  one step, which is how they are modelled.

  The contract of a volume store is the locale \<open>volume_store\<close>; both managers interpret it, and a
  history of operations on either refines the same operations on a partial map, whatever
  happens to the save file.
\<close>

section \<open>Encryption\<close>

definition getEncryptionKey :: "string \<Rightarrow> string" where
  "getEncryptionKey key = take 32 key @ replicate (32 - length key) (CHR 0x00)"

definition nonceSize :: nat where
  "nonceSize = 12"

definition encrypt :: "string \<Rightarrow> string \<Rightarrow> (go_error + string) io" where
  "encrypt plaintext key = do {
     e \<leftarrow> the_env;
     r \<leftarrow> rand_read nonceSize;
     case r of
       Inl err \<Rightarrow> ret (Inl err)
     | Inr nonce \<Rightarrow> ret (Inr (nonce @ e_seal e (getEncryptionKey key) nonce plaintext)) }"

text \<open>
  A file shorter than the nonce makes the slice expressions of \<open>decrypt\<close> panic: \<open>None\<close> is the panic.
\<close>

definition decrypt :: "env \<Rightarrow> string \<Rightarrow> string \<Rightarrow> (go_error + string) option" where
  "decrypt e encryptedtext key =
     (if length encryptedtext < nonceSize then None
      else Some (e_open e (getEncryptionKey key) (take nonceSize encryptedtext) (drop nonceSize encryptedtext)))"


section \<open>Managers\<close>

record 'v manager =
  mg_encryptKey :: string
  mg_savefilePath :: string
  mg_volumes :: "'v volumes"

definition write_savefile :: "string \<Rightarrow> string \<Rightarrow> go_error option io" where
  "write_savefile path bytes = do {
     r \<leftarrow> os_call (WriteFile path bytes mode_0644);
     case r of
       Some e \<Rightarrow> ret (Some (StatusErr Internal ''write file %q error: %s'' [AStr path, AErr e]))
     | None \<Rightarrow> ret None }"

definition manager_save :: "'v codec \<Rightarrow> 'v manager \<Rightarrow> go_error option io" where
  "manager_save cd mgr =
     (case cd_marshal cd (mg_volumes mgr) of
        Inl e \<Rightarrow> ret (Some (StatusErr Internal ''json marshal error: %s'' [AErr e]))
      | Inr jsonBytes \<Rightarrow>
          if mg_encryptKey mgr \<noteq> [] then do {
            r \<leftarrow> encrypt jsonBytes (mg_encryptKey mgr);
            case r of
              Inl e \<Rightarrow> ret (Some (StatusErr Internal ''encrypt error: %s'' [AErr e]))
            | Inr encryptedBytes \<Rightarrow> write_savefile (mg_savefilePath mgr) encryptedBytes }
          else write_savefile (mg_savefilePath mgr) jsonBytes)"

abbreviation (input) invalid_json :: "go_error option" where
  "invalid_json \<equiv> Some (StatusErr Internal ''invalid json data'' [])"

definition unmarshal_volumes :: "'v codec \<Rightarrow> string \<Rightarrow> 'v volumes \<Rightarrow> 'v volumes \<times> go_error option" where
  "unmarshal_volumes cd bytes old =
     (case cd_unmarshal cd bytes old of
        (vs, Some e) \<Rightarrow> (vs, Some (StatusErr Internal ''json unmarshal error: %s'' [AErr e]))
      | (vs, None) \<Rightarrow> (vs, None))"

text \<open>
  What \<open>load\<close> makes of the content of the file: the volumes, and the error it returns. With a
  key, a good text gives no error; without one, the code falls through to the last return after
  it has unmarshalled the text.
\<close>

definition load_encrypted :: "'v codec \<Rightarrow> env \<Rightarrow> 'v manager \<Rightarrow> string \<Rightarrow> ('v volumes \<times> go_error option) option" where
  "load_encrypted cd e mgr dataBytes =
     (case decrypt e dataBytes (mg_encryptKey mgr) of
        None \<Rightarrow> None
      | Some (Inl err) \<Rightarrow> Some (mg_volumes mgr, Some (StatusErr Internal ''decrypt error: %s'' [AErr err]))
      | Some (Inr decryptedBytes) \<Rightarrow>
          if decryptedBytes \<noteq> [] \<and> cd_valid cd decryptedBytes
          then Some (unmarshal_volumes cd decryptedBytes (mg_volumes mgr))
          else if decryptedBytes = [] then Some (mg_volumes mgr, None)
          else Some (mg_volumes mgr, invalid_json))"

definition load_plain :: "'v codec \<Rightarrow> 'v manager \<Rightarrow> string \<Rightarrow> 'v volumes \<times> go_error option" where
  "load_plain cd mgr dataBytes =
     (if dataBytes = [] then (mg_volumes mgr, None)
      else if cd_valid cd dataBytes then
        (case unmarshal_volumes cd dataBytes (mg_volumes mgr) of
           (vs, Some e) \<Rightarrow> (vs, Some e)
         | (vs, None) \<Rightarrow> (vs, invalid_json))
      else (mg_volumes mgr, invalid_json))"

definition manager_load :: "'v codec \<Rightarrow> 'v manager \<Rightarrow> ('v volumes \<times> go_error option) option io" where
  "manager_load cd mgr = do {
     st \<leftarrow> os_stat (mg_savefilePath mgr);
     case st of
       Inl err \<Rightarrow>
         if IsNotExist err then ret (Some (mg_volumes mgr, None))
         else ret (Some (mg_volumes mgr, Some (StatusErr Internal ''stat file %q error: %s''
           [AStr (mg_savefilePath mgr), AErr err])))
     | Inr _ \<Rightarrow> do {
         r \<leftarrow> os_read_file (mg_savefilePath mgr);
         case r of
           Inl err \<Rightarrow> ret (Some (mg_volumes mgr, Some (StatusErr Internal ''read file %q error: %s''
             [AStr (mg_savefilePath mgr), AErr err])))
         | Inr dataBytes \<Rightarrow> do {
             e \<leftarrow> the_env;
             ret (if mg_encryptKey mgr \<noteq> [] then load_encrypted cd e mgr dataBytes
                  else Some (load_plain cd mgr dataBytes)) } } }"

text \<open>An error of \<open>load\<close> is logged and ignored; a panic is not.\<close>

definition new_manager :: "'v codec \<Rightarrow> string \<Rightarrow> string \<Rightarrow> string \<Rightarrow> 'v manager option io" where
  "new_manager cd fileName encryptKey saveDirPath = do {
     let dir = (if saveDirPath = [] then ''/'' else saveDirPath);
     let mgr = \<lparr>mg_encryptKey = encryptKey, mg_savefilePath = JoinPath [dir, fileName], mg_volumes = []\<rparr>;
     r \<leftarrow> manager_load cd mgr;
     case r of
       None \<Rightarrow> ret None
     | Some (vs, _) \<Rightarrow> ret (Some (mgr\<lparr>mg_volumes := vs\<rparr>)) }"

definition manager_Get :: "'v manager \<Rightarrow> string \<Rightarrow> 'v option" where
  "manager_Get mgr k = map_of (mg_volumes mgr) k"

definition manager_Check :: "'v manager \<Rightarrow> string \<Rightarrow> bool" where
  "manager_Check mgr k \<longleftrightarrow> k \<in> set (map fst (mg_volumes mgr))"

definition manager_Put :: "'v codec \<Rightarrow> string \<Rightarrow> 'v \<Rightarrow> 'v manager \<Rightarrow> (go_error option \<times> 'v manager) io" where
  "manager_Put cd k v mgr = do {
     let mgr = mgr\<lparr>mg_volumes := AList.update k v (mg_volumes mgr)\<rparr>;
     err \<leftarrow> manager_save cd mgr;
     ret (err, mgr) }"

text \<open>\<open>Pop\<close> returns the volume and the error of \<open>save\<close> together.\<close>

definition manager_Pop :: "'v codec \<Rightarrow> string \<Rightarrow> 'v manager \<Rightarrow> (('v option \<times> go_error option) \<times> 'v manager) io" where
  "manager_Pop cd k mgr =
     (case map_of (mg_volumes mgr) k of
        Some vol \<Rightarrow> do {
          let mgr = mgr\<lparr>mg_volumes := AList.delete k (mg_volumes mgr)\<rparr>;
          err \<leftarrow> manager_save cd mgr;
          ret ((Some vol, err), mgr) }
      | None \<Rightarrow> ret ((None, None), mgr))"


section \<open>The two managers\<close>

definition NewControllerVolumeManager :: "string \<Rightarrow> string \<Rightarrow> controller_volume manager option io" where
  "NewControllerVolumeManager encryptKey saveDirPath = do {
     e \<leftarrow> the_env; new_manager (controller_codec (e_conn_json e)) ''controller_volumes.json'' encryptKey saveDirPath }"

definition ControllerVolumeManager_Put ::
  "controller_volume \<Rightarrow> controller_volume manager \<Rightarrow> (go_error option \<times> controller_volume manager) io" where
  "ControllerVolumeManager_Put v mgr = do { e \<leftarrow> the_env; manager_Put (controller_codec (e_conn_json e)) (cv_ID v) v mgr }"

definition ControllerVolumeManager_Pop ::
  "string \<Rightarrow> controller_volume manager \<Rightarrow> ((controller_volume option \<times> go_error option) \<times> controller_volume manager) io" where
  "ControllerVolumeManager_Pop k mgr = do { e \<leftarrow> the_env; manager_Pop (controller_codec (e_conn_json e)) k mgr }"

definition NewNodeVolumeManager :: "string \<Rightarrow> string \<Rightarrow> node_volume manager option io" where
  "NewNodeVolumeManager encryptKey saveDirPath = new_manager node_codec ''node_volumes.json'' encryptKey saveDirPath"

definition NodeVolumeManager_Put ::
  "node_volume \<Rightarrow> node_volume manager \<Rightarrow> (go_error option \<times> node_volume manager) io" where
  "NodeVolumeManager_Put v mgr = manager_Put node_codec (nv_ID v) v mgr"

definition NodeVolumeManager_Pop ::
  "string \<Rightarrow> node_volume manager \<Rightarrow> ((node_volume option \<times> go_error option) \<times> node_volume manager) io" where
  "NodeVolumeManager_Pop k mgr = manager_Pop node_codec k mgr"


text \<open>The parts of the node's manager that the generic operations use, at its type.\<close>

definition NodeVolumeManager_save :: "node_volume manager \<Rightarrow> go_error option io" where
  "NodeVolumeManager_save mgr = manager_save node_codec mgr"

definition NodeVolumeManager_load :: "node_volume manager \<Rightarrow> (node_volume volumes \<times> go_error option) option io" where
  "NodeVolumeManager_load mgr = manager_load node_codec mgr"

definition NodeVolumeManager_Get :: "node_volume manager \<Rightarrow> string \<Rightarrow> node_volume option" where
  "NodeVolumeManager_Get mgr k = manager_Get mgr k"

definition NodeVolumeManager_Check :: "node_volume manager \<Rightarrow> string \<Rightarrow> bool" where
  "NodeVolumeManager_Check mgr k = manager_Check mgr k"


section \<open>The contract of a volume store\<close>

text \<open>Every volume is stored once, under its own ID.\<close>

definition store_wf :: "('v \<Rightarrow> string) \<Rightarrow> 'v manager \<Rightarrow> bool" where
  "store_wf vid mgr \<longleftrightarrow> distinct (map fst (mg_volumes mgr)) \<and> (\<forall>(k, v) \<in> set (mg_volumes mgr). vid v = k)"

datatype 'v store_op = Op_Put 'v | Op_Pop string

text \<open>The specification: a partial map from IDs to volumes.\<close>

fun op_spec :: "('v \<Rightarrow> string) \<Rightarrow> 'v store_op \<Rightarrow> (string \<rightharpoonup> 'v) \<Rightarrow> (string \<rightharpoonup> 'v)" where
  "op_spec vid (Op_Put v) s = s(vid v \<mapsto> v)"
| "op_spec vid (Op_Pop k) s = s(k := None)"

text \<open>A history: the operations in turn, each with whatever comes of its save.\<close>

fun run_ops :: "('v \<Rightarrow> 'v manager \<Rightarrow> (go_error option \<times> 'v manager) io)
    \<Rightarrow> (string \<Rightarrow> 'v manager \<Rightarrow> (('v option \<times> go_error option) \<times> 'v manager) io)
    \<Rightarrow> 'v store_op list \<Rightarrow> 'v manager \<Rightarrow> 'v manager io" where
  "run_ops put pop [] mgr = ret mgr"
| "run_ops put pop (Op_Put v # ops) mgr = do { (_, mgr) \<leftarrow> put v mgr; run_ops put pop ops mgr }"
| "run_ops put pop (Op_Pop k # ops) mgr = do { (_, mgr) \<leftarrow> pop k mgr; run_ops put pop ops mgr }"

locale volume_store =
  fixes vid :: "'v \<Rightarrow> string"
    and put :: "'v \<Rightarrow> 'v manager \<Rightarrow> (go_error option \<times> 'v manager) io"
    and pop :: "string \<Rightarrow> 'v manager \<Rightarrow> (('v option \<times> go_error option) \<times> 'v manager) io"
  assumes put_get: "run_state (put v m) w = ((r, m'), w') \<Longrightarrow> manager_Get m' = (manager_Get m)(vid v \<mapsto> v)"
    and put_wf: "run_state (put v m) w = ((r, m'), w') \<Longrightarrow> store_wf vid m \<Longrightarrow> store_wf vid m'"
    and pop_get: "run_state (pop k m) w = ((x, m'), w') \<Longrightarrow> manager_Get m' = (manager_Get m)(k := None)"
    and pop_wf: "run_state (pop k m) w = ((x, m'), w') \<Longrightarrow> store_wf vid m \<Longrightarrow> store_wf vid m'"
    and pop_result: "run_state (pop k m) w = ((x, m'), w') \<Longrightarrow> fst x = manager_Get m k"
    and pop_absent: "manager_Get m k = None \<Longrightarrow> run_state (pop k m) w = (((None, None), m), w)"
    and put_extends: "keeps (extends w0) (put v m)"
    and pop_extends: "keeps (extends w0) (pop k m)"
begin

lemma run_ops_spec:
  "run_state (run_ops put pop ops m) w = (m', w') \<Longrightarrow>
     manager_Get m' = fold (op_spec vid) ops (manager_Get m) \<and> (store_wf vid m \<longrightarrow> store_wf vid m')
     \<and> extends w w'"
proof (induction ops arbitrary: m w)
  case (Cons op ops)
  show ?case
  proof (cases op)
    case (Op_Put v)
    obtain r m1 w1 where s: "run_state (put v m) w = ((r, m1), w1)" by (metis surj_pair)
    then have "extends w w1" by (rule extendsD [OF put_extends])
    with s Cons Op_Put put_get [OF s] put_wf [OF s] show ?thesis
      by (auto simp: fun_upd_def intro: extends_trans)
  next
    case (Op_Pop k)
    obtain x m1 w1 where s: "run_state (pop k m) w = ((x, m1), w1)" by (metis surj_pair)
    then have "extends w w1" by (rule extendsD [OF pop_extends])
    with s Cons Op_Pop pop_get [OF s] pop_wf [OF s] show ?thesis
      by (auto simp: fun_upd_def intro: extends_trans)
  qed
qed simp

text \<open>A volume that was put is what the next pop of its ID returns, whatever the saves did.\<close>

lemma pop_put:
  assumes "run_state (put v m) w = ((r, m1), w1)" and "run_state (pop (vid v) m1) w2 = ((x, m2), w3)"
  shows "fst x = Some v \<and> manager_Get m2 = (manager_Get m)(vid v := None)"
  using put_get [OF assms(1)] pop_get [OF assms(2)] pop_result [OF assms(2)] by auto

end

lemma store_wf_update: "store_wf vid m \<Longrightarrow> store_wf vid (m\<lparr>mg_volumes := AList.update (vid v) v (mg_volumes m)\<rparr>)"
proof -
  assume wf: "store_wf vid m"
  have "set (AList.update k v xs) \<subseteq> insert (k, v) (set xs)" for k xs
    by (induction xs) auto
  with wf show ?thesis
    by (fastforce simp: store_wf_def distinct_update)
qed

lemma store_wf_delete: "store_wf vid m \<Longrightarrow> store_wf vid (m\<lparr>mg_volumes := AList.delete k (mg_volumes m)\<rparr>)"
  using distinct_delete [of "mg_volumes m" k] by (auto simp: store_wf_def AList.delete_eq)

lemma keeps_extends_store [keeps_rules]:
  "keeps (extends w0) (manager_save cd m)" "keeps (extends w0) (manager_load cd m)"
  "keeps (extends w0) (write_savefile p b)"
  by (auto simp: manager_save_def manager_load_def write_savefile_def encrypt_def intro!: keeps_rules)

lemma keeps_extends_store_ops [keeps_rules]:
  "keeps (extends w0) (manager_Put cd k v m)" "keeps (extends w0) (manager_Pop cd k m)"
  "keeps (extends w0) (new_manager cd f key d)"
  by (auto simp: manager_Put_def manager_Pop_def new_manager_def intro!: keeps_rules)

lemma manager_Put_run:
  assumes "run_state (manager_Put cd k v m) w = ((r, m'), w')"
  shows "m' = m\<lparr>mg_volumes := AList.update k v (mg_volumes m)\<rparr>"
    and "manager_Get m' = (manager_Get m)(k \<mapsto> v)"
proof -
  show m': "m' = m\<lparr>mg_volumes := AList.update k v (mg_volumes m)\<rparr>"
    using assms by (auto simp: manager_Put_def Let_def split: prod.splits)
  show "manager_Get m' = (manager_Get m)(k \<mapsto> v)"
    by (auto simp: m' manager_Get_def update_conv')
qed

lemma manager_Pop_run:
  assumes "run_state (manager_Pop cd k m) w = ((x, m'), w')"
  shows "m' = m\<lparr>mg_volumes := AList.delete k (mg_volumes m)\<rparr>"
    and "manager_Get m' = (manager_Get m)(k := None)"
    and "fst x = manager_Get m k"
proof -
  have absent: "map_of xs k = None \<Longrightarrow> AList.delete k xs = xs" for xs :: "(string \<times> 'a) list"
    by (simp add: map_of_eq_None_iff)
  show m': "m' = m\<lparr>mg_volumes := AList.delete k (mg_volumes m)\<rparr>"
    using assms by (auto simp: manager_Pop_def Let_def absent split: prod.splits option.splits)
  show "manager_Get m' = (manager_Get m)(k := None)"
    by (auto simp: m' manager_Get_def delete_conv')
  show "fst x = manager_Get m k"
    using assms by (auto simp: manager_Pop_def manager_Get_def Let_def split: prod.splits option.splits)
qed

lemma manager_Pop_absent: "manager_Get m k = None \<Longrightarrow> manager_Pop cd k m = ret ((None, None), m)"
  by (simp add: manager_Pop_def manager_Get_def)

lemma store_wf_Put:
  "run_state (manager_Put cd (vid v) v m) w = ((r, m'), w') \<Longrightarrow> store_wf vid m \<Longrightarrow> store_wf vid m'"
  using manager_Put_run(1) store_wf_update by metis

lemma store_wf_Pop:
  "run_state (manager_Pop cd k m) w = ((x, m'), w') \<Longrightarrow> store_wf vid m \<Longrightarrow> store_wf vid m'"
  using manager_Pop_run(1) store_wf_delete by metis

lemmas store_laws = manager_Put_run(2) manager_Pop_run(2,3) store_wf_Put store_wf_Pop

interpretation controllers: volume_store cv_ID ControllerVolumeManager_Put ControllerVolumeManager_Pop
  by unfold_locales
    (auto simp: ControllerVolumeManager_Put_def ControllerVolumeManager_Pop_def run_the_env manager_Pop_absent
       intro: keeps_rules intro!: keeps_bind keeps_extends_prims dest: store_laws)

interpretation nodes: volume_store nv_ID NodeVolumeManager_Put NodeVolumeManager_Pop
  by unfold_locales
    (auto simp: NodeVolumeManager_Put_def NodeVolumeManager_Pop_def run_the_env manager_Pop_absent
       intro: keeps_rules intro!: keeps_bind keeps_extends_prims dest: store_laws)


section \<open>Restarts\<close>

text \<open>
  What the cipher and the random source promise, and a world in which the file at a path exists
  and has the given content.
\<close>

definition cipher_ok :: "env \<Rightarrow> bool" where
  "cipher_ok e \<longleftrightarrow> (\<forall>key n t. length key = 32 \<longrightarrow> length n = nonceSize \<longrightarrow> e_open e key n (e_seal e key n t) = Inr t)
     \<and> (\<forall>tr k n. e_nonce e tr k = Inr n \<longrightarrow> length n = k)"

definition holds_file :: "world \<Rightarrow> string \<Rightarrow> string \<Rightarrow> bool" where
  "holds_file w p data \<longleftrightarrow>
     (case e_stat (w_env w) (w_trace w) p of
        Inl _ \<Rightarrow> False
      | Inr dev \<Rightarrow> e_read_file (w_env w) (EvStat p (Inr dev) # w_trace w) p = Inr data)"

lemma length_getEncryptionKey [simp]: "length (getEncryptionKey key) = 32"
  by (simp add: getEncryptionKey_def)

lemma decrypt_encrypt:
  assumes "cipher_ok (w_env w)" and "run_state (encrypt t key) w = (Inr c, w')"
  shows "decrypt (w_env w) c key = Some (Inr t)"
proof -
  obtain n where n: "e_nonce (w_env w) (w_trace w) nonceSize = Inr n"
      and c: "c = n @ e_seal (w_env w) (getEncryptionKey key) n t"
    using assms(2) by (auto simp: encrypt_def run_rules Let_def split: sum.splits)
  then have "length n = nonceSize" using assms(1) by (simp add: cipher_ok_def)
  with c assms(1) show ?thesis by (simp add: decrypt_def cipher_ok_def)
qed

lemma decrypt_env: "e_open e = e_open e' \<Longrightarrow> decrypt e = decrypt e'"
  by (intro ext) (simp add: decrypt_def)

text \<open>A save that succeeds has written a file, and the file decodes to the volumes.\<close>

lemma manager_save_ok:
  assumes "run_state (manager_save cd m) w = (None, w')" and "cipher_ok (w_env w)"
  obtains data js where "cd_marshal cd (mg_volumes m) = Inr js"
    and "hd (w_trace w') = EvCall (WriteFile (mg_savefilePath m) data mode_0644) None"
    and "if mg_encryptKey m = [] then data = js else decrypt (w_env w) data (mg_encryptKey m) = Some (Inr js)"
proof -
  obtain js where t: "cd_marshal cd (mg_volumes m) = Inr js"
    using assms(1) by (auto simp: manager_save_def split: sum.splits)
  show thesis
  proof (cases "mg_encryptKey m = []")
    case True
    with assms(1) t show thesis
      by (intro that [of js js])
        (auto simp: manager_save_def write_savefile_def run_os_call Let_def split: option.splits)
  next
    case False
    obtain r w1 where e: "run_state (encrypt js (mg_encryptKey m)) w = (r, w1)" by force
    with False assms(1) t obtain c where c: "r = Inr c"
      by (auto simp: manager_save_def split: sum.splits)
    with e assms(2) have "decrypt (w_env w) c (mg_encryptKey m) = Some (Inr js)"
      by (auto intro: decrypt_encrypt)
    with False assms(1) t e c show thesis
      by (intro that [of js c])
        (auto simp: manager_save_def write_savefile_def run_os_call Let_def split: option.splits)
  qed
qed

text \<open>The manager a process builds from such a file has the volumes.\<close>

lemma new_manager_reads:
  assumes "holds_file w (JoinPath [if dir = [] then ''/'' else dir, fileName]) data"
    and "if key = [] then data = js else decrypt (w_env w) data key = Some (Inr js)"
    and "cd_marshal cd vs = Inr js" and "codec_reads_back norm cd vs"
  shows "\<exists>m w'. run_state (new_manager cd fileName key dir) w = (Some m, w') \<and> manager_Get m = map_option norm \<circ> map_of vs
    \<and> mg_encryptKey m = key"
proof -
  obtain vs' where u: "cd_unmarshal cd js [] = (vs', None)" "map_of vs' = map_option norm \<circ> map_of vs" "cd_valid cd js" "js \<noteq> []"
    using assms(3,4) by (auto simp: codec_reads_back_def split: prod.splits)
  obtain dev where d: "e_stat (w_env w) (w_trace w) (JoinPath [if dir = [] then ''/'' else dir, fileName]) = Inr dev"
    and r: "e_read_file (w_env w) (EvStat (JoinPath [if dir = [] then ''/'' else dir, fileName]) (Inr dev) # w_trace w)
              (JoinPath [if dir = [] then ''/'' else dir, fileName]) = Inr data"
    using assms(1) by (auto simp: holds_file_def split: sum.splits)
  show ?thesis
    using assms(2) u d r
    by (auto simp: new_manager_def manager_load_def run_rules Let_def load_encrypted_def load_plain_def
        unmarshal_volumes_def manager_Get_def split: if_splits)
qed

text \<open>
  A restart after a \<open>Put\<close> that gave no error: the new process reads back the volume that was put
  and every other one. \<open>new_manager\<close> and \<open>manager_Put\<close> agree on key and path.
\<close>

lemma restart_after_put:
  assumes "run_state (manager_Put cd k v m) w = ((None, m'), w')" and "cipher_ok (w_env w)"
    and "codec_reads_back norm cd (mg_volumes m')"
    and "mg_savefilePath m = JoinPath [if dir = [] then ''/'' else dir, fileName]"
  shows "\<exists>data. hd (w_trace w') = EvCall (WriteFile (mg_savefilePath m) data mode_0644) None \<and>
    (\<forall>w2. e_open (w_env w2) = e_open (w_env w) \<longrightarrow> holds_file w2 (mg_savefilePath m) data \<longrightarrow>
       (\<exists>m2 w3. run_state (new_manager cd fileName (mg_encryptKey m) dir) w2 = (Some m2, w3)
          \<and> manager_Get m2 = map_option norm \<circ> (manager_Get m)(k \<mapsto> v)))"
proof -
  let ?m = "m\<lparr>mg_volumes := AList.update k v (mg_volumes m)\<rparr>"
  have s: "run_state (manager_save cd ?m) w = (None, w')" and m': "m' = ?m"
    using assms(1) by (auto simp: manager_Put_def Let_def split: prod.splits)
  obtain data js where t: "cd_marshal cd (mg_volumes ?m) = Inr js"
      "hd (w_trace w') = EvCall (WriteFile (mg_savefilePath ?m) data mode_0644) None"
      "if mg_encryptKey ?m = [] then data = js else decrypt (w_env w) data (mg_encryptKey ?m) = Some (Inr js)"
    by (rule manager_save_ok [OF s assms(2)]) blast
  have "manager_Get ?m = (manager_Get m)(k \<mapsto> v)"
    using manager_Put_run(2) [OF assms(1)] m' by simp
  then have mo: "map_of (mg_volumes ?m) = (manager_Get m)(k \<mapsto> v)"
    by (simp add: manager_Get_def fun_eq_iff)
  have "\<exists>m2 w3. run_state (new_manager cd fileName (mg_encryptKey m) dir) w2 = (Some m2, w3)
          \<and> manager_Get m2 = map_option norm \<circ> (manager_Get m)(k \<mapsto> v)"
    if "e_open (w_env w2) = e_open (w_env w)" and "holds_file w2 (mg_savefilePath m) data" for w2
  proof -
    have "if mg_encryptKey m = [] then data = js else decrypt (w_env w2) data (mg_encryptKey m) = Some (Inr js)"
      using t(3) decrypt_env [OF that(1)] by (auto split: if_splits)
    from new_manager_reads [OF that(2) [unfolded assms(4)] this t(1), where norm = norm] show ?thesis
      using assms(3) m' mo by auto
  qed
  with t(2) show ?thesis by auto
qed

text \<open>The two managers, with what makes their text readable.\<close>

lemma nodes_restart:
  assumes "run_state (NodeVolumeManager_Put v m) w = ((None, m'), w')" and "cipher_ok (w_env w)"
    and "volumes_ok node_ok (mg_volumes m')"
    and "mg_savefilePath m = JoinPath [if dir = [] then ''/'' else dir, ''node_volumes.json'']"
  shows "\<exists>data. hd (w_trace w') = EvCall (WriteFile (mg_savefilePath m) data mode_0644) None \<and>
    (\<forall>w2. e_open (w_env w2) = e_open (w_env w) \<longrightarrow> holds_file w2 (mg_savefilePath m) data \<longrightarrow>
       (\<exists>m2 w3. run_state (NewNodeVolumeManager (mg_encryptKey m) dir) w2 = (Some m2, w3)
          \<and> manager_Get m2 = map_option norm_node \<circ> (manager_Get m)(nv_ID v \<mapsto> v)))"
  using restart_after_put [OF assms(1) [unfolded NodeVolumeManager_Put_def] assms(2) _ assms(4), where norm = norm_node]
    node_json.codec_reads_back assms(3)
  by (simp add: NewNodeVolumeManager_def node_codec_def volumes_ok_def)

lemma controllers_restart:
  assumes "run_state (ControllerVolumeManager_Put v m) w = ((None, m'), w')" and "cipher_ok (w_env w)"
    and "volumes_ok (controller_ok (e_conn_json (w_env w))) (mg_volumes m')"
    and "mg_savefilePath m = JoinPath [if dir = [] then ''/'' else dir, ''controller_volumes.json'']"
  shows "\<exists>data. hd (w_trace w') = EvCall (WriteFile (mg_savefilePath m) data mode_0644) None \<and>
    (\<forall>w2. e_open (w_env w2) = e_open (w_env w) \<longrightarrow> e_conn_json (w_env w2) = e_conn_json (w_env w) \<longrightarrow>
       holds_file w2 (mg_savefilePath m) data \<longrightarrow>
       (\<exists>m2 w3. run_state (NewControllerVolumeManager (mg_encryptKey m) dir) w2 = (Some m2, w3)
          \<and> manager_Get m2 = (manager_Get m)(cv_ID v \<mapsto> v)))"
proof -
  have "run_state (manager_Put (controller_codec (e_conn_json (w_env w))) (cv_ID v) v m) w = ((None, m'), w')"
    using assms(1) by (simp add: ControllerVolumeManager_Put_def run_the_env)
  from restart_after_put [OF this assms(2) _ assms(4), where norm = id] show ?thesis
    using controller_json.codec_reads_back assms(3)
    by (fastforce simp: NewControllerVolumeManager_def controller_codec_def volumes_ok_def run_the_env option.map_id)
qed

text \<open>What a new manager holds has the type of volumes that can be saved, whatever was in the file.\<close>

lemma manager_load_result:
  assumes "run_state (manager_load cd mgr) w = (Some (vs, err), w')"
  shows "vs = mg_volumes mgr \<or> (\<exists>s. vs = fst (cd_unmarshal cd s (mg_volumes mgr)))"
  using assms
  by (auto simp: manager_load_def run_rules Let_def load_encrypted_def load_plain_def unmarshal_volumes_def
      split: sum.splits if_splits option.splits prod.splits; metis fst_conv)

lemma new_node_manager_ok:
  assumes "run_state (NewNodeVolumeManager key dir) w = (Some m, w')"
  shows "volumes_ok node_ok (mg_volumes m)"
proof -
  obtain vs err mgr w1 where l: "run_state (manager_load node_codec mgr) w = (Some (vs, err), w1)"
    and m: "mg_volumes mgr = []" "mg_volumes m = vs"
    using assms by (auto simp: NewNodeVolumeManager_def new_manager_def Let_def split: prod.splits option.splits)
  have "volumes_ok node_ok []" by (simp add: volumes_ok_def)
  with manager_load_result [OF l] m node_json_typed.unmarshal_ok show ?thesis
    unfolding node_codec_def by metis
qed

text \<open>A file too short to hold a nonce stops the process that reads it.\<close>

lemma new_manager_panics:
  assumes "holds_file w (JoinPath [if dir = [] then ''/'' else dir, fileName]) data"
    and "length data < nonceSize" and "key \<noteq> []"
  shows "fst (run_state (new_manager cd fileName key dir) w) = None"
proof -
  obtain dev where d: "e_stat (w_env w) (w_trace w) (JoinPath [if dir = [] then ''/'' else dir, fileName]) = Inr dev"
    and r: "e_read_file (w_env w) (EvStat (JoinPath [if dir = [] then ''/'' else dir, fileName]) (Inr dev) # w_trace w)
              (JoinPath [if dir = [] then ''/'' else dir, fileName]) = Inr data"
    using assms(1) by (auto simp: holds_file_def split: sum.splits)
  then show ?thesis
    using assms(2,3)
    by (auto simp: new_manager_def manager_load_def run_rules Let_def load_encrypted_def decrypt_def)
qed

text \<open>Without a key every file with content gives an error, good text or not.\<close>

lemma load_plain_error: "data \<noteq> [] \<Longrightarrow> snd (load_plain cd m data) \<noteq> None"
  by (auto simp: load_plain_def split: prod.splits option.splits)

text \<open>The node's manager saves with its own codec, whatever the operation; Check agrees with Get.\<close>

lemma NodeVolumeManager_Put_saves:
  "NodeVolumeManager_Put v mgr =
     (let mgr = mgr\<lparr>mg_volumes := AList.update (nv_ID v) v (mg_volumes mgr)\<rparr>
      in do { err \<leftarrow> NodeVolumeManager_save mgr; ret (err, mgr) })"
  by (rule state.expand)
    (simp add: NodeVolumeManager_Put_def NodeVolumeManager_save_def manager_Put_def Let_def fun_eq_iff
      split: prod.splits)

lemma NodeVolumeManager_Check_Get: "NodeVolumeManager_Check mgr k \<longleftrightarrow> NodeVolumeManager_Get mgr k \<noteq> None"
  by (auto simp: NodeVolumeManager_Check_def NodeVolumeManager_Get_def manager_Check_def manager_Get_def
      map_of_eq_None_iff)

end
