(* ===== verification/Driver.thy ===== *)
theory Driver
  imports Client Volume_Store
begin

text \<open>
  The driver's own state and start-up: pkg/driver/driver.go (NewDriver, the endpoint part of Run),
  config.go (secrets, provisioning mode, controller configuration), util.go and identity.go, and
  the storage directory of cmd/main.go. The handlers of the CSI calls are in theories
  Controller and Node; they run on the record \<open>driver\<close>.

  gRPC runs the handlers of concurrent calls in goroutines of their own; what is modelled is a
  sequence of calls, each run to its end.
\<close>

section \<open>State\<close>

record driver =
  d_process :: process
  d_config :: config
  d_secrets :: gomap
  d_controllers :: "controller_volume manager"
  d_nodes :: "node_volume manager"

type_synonym 'a op = "(driver, 'a) state"

definition in_process :: "(process, 'a) state \<Rightarrow> 'a op" where
  "in_process m = zoom d_process (\<lambda>p d. d\<lparr>d_process := p\<rparr>) m"

definition os :: "'a io \<Rightarrow> 'a op" where
  "os m = in_process (in_world m)"

definition tick :: "(metrics \<Rightarrow> metrics) \<Rightarrow> unit op" where
  "tick f = in_process (count f)"

text \<open>The shape of the early returns: a counter, then the error.\<close>

definition fail_mount :: "go_error \<Rightarrow> (go_error + 'a) op" where
  "fail_mount e = do { _ \<leftarrow> tick IncreaseCounterForVolumeMountFailures; ret (Inl e) }"

definition fail_unmount :: "go_error \<Rightarrow> (go_error + 'a) op" where
  "fail_unmount e = do { _ \<leftarrow> tick IncreaseCounterForVolumeUnmountFailures; ret (Inl e) }"

definition put_controller :: "controller_volume \<Rightarrow> go_error option op" where
  "put_controller v = do {
     mgr \<leftarrow> gets d_controllers;
     (err, mgr') \<leftarrow> os (ControllerVolumeManager_Put v mgr);
     _ \<leftarrow> modify (\<lambda>d. d\<lparr>d_controllers := mgr'\<rparr>);
     ret err }"

definition pop_controller :: "string \<Rightarrow> (controller_volume option \<times> go_error option) op" where
  "pop_controller k = do {
     mgr \<leftarrow> gets d_controllers;
     (r, mgr') \<leftarrow> os (ControllerVolumeManager_Pop k mgr);
     _ \<leftarrow> modify (\<lambda>d. d\<lparr>d_controllers := mgr'\<rparr>);
     ret r }"

definition put_node :: "node_volume \<Rightarrow> go_error option op" where
  "put_node v = do {
     mgr \<leftarrow> gets d_nodes;
     (err, mgr') \<leftarrow> os (NodeVolumeManager_Put v mgr);
     _ \<leftarrow> modify (\<lambda>d. d\<lparr>d_nodes := mgr'\<rparr>);
     ret err }"

definition pop_node :: "string \<Rightarrow> (node_volume option \<times> go_error option) op" where
  "pop_node k = do {
     mgr \<leftarrow> gets d_nodes;
     (r, mgr') \<leftarrow> os (NodeVolumeManager_Pop k mgr);
     _ \<leftarrow> modify (\<lambda>d. d\<lparr>d_nodes := mgr'\<rparr>);
     ret r }"

definition get_node :: "string \<Rightarrow> node_volume option op" where
  "get_node k = gets (\<lambda>d. manager_Get (d_nodes d) k)"

text \<open>\<open>MergeConfig\<close> as the handlers call it: its three loops visit their maps in the runtime's order.\<close>

definition merge_configs :: "gomap \<Rightarrow> gomap \<Rightarrow> gomap op" where
  "merge_configs volSecrets volParams = do {
     cfg \<leftarrow> gets d_config;
     secrets \<leftarrow> gets d_secrets;
     vs \<leftarrow> os (go_range volSecrets);
     vp \<leftarrow> os (go_range volParams);
     ds \<leftarrow> os (go_range secrets);
     ret (MergeConfig cfg ds vs vp) }"


section \<open>config.go\<close>

text \<open>The loop over the files of the secret directory; a file that cannot be read is left out.\<close>

fun read_secret_files :: "string \<Rightarrow> (string \<times> bool) list \<Rightarrow> gomap \<Rightarrow> gomap io" where
  "read_secret_files secretPath [] secrets = ret secrets"
| "read_secret_files secretPath ((name, isDir) # files) secrets =
     (if isDir then read_secret_files secretPath files secrets
      else do {
        let k = Base name;
        let fullPath = JoinPath [secretPath, k];
        r \<leftarrow> os_read_file fullPath;
        case r of
          Inl _ \<Rightarrow> read_secret_files secretPath files secrets
        | Inr content \<Rightarrow> read_secret_files secretPath files (AList.update k (TrimSpace content) secrets) })"

definition readSecrets :: "string \<Rightarrow> (go_error + gomap) io" where
  "readSecrets secretPath = do {
     (exist, err) \<leftarrow> PathExists secretPath;
     case err of
       Some e \<Rightarrow> ret (Inl (StatusErr Internal ''Secret path %q does not exist - %v'' [AStr secretPath, AErr e]))
     | None \<Rightarrow>
         if \<not> exist then ret (Inl (StatusErr NotFound ''Secret path %q does not exist'' [AStr secretPath]))
         else do {
           files \<leftarrow> os_read_dir secretPath;
           case files of
             Inl e \<Rightarrow> ret (Inl e)
           | Inr fs \<Rightarrow> do { secrets \<leftarrow> read_secret_files secretPath fs []; ret (Inr secrets) } } }"

text \<open>The loop compares the keys as they are, without normalising them.\<close>

fun isDynamicVolumeProvisioningMode :: "gomap \<Rightarrow> bool" where
  "isDynamicVolumeProvisioningMode [] = False"
| "isDynamicVolumeProvisioningMode ((k, v) # es) =
     (if k = NormalizeConfigKey ''provisioning_mode'' \<and> ToLower v = ''dynamic'' then True
      else isDynamicVolumeProvisioningMode es)"

definition setDynamicVolumeProvisioningMode :: "gomap \<Rightarrow> gomap" where
  "setDynamicVolumeProvisioningMode volContext =
     AList.update (NormalizeConfigKey ''provisioning_mode'') ''dynamic'' volContext"

record controller_config =
  VolumeRootPath :: string
  VolumePath :: string
  RetainData :: bool
  NotCreateVolumeDir :: bool

definition controller_entry :: "string \<Rightarrow> string \<Rightarrow> controller_config \<Rightarrow> go_error + controller_config" where
  "controller_entry k v cfg =
     (let key = NormalizeConfigKey k in
      if key = NormalizeConfigKey ''volume_root_path'' then
        (if \<not> IsAbs v then Inl (StatusErr InvalidArgument ''Argument %q must be an absolute path'' [AStr k])
         else if v = ''/'' then Inr (cfg\<lparr>VolumeRootPath := v\<rparr>)
         else Inr (cfg\<lparr>VolumeRootPath := TrimRightChar v CHR ''/''\<rparr>))
      else if key = NormalizeConfigKey ''retain_data'' then
        (case ParseBool v of
           None \<Rightarrow> Inl (StatusErr InvalidArgument ''Argument %q must be a boolean value - %v''
             [AStr k, AErr (XErr ''strconv.ParseBool: parsing %q'' [AStr v])])
         | Some retain \<Rightarrow> Inr (cfg\<lparr>RetainData := retain\<rparr>))
      else if key = NormalizeConfigKey ''no_volume_dir'' then
        (case ParseBool v of
           None \<Rightarrow> Inl (StatusErr InvalidArgument ''Argument %q must be a boolean value - %v''
             [AStr k, AErr (XErr ''strconv.ParseBool: parsing %q'' [AStr v])])
         | Some novolumedir \<Rightarrow> Inr (cfg\<lparr>NotCreateVolumeDir := novolumedir\<rparr>))
      else Inr cfg)"

fun getControllerConfigFromMap :: "gomap \<Rightarrow> controller_config \<Rightarrow> go_error + controller_config" where
  "getControllerConfigFromMap [] cfg = Inr cfg"
| "getControllerConfigFromMap ((k, v) # es) cfg =
     (case controller_entry k v cfg of
        Inl e \<Rightarrow> Inl e
      | Inr cfg' \<Rightarrow> getControllerConfigFromMap es cfg')"

definition makeControllerConfig :: "string \<Rightarrow> gomap \<Rightarrow> go_error + controller_config" where
  "makeControllerConfig volName configs =
     (case getControllerConfigFromMap configs
        \<lparr>VolumeRootPath = [], VolumePath = [], RetainData = False, NotCreateVolumeDir = False\<rparr> of
        Inl e \<Rightarrow> Inl e
      | Inr cfg \<Rightarrow>
          if length (VolumeRootPath cfg) = 0
          then Inl (StatusErr InvalidArgument ''Argument volumeRootPath is not provided'' [])
          else if NotCreateVolumeDir cfg
          then Inr (cfg\<lparr>VolumePath := VolumeRootPath cfg, RetainData := True\<rparr>)
          else Inr (cfg\<lparr>VolumePath := VolumeRootPath cfg @ ''/'' @ volName\<rparr>))"


section \<open>util.go\<close>

definition volumeCaps :: "access_mode list" where
  "volumeCaps = [SINGLE_NODE_WRITER, SINGLE_NODE_READER_ONLY, MULTI_NODE_MULTI_WRITER,
     MULTI_NODE_READER_ONLY, MULTI_NODE_SINGLE_WRITER, MULTI_NODE_MULTI_WRITER]"

fun has_support :: "access_mode list \<Rightarrow> volume_capability \<Rightarrow> bool" where
  "has_support [] c = False"
| "has_support (m # ms) c = (if m = GetMode (vc_access_mode c) then True else has_support ms c)"

fun found_all :: "bool \<Rightarrow> volume_capability list \<Rightarrow> bool" where
  "found_all foundAll [] = foundAll"
| "found_all foundAll (c # cs) = found_all (if \<not> has_support volumeCaps c then False else foundAll) cs"

definition isValidVolumeCapabilities :: "volume_capability list \<Rightarrow> bool" where
  "isValidVolumeCapabilities volCaps = found_all True volCaps"

definition generateVolumeID :: "string \<Rightarrow> string io" where
  "generateVolumeID volName = do {
     x \<leftarrow> new_xid;
     ret (''volid-'' @ volName @ ''-'' @ x) }"


section \<open>identity.go\<close>

text \<open>The version is set at link time; the response is the name and the version.\<close>

definition GetPluginInfo :: "string \<Rightarrow> string \<times> string" where
  "GetPluginInfo driverVersion = (GetDriverName, driverVersion)"

datatype plugin_capability = CONTROLLER_SERVICE

definition GetPluginCapabilities :: "plugin_capability list" where
  "GetPluginCapabilities = [CONTROLLER_SERVICE]"


section \<open>Start-up\<close>

definition default_encrypt_key :: string where
  "default_encrypt_key = ''irodscsidriver_volume_2ce02bee-74ea-4b18-a440-472d9771f778''"

text \<open>The first entry, in visiting order, whose key normalises to that of the encryption key.\<close>

fun find_encrypt_key :: "string \<Rightarrow> gomap \<Rightarrow> string" where
  "find_encrypt_key key [] = key"
| "find_encrypt_key key ((k, v) # es) =
     (if NormalizeConfigKey k = NormalizeConfigKey ''volume_encrypt_key'' then v
      else find_encrypt_key key es)"

fun copy_entries :: "gomap \<Rightarrow> gomap \<Rightarrow> gomap" where
  "copy_entries [] m = m"
| "copy_entries ((k, v) # es) m = copy_entries es (AList.update k v m)"

text \<open>The secrets, none where they cannot be read, and the key of the volume files.\<close>

definition start_secrets :: "config \<Rightarrow> (gomap \<times> string) io" where
  "start_secrets conf = do {
     r \<leftarrow> readSecrets (SecretPath conf);
     secrets \<leftarrow> (case r of
       Inl _ \<Rightarrow> ret []
     | Inr s \<Rightarrow> do { visited \<leftarrow> go_range s; ret (copy_entries visited []) });
     visited \<leftarrow> go_range secrets;
     ret (secrets, find_encrypt_key default_encrypt_key visited) }"

text \<open>\<open>None\<close> is a panic while a volume file is decrypted.\<close>

definition start_parts :: "config
    \<Rightarrow> (gomap \<times> controller_volume manager \<times> node_volume manager) option io" where
  "start_parts conf = do {
     (secrets, volumeEncryptKey) \<leftarrow> start_secrets conf;
     cm \<leftarrow> NewControllerVolumeManager volumeEncryptKey (StoragePath conf);
     case cm of
       None \<Rightarrow> ret None
     | Some controllers \<Rightarrow> do {
         nm \<leftarrow> NewNodeVolumeManager volumeEncryptKey (StoragePath conf);
         case nm of
           None \<Rightarrow> ret None
         | Some nodes \<Rightarrow> ret (Some (secrets, controllers, nodes)) } }"

definition NewDriver :: "config \<Rightarrow> process \<Rightarrow> driver option \<times> process" where
  "NewDriver conf p =
     (let (parts, p') = run_state (in_world (start_parts conf)) p
      in (case parts of
            None \<Rightarrow> None
          | Some (secrets, controllers, nodes) \<Rightarrow>
              Some \<lparr>d_process = p', d_config = conf, d_secrets = secrets,
                d_controllers = controllers, d_nodes = nodes\<rparr>, p'))"

text \<open>
  \<open>ParseCSIEndpoint\<close>: \<open>net/url\<close>'s \<open>Parse\<close> is a parameter; a leftover unix socket is removed.
\<close>

definition ParseCSIEndpoint :: "uri_parser \<Rightarrow> string \<Rightarrow> (go_error + string \<times> string) io" where
  "ParseCSIEndpoint parse endpoint =
     (case parse endpoint of
        Inl err \<Rightarrow> ret (Inl (XErr ''failed to parse endpoint %q: %w'' [AStr endpoint, AErr err]))
      | Inr u \<Rightarrow>
          let addr = JoinPath [url_Host u, url_Path u];
              scheme = ToLower (url_Scheme u)
          in if scheme = ''tcp'' then ret (Inr (scheme, addr))
             else if scheme = ''unix'' then do {
               let addr = JoinPath [''/'', addr];
               r \<leftarrow> os_call (OsRemove addr);
               case r of
                 None \<Rightarrow> ret (Inr (scheme, addr))
               | Some err \<Rightarrow>
                   if \<not> IsNotExist err
                   then ret (Inl (XErr ''failed to remove unix domain socket %q: %w'' [AStr addr, AErr err]))
                   else ret (Inr (scheme, addr)) }
             else ret (Inl (XErr ''unsupported protocol: %q'' [AStr scheme])))"

text \<open>
  The storage directory in \<open>main\<close>. The umask is restored by a deferred call of \<open>main\<close>, which every
  way out of \<open>main\<close> (\<open>os.Exit\<close>, \<open>klog.Fatal\<close>) skips, so it is not restored while the driver runs.
\<close>

definition main_storage :: "config \<Rightarrow> (string + unit) io" where
  "main_storage conf =
     (if StoragePath conf \<noteq> [] then do {
        r \<leftarrow> os_stat (StoragePath conf);
        case r of
          Inr _ \<Rightarrow> ret (Inr ())
        | Inl err \<Rightarrow>
            if IsNotExist err then do {
              oldMask \<leftarrow> Umask 0;
              mk \<leftarrow> os_call (MkdirAll (StoragePath conf) mode_0777);
              case mk of
                Some _ \<Rightarrow> ret (Inl ''Failed to create a storage path'')
              | None \<Rightarrow> ret (Inr ()) }
            else ret (Inl ''Failed to access a storage path'') }
      else ret (Inr ()))"


section \<open>Lemmas\<close>

lemma run_in_process [simp]:
  "run_state (in_process m) d = (let (a, p) = run_state m (d_process d) in (a, d\<lparr>d_process := p\<rparr>))"
  by (simp add: in_process_def)

lemma run_os [simp]:
  "run_state (os m) d =
     (let (a, w) = run_state m (p_world (d_process d)) in (a, d\<lparr>d_process := (d_process d)\<lparr>p_world := w\<rparr>\<rparr>))"
  by (auto simp: os_def Let_def split: prod.splits)

lemma run_tick [simp]:
  "run_state (tick f) d = ((), d\<lparr>d_process := (d_process d)\<lparr>p_metrics := f (p_metrics (d_process d))\<rparr>\<rparr>)"
  by (simp add: tick_def)

lemma isDynamic_iff:
  "go_map_ok m \<Longrightarrow> isDynamicVolumeProvisioningMode m \<longleftrightarrow>
     (\<exists>v. map_of m ''provisioningmode'' = Some v \<and> ToLower v = ''dynamic'')"
proof (induction m rule: isDynamicVolumeProvisioningMode.induct)
  case (2 k v es)
  have n: "NormalizeConfigKey ''provisioning_mode'' = ''provisioningmode''"
    by (simp add: NormalizeConfigKey_def ToLower_def lower_char_def DeleteChar_def)
  have "k = ''provisioningmode'' \<Longrightarrow> map_of es ''provisioningmode'' = None"
    using 2(2) by (auto simp: go_map_ok_def map_of_eq_None_iff)
  with 2 n show ?case
    by (auto simp: go_map_ok_def)
qed simp

lemma has_support_iff: "has_support ms c \<longleftrightarrow> GetMode (vc_access_mode c) \<in> set ms"
  by (induction ms) auto

lemma isValidVolumeCapabilities_iff:
  "isValidVolumeCapabilities cs \<longleftrightarrow> (\<forall>c \<in> set cs. \<exists>m. vc_access_mode c = Some m \<and> (\<forall>n. m \<noteq> OTHER_MODE n))"
proof -
  have "found_all b cs \<longleftrightarrow> b \<and> (\<forall>c \<in> set cs. has_support volumeCaps c)" for b
    by (induction cs arbitrary: b) auto
  moreover have "has_support volumeCaps c \<longleftrightarrow> (\<exists>m. vc_access_mode c = Some m \<and> (\<forall>n. m \<noteq> OTHER_MODE n))" for c
    by (cases "vc_access_mode c"; cases "GetMode (vc_access_mode c)")
      (auto simp: has_support_iff volumeCaps_def GetMode_def)
  ultimately show ?thesis by (simp add: isValidVolumeCapabilities_def)
qed

end
