(* ===== verification/Controller.thy ===== *)
theory Controller
  imports Driver
begin

text \<open>
  pkg/driver/controller.go: the controller service. A handler is a program over the driver's
  state; it returns the gRPC error or the response. Requests and responses keep the fields the
  driver reads and fills in.
\<close>

definition defaultVolumeSize :: int where
  "defaultVolumeSize = 100 * 1024 * 1024 * 1024"

record create_volume_request =
  cr_Name :: string
  cr_VolumeCapabilities :: "volume_capability list"
  cr_CapacityRange :: "int option"
  cr_Secrets :: gomap
  cr_Parameters :: gomap

record csi_volume =
  csi_VolumeId :: string
  csi_CapacityBytes :: int
  csi_VolumeContext :: gomap

text \<open>The last part: the node's context, the record, and the response.\<close>

definition record_volume :: "string \<Rightarrow> int \<Rightarrow> controller_config \<Rightarrow> conn_info \<Rightarrow> create_volume_request
    \<Rightarrow> (go_error + csi_volume) op" where
  "record_volume volID volCapacity controllerConfig irodsConnectionInfo req = do {
     visited \<leftarrow> os (go_range (cr_Parameters req));
     let volContext = AList.update (NormalizeConfigKey ''path'') (VolumePath controllerConfig)
       (copy_entries visited []);
     let volContext = setDynamicVolumeProvisioningMode volContext;
     err \<leftarrow> put_controller \<lparr>cv_ID = volID, cv_Name = cr_Name req,
       cv_RootPath = VolumeRootPath controllerConfig, cv_Path = VolumePath controllerConfig,
       cv_ConnectionInfo = irodsConnectionInfo, cv_RetainData = RetainData controllerConfig\<rparr>;
     case err of
       Some e \<Rightarrow> fail_mount e
     | None \<Rightarrow> ret (Inr \<lparr>csi_VolumeId = volID, csi_CapacityBytes = volCapacity,
         csi_VolumeContext = volContext\<rparr>) }"

text \<open>The middle part: the connection, the directory, and the check for anonymous users.\<close>

definition create_and_record :: "string \<Rightarrow> int \<Rightarrow> controller_config \<Rightarrow> gomap \<Rightarrow> create_volume_request
    \<Rightarrow> (go_error + csi_volume) op" where
  "create_and_record volID volCapacity controllerConfig configs req = do {
     conn \<leftarrow> os (read_conn_info configs);
     case conn of
       Inl err \<Rightarrow> fail_mount err
     | Inr irodsConnectionInfo \<Rightarrow> do {
         mk \<leftarrow> (if \<not> NotCreateVolumeDir controllerConfig
           then os (irods_Mkdir irodsConnectionInfo (VolumePath controllerConfig)) else ret None);
         case mk of
           Some err \<Rightarrow> fail_mount (StatusErr Internal ''Could not create a volume dir %q : %v''
             [AStr (VolumePath controllerConfig), AErr err])
         | None \<Rightarrow>
             if IsAnonymousUser irodsConnectionInfo
             then fail_mount (StatusErr InvalidArgument ''Argument user must be a non-anonymous user'' [])
             else record_volume volID volCapacity controllerConfig irodsConnectionInfo req } }"

definition CreateVolume :: "create_volume_request \<Rightarrow> (go_error + csi_volume) op" where
  "CreateVolume req = do {
     let volName = cr_Name req;
     if length volName = 0 then fail_mount (StatusErr InvalidArgument ''Volume name not provided'' [])
     else do {
       volID \<leftarrow> os (generateVolumeID volName);
       let volCaps = cr_VolumeCapabilities req;
       if length volCaps = 0
       then fail_mount (StatusErr InvalidArgument ''Volume capabilities not provided'' [])
       else if \<not> isValidVolumeCapabilities volCaps
       then fail_mount (StatusErr InvalidArgument ''Volume capabilities not supported'' [])
       else do {
         let volCapacity = (case cr_CapacityRange req of None \<Rightarrow> defaultVolumeSize | Some n \<Rightarrow> n);
         configs \<leftarrow> merge_configs (cr_Secrets req) (cr_Parameters req);
         let irodsClientType = GetClientType configs;
         if irodsClientType \<noteq> IrodsFuseClientType
         then fail_mount (StatusErr InvalidArgument ''unsupported driver type - %v''
           [AStr (client_type_string irodsClientType)])
         else do {
           visited \<leftarrow> os (go_range configs);
           case makeControllerConfig volName visited of
             Inl err \<Rightarrow> fail_mount err
           | Inr controllerConfig \<Rightarrow>
               create_and_record volID volCapacity controllerConfig
                 (AList.update (NormalizeConfigKey ''path'') (VolumePath controllerConfig) configs) req } } } }"

definition DeleteVolume :: "string \<Rightarrow> (go_error + unit) op" where
  "DeleteVolume volID =
     (if length volID = 0 then ret (Inl (StatusErr InvalidArgument ''Volume ID not provided'' []))
      else do {
        (controllerVolume, err) \<leftarrow> pop_controller volID;
        case err of
          Some e \<Rightarrow> ret (Inl e)
        | None \<Rightarrow>
            (case controllerVolume of
               None \<Rightarrow> ret (Inr ())
             | Some vol \<Rightarrow>
                 if \<not> cv_RetainData vol then do {
                   rm \<leftarrow> os (irods_Rmdir (cv_ConnectionInfo vol) (cv_Path vol));
                   case rm of
                     Some e \<Rightarrow> ret (Inl (StatusErr Internal ''Could not delete a volume dir %q: %v''
                       [AStr (cv_Path vol), AErr e]))
                   | None \<Rightarrow> ret (Inr ()) }
                 else ret (Inr ())) })"

text \<open>The confirmed capabilities, or nothing where one of them is not supported.\<close>

definition ValidateVolumeCapabilities :: "string \<Rightarrow> volume_capability list
    \<Rightarrow> go_error + volume_capability list option" where
  "ValidateVolumeCapabilities volID volCaps =
     (if length volID = 0 then Inl (StatusErr InvalidArgument ''Volume ID not provided'' [])
      else if length volCaps = 0
      then Inl (StatusErr InvalidArgument ''Volume capabilities not provided'' [])
      else if isValidVolumeCapabilities volCaps then Inr (Some volCaps)
      else Inr None)"

datatype controller_capability = CREATE_DELETE_VOLUME

definition ControllerGetCapabilities :: "controller_capability list" where
  "ControllerGetCapabilities = [CREATE_DELETE_VOLUME]"

text \<open>The calls the controller does not implement.\<close>

datatype controller_rpc = ControllerPublishVolume | ControllerUnpublishVolume | GetCapacity
  | ListVolumes | CreateSnapshot | DeleteSnapshot | ListSnapshots | ControllerExpandVolume

definition controller_unimplemented :: "controller_rpc \<Rightarrow> go_error + unit" where
  "controller_unimplemented rpc = Inl (StatusErr Unimplemented [] [])"

end
