(* ===== verification/Node.thy ===== *)
theory Node
  imports Driver
begin

text \<open>
  pkg/driver/node.go: the node service. A volume that the controller provisioned is mounted by its
  client at the staging path and bind-mounted at the target; any other volume is mounted by its
  client at the target. The handlers are programs over the driver's state.
\<close>

section \<open>Requests\<close>

record node_stage_request =
  st_VolumeId :: string
  st_StagingTargetPath :: string
  st_VolumeCapability :: "volume_capability option"
  st_Secrets :: gomap
  st_VolumeContext :: gomap

record node_publish_request =
  pb_VolumeId :: string
  pb_StagingTargetPath :: string
  pb_TargetPath :: string
  pb_VolumeCapability :: "volume_capability option"
  pb_Readonly :: bool
  pb_Secrets :: gomap
  pb_VolumeContext :: gomap


section \<open>Staging and publishing\<close>

text \<open>
  The checks the two handlers share: the target directory exists afterwards and is not a mount
  point. What is returned is the error, already counted.
\<close>

definition prepare_target :: "string \<Rightarrow> (go_error + unit) op" where
  "prepare_target targetPath = do {
     (pathExist, pathExistErr) \<leftarrow> os (PathExists targetPath);
     case pathExistErr of
       Some e \<Rightarrow> fail_mount (StatusErr Internal [] [AErr e])
     | None \<Rightarrow> do {
         mk \<leftarrow> (if \<not> pathExist then os (MakeDir targetPath) else ret None);
         case mk of
           Some e \<Rightarrow> fail_mount (StatusErr Internal ''Could not create dir %q: %v'' [AStr targetPath, AErr e])
         | None \<Rightarrow> do {
             (notMountPoint, err) \<leftarrow> os (IsLikelyNotMountPoint targetPath);
             case err of
               Some e \<Rightarrow> fail_mount (StatusErr Internal [] [AErr e])
             | None \<Rightarrow>
                 if \<not> notMountPoint
                 then fail_mount (StatusErr Internal ''Staging target path %q is already mounted'' [AStr targetPath])
                 else ret (Inr ()) } } }"

definition put_or_fail :: "node_volume \<Rightarrow> (go_error + unit) op" where
  "put_or_fail nodeVolume = do {
     err \<leftarrow> put_node nodeVolume;
     case err of
       Some e \<Rightarrow> fail_mount e
     | None \<Rightarrow> ret (Inr ()) }"

text \<open>The mount of a dynamically provisioned volume at its staging path.\<close>

definition stage_dynamic :: "node_stage_request \<Rightarrow> volume_capability \<Rightarrow> (go_error + unit) op" where
  "stage_dynamic req volCap = do {
     let volID = st_VolumeId req;
     let targetPath = st_StagingTargetPath req;
     let mountOptions = GetMountOptions (vc_mount_flags volCap) (vc_access_mode volCap);
     prep \<leftarrow> prepare_target targetPath;
     case prep of
       Inl e \<Rightarrow> ret (Inl e)
     | Inr _ \<Rightarrow> do {
         configs \<leftarrow> merge_configs (st_Secrets req) (st_VolumeContext req);
         err \<leftarrow> in_process (MountClient volID configs mountOptions targetPath);
         case err of
           Some e \<Rightarrow> ret (Inl e)
         | None \<Rightarrow> put_or_fail \<lparr>nv_ID = volID, nv_StagingMountPath = targetPath, nv_MountPath = [],
             nv_StagingMountOptions = mountOptions, nv_MountOptions = [],
             nv_ClientType = client_type_string (GetClientType configs), nv_ClientConfig = configs,
             nv_DynamicVolumeProvisioning = True, nv_StageVolume = True\<rparr> } }"

definition NodeStageVolume :: "node_stage_request \<Rightarrow> (go_error + unit) op" where
  "NodeStageVolume req = do {
     let volID = st_VolumeId req;
     if length volID = 0 then fail_mount (StatusErr InvalidArgument ''Volume ID not provided'' [])
     else do {
       visited \<leftarrow> os (go_range (st_VolumeContext req));
       if \<not> isDynamicVolumeProvisioningMode visited then
         put_or_fail \<lparr>nv_ID = volID, nv_StagingMountPath = [], nv_MountPath = [],
           nv_StagingMountOptions = [], nv_MountOptions = [], nv_ClientType = [], nv_ClientConfig = [],
           nv_DynamicVolumeProvisioning = False, nv_StageVolume = True\<rparr>
       else if length (st_StagingTargetPath req) = 0
       then fail_mount (StatusErr InvalidArgument ''Staging target path not provided'' [])
       else
         (case st_VolumeCapability req of
            None \<Rightarrow> fail_mount (StatusErr InvalidArgument ''Volume capability not provided'' [])
          | Some volCap \<Rightarrow>
              if \<not> isValidVolumeCapabilities [volCap]
              then fail_mount (StatusErr InvalidArgument ''Volume capability not supported'' [])
              else stage_dynamic req volCap) } }"

text \<open>The bind mount of a staged volume.\<close>

definition publish_dynamic :: "node_publish_request \<Rightarrow> string list \<Rightarrow> (go_error + unit) op" where
  "publish_dynamic req mountOptions = do {
     let targetPath = pb_TargetPath req;
     if length (pb_StagingTargetPath req) = 0
     then fail_mount (StatusErr InvalidArgument ''Staging target path not provided'' [])
     else do {
       err \<leftarrow> os (MountBind (pb_StagingTargetPath req) mountOptions targetPath);
       case err of
         Some e \<Rightarrow> do { _ \<leftarrow> os (os_call (OsRemove targetPath)); fail_mount e }
       | None \<Rightarrow> do {
           (nodeVolume, popErr) \<leftarrow> pop_node (pb_VolumeId req);
           case popErr of
             Some e \<Rightarrow> fail_mount e
           | None \<Rightarrow>
               (case nodeVolume of
                  None \<Rightarrow> fail_mount (StatusErr InvalidArgument ''Unable to find node volume %q''
                    [AStr (pb_VolumeId req)])
                | Some vol \<Rightarrow> do {
                    r \<leftarrow> put_or_fail (vol\<lparr>nv_MountPath := targetPath, nv_MountOptions := mountOptions\<rparr>);
                    case r of
                      Inl e \<Rightarrow> ret (Inl e)
                    | Inr _ \<Rightarrow> do {
                        _ \<leftarrow> tick IncreaseCounterForVolumeMount;
                        _ \<leftarrow> tick IncreaseCounterForActiveVolumeMount;
                        ret (Inr ()) } }) } } }"

text \<open>The mount of any other volume by its client.\<close>

definition publish_static :: "node_publish_request \<Rightarrow> string list \<Rightarrow> (go_error + unit) op" where
  "publish_static req mountOptions = do {
     let volID = pb_VolumeId req;
     let targetPath = pb_TargetPath req;
     configs \<leftarrow> merge_configs (pb_Secrets req) (pb_VolumeContext req);
     err \<leftarrow> in_process (MountClient volID configs mountOptions targetPath);
     case err of
       Some e \<Rightarrow> ret (Inl e)
     | None \<Rightarrow> do {
         (nodeVolume, popErr) \<leftarrow> pop_node volID;
         case popErr of
           Some e \<Rightarrow> fail_mount e
         | None \<Rightarrow>
             put_or_fail (case nodeVolume of
               None \<Rightarrow> \<lparr>nv_ID = volID, nv_StagingMountPath = [], nv_MountPath = targetPath,
                 nv_StagingMountOptions = [], nv_MountOptions = mountOptions,
                 nv_ClientType = client_type_string (GetClientType configs), nv_ClientConfig = configs,
                 nv_DynamicVolumeProvisioning = False, nv_StageVolume = False\<rparr>
             | Some vol \<Rightarrow> vol\<lparr>nv_MountPath := targetPath, nv_MountOptions := mountOptions,
                 nv_ClientType := client_type_string (GetClientType configs), nv_ClientConfig := configs\<rparr>) } }"

definition NodePublishVolume :: "node_publish_request \<Rightarrow> (go_error + unit) op" where
  "NodePublishVolume req = do {
     let volID = pb_VolumeId req;
     let targetPath = pb_TargetPath req;
     if length volID = 0 then fail_mount (StatusErr InvalidArgument ''Volume ID not provided'' [])
     else if length targetPath = 0
     then fail_mount (StatusErr InvalidArgument ''Target path not provided'' [])
     else
       (case pb_VolumeCapability req of
          None \<Rightarrow> fail_mount (StatusErr InvalidArgument ''Volume capability not provided'' [])
        | Some volCap \<Rightarrow>
            if \<not> isValidVolumeCapabilities [volCap]
            then fail_mount (StatusErr InvalidArgument ''Volume capability not supported'' [])
            else do {
              let mountOptions = GetMountOptions (vc_mount_flags volCap) (vc_access_mode volCap) @
                (if pb_Readonly req then [''ro''] else []);
              prep \<leftarrow> prepare_target targetPath;
              case prep of
                Inl e \<Rightarrow> ret (Inl e)
              | Inr _ \<Rightarrow> do {
                  visited \<leftarrow> os (go_range (pb_VolumeContext req));
                  if isDynamicVolumeProvisioningMode visited then publish_dynamic req mountOptions
                  else publish_static req mountOptions } }) }"


section \<open>Unpublishing and unstaging\<close>

text \<open>The unmount of a path by the driver itself, with its counters.\<close>

definition plain_unmount :: "string \<Rightarrow> (go_error + unit) op" where
  "plain_unmount targetPath = do {
     err \<leftarrow> os (Unmount targetPath);
     case err of
       Some e \<Rightarrow> fail_unmount (StatusErr Internal ''failed to unmount %q: %v'' [AStr targetPath, AErr e])
     | None \<Rightarrow> do {
         _ \<leftarrow> tick IncreaseCounterForVolumeUnmount;
         _ \<leftarrow> tick DecreaseCounterForActiveVolumeMount;
         ret (Inr ()) } }"

definition client_unmount :: "string \<Rightarrow> node_volume \<Rightarrow> string \<Rightarrow> (go_error + unit) op" where
  "client_unmount volID nodeVolume targetPath = do {
     err \<leftarrow> in_process (UnmountClient volID (GetValidClientType (nv_ClientType nodeVolume))
       (nv_ClientConfig nodeVolume) targetPath);
     case err of Some e \<Rightarrow> ret (Inl e) | None \<Rightarrow> ret (Inr ()) }"

text \<open>
  The tail of \<open>NodeUnpublishVolume\<close>, after the record was looked up (and dropped where it was
  made by a publish).
\<close>

definition unpublish_target :: "string \<Rightarrow> node_volume option \<Rightarrow> string \<Rightarrow> (go_error + unit) op" where
  "unpublish_target volID nodeVolume targetPath =
     (if length targetPath = 0
      then fail_unmount (StatusErr InvalidArgument ''Target path not provided'' [])
      else do {
        dev \<leftarrow> os (GetDeviceName targetPath);
        case dev of
          Inl e \<Rightarrow> fail_unmount (StatusErr Internal ''failed to check if volume is mounted: %v'' [AErr e])
        | Inr (_, refCount) \<Rightarrow>
            if refCount = 0 then ret (Inr ())
            else do {
              r \<leftarrow> (case nodeVolume of
                None \<Rightarrow> plain_unmount targetPath
              | Some vol \<Rightarrow>
                  if nv_DynamicVolumeProvisioning vol then plain_unmount targetPath
                  else client_unmount volID vol targetPath);
              case r of
                Inl e \<Rightarrow> ret (Inl e)
              | Inr _ \<Rightarrow> do {
                  rm \<leftarrow> os (os_call (OsRemove targetPath));
                  case rm of
                    None \<Rightarrow> ret (Inr ())
                  | Some e \<Rightarrow>
                      if \<not> IsNotExist e then fail_unmount (StatusErr Internal [] [AErr e])
                      else ret (Inr ()) } } })"

definition NodeUnpublishVolume :: "string \<Rightarrow> string \<Rightarrow> (go_error + unit) op" where
  "NodeUnpublishVolume volID targetPath =
     (if length volID = 0 then ret (Inl (StatusErr InvalidArgument ''Volume ID not provided'' []))
      else do {
        nodeVolume \<leftarrow> get_node volID;
        (_, popErr) \<leftarrow> (case nodeVolume of
          None \<Rightarrow> ret (None, None)
        | Some vol \<Rightarrow> if \<not> nv_StageVolume vol then pop_node volID else ret (None, None));
        case popErr of
          Some e \<Rightarrow> ret (Inl e)
        | None \<Rightarrow> unpublish_target volID nodeVolume targetPath })"

text \<open>The tail of \<open>NodeUnstageVolume\<close>, for a volume that is dynamic or not on record.\<close>

definition unstage_target :: "string \<Rightarrow> node_volume option \<Rightarrow> string \<Rightarrow> (go_error + unit) op" where
  "unstage_target volID nodeVolume targetPath =
     (if length targetPath = 0
      then fail_unmount (StatusErr InvalidArgument ''Staging target path not provided'' [])
      else do {
        dev \<leftarrow> os (GetDeviceName targetPath);
        case dev of
          Inl e \<Rightarrow> fail_unmount (StatusErr Internal ''failed to check if volume is mounted: %v'' [AErr e])
        | Inr (_, refCount) \<Rightarrow>
            if refCount = 0 then ret (Inr ())
            else
              (case nodeVolume of
                 None \<Rightarrow> plain_unmount targetPath
               | Some vol \<Rightarrow> client_unmount volID vol targetPath) })"

definition NodeUnstageVolume :: "string \<Rightarrow> string \<Rightarrow> (go_error + unit) op" where
  "NodeUnstageVolume volID targetPath =
     (if length volID = 0 then ret (Inl (StatusErr InvalidArgument ''Volume ID not provided'' []))
      else do {
        nodeVolume \<leftarrow> get_node volID;
        case nodeVolume of
          None \<Rightarrow> unstage_target volID None targetPath
        | Some vol \<Rightarrow> do {
            (_, popErr) \<leftarrow> pop_node volID;
            case popErr of
              Some e \<Rightarrow> ret (Inl e)
            | None \<Rightarrow>
                if \<not> nv_DynamicVolumeProvisioning vol then ret (Inr ())
                else unstage_target volID (Some vol) targetPath } })"


section \<open>The other calls\<close>

datatype node_rpc = NodeGetVolumeStats | NodeExpandVolume

definition node_unimplemented :: "node_rpc \<Rightarrow> go_error + unit" where
  "node_unimplemented rpc = Inl (StatusErr Unimplemented [] [])"

datatype node_capability = STAGE_UNSTAGE_VOLUME

definition NodeGetCapabilities :: "node_capability list" where
  "NodeGetCapabilities = [STAGE_UNSTAGE_VOLUME]"

definition NodeGetInfo :: "config \<Rightarrow> string" where
  "NodeGetInfo cfg = NodeID cfg"

end
