(* ===== verification/Service.thy ===== *)
theory Service
  imports Controller Node
begin

text \<open>
  The driver as a whole: one call after the other on one state. The contract every handler keeps
  is the locale \<open>driver_service\<close>: the driver's invariant (balanced counters, well-formed volume
  stores, sound records), and a history that only grows over an unchanged configuration. It is
  interpreted on each handler and on the dispatcher.
\<close>

section \<open>The invariant\<close>

abbreviation d_world :: "driver \<Rightarrow> world" where "d_world d \<equiv> p_world (d_process d)"
abbreviation d_metrics :: "driver \<Rightarrow> metrics" where "d_metrics d \<equiv> p_metrics (d_process d)"
abbreviation d_trace :: "driver \<Rightarrow> trace" where "d_trace d \<equiv> w_trace (d_world d)"

text \<open>
  What a record of the controller satisfies: the account is a named one with a password, the
  connection passed the checks, and a path that may be deleted is a directory under the root
  path named after the volume.
\<close>

definition controller_record_ok :: "irods_lib \<Rightarrow> controller_volume \<Rightarrow> bool" where
  "controller_record_ok lib v \<longleftrightarrow>
     \<not> IsAnonymousUser (cv_ConnectionInfo v) \<and> Password (cv_ConnectionInfo v) \<noteq> [] \<and>
     endpoint_ok lib (cv_ConnectionInfo v) \<and> PathMappings (cv_ConnectionInfo v) \<noteq> [] \<and>
     cv_RootPath v \<noteq> [] \<and> cv_Name v \<noteq> [] \<and>
     (\<not> cv_RetainData v \<longrightarrow> cv_Path v = cv_RootPath v @ ''/'' @ cv_Name v)"

text \<open>
  What a record of the node satisfies: the client it names is the one its configuration selects,
  and a dynamic volume was staged at a path.
\<close>

definition node_record_ok :: "node_volume \<Rightarrow> bool" where
  "node_record_ok v \<longleftrightarrow>
     nv_ID v \<noteq> [] \<and> GetValidClientType (nv_ClientType v) = GetClientType (nv_ClientConfig v) \<and>
     (nv_DynamicVolumeProvisioning v \<longrightarrow> nv_StageVolume v \<and> nv_StagingMountPath v \<noteq> []) \<and>
     (\<not> nv_StageVolume v \<longrightarrow> nv_MountPath v \<noteq> [])"

definition controllers_ok :: "irods_lib \<Rightarrow> controller_volume manager \<Rightarrow> bool" where
  "controllers_ok lib m \<longleftrightarrow> store_wf cv_ID m \<and> (\<forall>k v. manager_Get m k = Some v \<longrightarrow> controller_record_ok lib v)"

definition nodes_ok :: "node_volume manager \<Rightarrow> bool" where
  "nodes_ok m \<longleftrightarrow> store_wf nv_ID m \<and> (\<forall>k v. manager_Get m k = Some v \<longrightarrow> node_record_ok v)"

definition driver_inv :: "irods_lib \<Rightarrow> driver \<Rightarrow> bool" where
  "driver_inv lib d \<longleftrightarrow> e_lib (w_env (d_world d)) = lib \<and> balanced (d_metrics d) \<and>
     controllers_ok lib (d_controllers d) \<and> nodes_ok (d_nodes d)"

definition d_extends :: "driver \<Rightarrow> driver \<Rightarrow> bool" where
  "d_extends d0 d \<longleftrightarrow> extends (d_world d0) (d_world d) \<and> d_config d = d_config d0 \<and> d_secrets d = d_secrets d0"

definition returns :: "('s \<Rightarrow> bool) \<Rightarrow> ('s, 'a) state \<Rightarrow> ('a \<Rightarrow> bool) \<Rightarrow> bool" where
  "returns I m Q \<longleftrightarrow> (\<forall>s. I s \<longrightarrow> Q (fst (run_state m s)))"

lemma keeps_bind_returns:
  assumes "keeps I m" and "returns I m Q" and "\<And>a. Q a \<Longrightarrow> keeps I (f a)"
  shows "keeps I (State_Monad.bind m f)"
proof (rule keepsI)
  fix s assume "I s"
  obtain a t where r: "run_state m s = (a, t)" by force
  with assms(1,2) \<open>I s\<close> have "I t" "Q a" by (auto simp: returns_def dest: keepsD)
  with assms(3) [of a] r show "I (snd (run_state (State_Monad.bind m f) s))"
    by (auto dest: keepsD)
qed

lemma d_extends_refl [simp]: "d_extends d d"
  by (simp add: d_extends_def)

lemma d_extends_trans: "d_extends a b \<Longrightarrow> d_extends b c \<Longrightarrow> d_extends a c"
  by (auto simp: d_extends_def intro: extends_trans)

lemma extends_env: "extends w w' \<Longrightarrow> w_env w' = w_env w"
  by (simp add: extends_def)


section \<open>The primitives keep it\<close>

lemma keeps_os [keeps_rules]:
  assumes "\<And>w0. keeps (extends w0) m"
  shows "keeps (driver_inv lib) (os m)" and "keeps (d_extends d0) (os m)"
proof -
  have x: "extends w w'" if "run_state m w = (a, w')" for w a w'
    using extendsD [OF assms that] .
  show "keeps (driver_inv lib) (os m)"
    by (rule keepsI) (auto simp: driver_inv_def split: prod.splits dest!: x extends_env)
  show "keeps (d_extends d0) (os m)"
    by (rule keepsI) (auto simp: d_extends_def split: prod.splits dest!: x intro: extends_trans)
qed

lemma keeps_fail [keeps_rules]:
  "keeps (driver_inv lib) (fail_mount e)" "keeps (driver_inv lib) (fail_unmount e)"
  "keeps (d_extends d0) (fail_mount e)" "keeps (d_extends d0) (fail_unmount e)"
  by (simp_all add: keeps_def fail_mount_def fail_unmount_def driver_inv_def d_extends_def balanced_def metrics_defs)

lemma keeps_tick [keeps_rules]: "keeps (d_extends d0) (tick f)"
  by (simp add: keeps_def d_extends_def)

lemma keeps_counted [keeps_rules]:
  "keeps (driver_inv lib) (do { _ \<leftarrow> tick IncreaseCounterForVolumeMount;
     _ \<leftarrow> tick IncreaseCounterForActiveVolumeMount; ret x })"
  "keeps (driver_inv lib) (do { _ \<leftarrow> tick IncreaseCounterForVolumeUnmount;
     _ \<leftarrow> tick DecreaseCounterForActiveVolumeMount; ret x })"
  by (simp_all add: keeps_def driver_inv_def balanced_def metrics_defs)

lemma keeps_in_process:
  assumes "\<And>p r p'. run_state m p = (r, p') \<Longrightarrow>
    (\<exists>st. p_metrics p' = apply_step st (p_metrics p)) \<and> extends (p_world p) (p_world p')"
  shows "keeps (driver_inv lib) (in_process m)" and "keeps (d_extends d0) (in_process m)"
proof -
  have "I (snd (run_state (in_process m) d))"
    if "I d" and I: "I = driver_inv lib \<or> I = d_extends d0" for I d
  proof -
    obtain r p' where r: "run_state m (d_process d) = (r, p')" by force
    from assms [OF r] obtain st where "p_metrics p' = apply_step st (d_metrics d)"
      and x: "extends (d_world d) (p_world p')" by blast
    with that r show ?thesis
      by (auto simp: driver_inv_def d_extends_def extends_env [OF x] intro: balanced_step extends_trans)
  qed
  then show "keeps (driver_inv lib) (in_process m)" and "keeps (d_extends d0) (in_process m)"
    unfolding keeps_def by blast+
qed

lemma keeps_mount_client [keeps_rules]:
  "keeps (driver_inv lib) (in_process (MountClient v c opts t))"
  "keeps (driver_inv lib) (in_process (UnmountClient v ct c t))"
  "keeps (d_extends d0) (in_process (MountClient v c opts t))"
  "keeps (d_extends d0) (in_process (UnmountClient v ct c t))"
  by (rule keeps_in_process; blast intro: MountClient_spec(1,2) UnmountClient_spec(1,2))+

text \<open>The stores: what is put has to satisfy its predicate, what is popped does.\<close>

lemma keeps_put_controller [keeps_rules]:
  "controller_record_ok lib v \<Longrightarrow> keeps (driver_inv lib) (put_controller v)"
  "keeps (d_extends d0) (put_controller v)"
proof -
  have x: "extends w w' \<and> manager_Get m' = (manager_Get m)(cv_ID v \<mapsto> v) \<and> (store_wf cv_ID m \<longrightarrow> store_wf cv_ID m')"
    if "run_state (ControllerVolumeManager_Put v m) w = ((r, m'), w')" for w w' r m m'
    using controllers.put_get [OF that] controllers.put_wf [OF that] extendsD [OF controllers.put_extends that]
    by blast
  show "keeps (driver_inv lib) (put_controller v)" if "controller_record_ok lib v"
    using that by (intro keepsI)
      (auto simp: put_controller_def driver_inv_def controllers_ok_def split: prod.splits if_splits
        dest!: x extends_env)
  show "keeps (d_extends d0) (put_controller v)"
    by (intro keepsI) (auto simp: put_controller_def d_extends_def split: prod.splits dest!: x intro: extends_trans)
qed

lemma keeps_pop_controller [keeps_rules]:
  "keeps (driver_inv lib) (pop_controller k)" "keeps (d_extends d0) (pop_controller k)"
proof -
  have x: "extends w w' \<and> manager_Get m' = (manager_Get m)(k := None) \<and> (store_wf cv_ID m \<longrightarrow> store_wf cv_ID m')"
    if "run_state (ControllerVolumeManager_Pop k m) w = ((r, m'), w')" for w w' r m m'
    using controllers.pop_get [OF that] controllers.pop_wf [OF that] extendsD [OF controllers.pop_extends that]
    by blast
  show "keeps (driver_inv lib) (pop_controller k)"
    by (intro keepsI)
      (auto simp: pop_controller_def driver_inv_def controllers_ok_def split: prod.splits if_splits
        dest!: x extends_env)
  show "keeps (d_extends d0) (pop_controller k)"
    by (intro keepsI) (auto simp: pop_controller_def d_extends_def split: prod.splits dest!: x intro: extends_trans)
qed

lemma keeps_put_node [keeps_rules]:
  "node_record_ok v \<Longrightarrow> keeps (driver_inv lib) (put_node v)" "keeps (d_extends d0) (put_node v)"
proof -
  have x: "extends w w' \<and> manager_Get m' = (manager_Get m)(nv_ID v \<mapsto> v) \<and> (store_wf nv_ID m \<longrightarrow> store_wf nv_ID m')"
    if "run_state (NodeVolumeManager_Put v m) w = ((r, m'), w')" for w w' r m m'
    using nodes.put_get [OF that] nodes.put_wf [OF that] extendsD [OF nodes.put_extends that]
    by blast
  show "keeps (driver_inv lib) (put_node v)" if "node_record_ok v"
    using that by (intro keepsI)
      (auto simp: put_node_def driver_inv_def nodes_ok_def split: prod.splits if_splits
        dest!: x extends_env)
  show "keeps (d_extends d0) (put_node v)"
    by (intro keepsI) (auto simp: put_node_def d_extends_def split: prod.splits dest!: x intro: extends_trans)
qed

definition popped_ok :: "node_volume option \<times> 'e \<Rightarrow> bool" where
  "popped_ok r \<longleftrightarrow> (case fst r of None \<Rightarrow> True | Some v \<Rightarrow> node_record_ok v)"

lemma keeps_pop_node [keeps_rules]:
  "keeps (driver_inv lib) (pop_node k)" "keeps (d_extends d0) (pop_node k)"
proof -
  have x: "extends w w' \<and> manager_Get m' = (manager_Get m)(k := None) \<and> (store_wf nv_ID m \<longrightarrow> store_wf nv_ID m')"
    if "run_state (NodeVolumeManager_Pop k m) w = ((r, m'), w')" for w w' r m m'
    using nodes.pop_get [OF that] nodes.pop_wf [OF that] extendsD [OF nodes.pop_extends that]
    by blast
  show "keeps (driver_inv lib) (pop_node k)"
    by (intro keepsI)
      (auto simp: pop_node_def driver_inv_def nodes_ok_def split: prod.splits if_splits
        dest!: x extends_env)
  show "keeps (d_extends d0) (pop_node k)"
    by (intro keepsI) (auto simp: pop_node_def d_extends_def split: prod.splits dest!: x intro: extends_trans)
qed

lemma returns_pop_node: "returns (driver_inv lib) (pop_node k) popped_ok"
  by (auto simp: returns_def pop_node_def driver_inv_def nodes_ok_def popped_ok_def
      split: prod.splits option.splits dest: nodes.pop_result)

lemma keeps_get_node [keeps_rules]: "keeps I (get_node k)"
  by (simp add: get_node_def keeps_gets)

lemma keeps_merge_configs [keeps_rules]:
  "keeps (driver_inv lib) (merge_configs vs vp)" "keeps (d_extends d0) (merge_configs vs vp)"
  unfolding merge_configs_def by (intro keeps_rules)+


section \<open>The handlers keep it\<close>

lemma keeps_record_volume [keeps_rules]:
  assumes "controller_record_ok lib \<lparr>cv_ID = volID, cv_Name = cr_Name req,
    cv_RootPath = VolumeRootPath cc, cv_Path = VolumePath cc, cv_ConnectionInfo = ci, cv_RetainData = RetainData cc\<rparr>"
  shows "keeps (driver_inv lib) (record_volume volID n cc ci req)"
  unfolding record_volume_def Let_def by (intro keeps_rules assms)

lemma keeps_ext_record_volume [keeps_rules]: "keeps (d_extends d0) (record_volume volID n cc ci req)"
  unfolding record_volume_def Let_def by (intro keeps_rules)

lemma returns_conn_info:
  "returns (driver_inv lib) (os (read_conn_info configs))
     (\<lambda>r. \<forall>ci. r = Inr ci \<longrightarrow> endpoint_ok lib ci \<and> PathMappings ci \<noteq> [] \<and> (Password ci \<noteq> [] \<or> IsAnonymousUser ci))"
proof -
  have "endpoint_ok lib ci \<and> PathMappings ci \<noteq> [] \<and> (Password ci \<noteq> [] \<or> IsAnonymousUser ci)"
    if "irods_GetConnectionInfo lib visited = Inr ci" for ci visited
    using that validate_conn_sound(1,2) account_ok_result [OF that]
    by (auto simp: account_ok_def mappings_ok_def elim!: irods_GetConnectionInfo_split)
  then show ?thesis
    by (auto simp: returns_def read_conn_info_def run_the_env driver_inv_def split: prod.splits)
qed

text \<open>What the controller configuration says about the path.\<close>

lemma makeControllerConfig_spec:
  assumes "makeControllerConfig volName es = Inr cc"
  shows "VolumeRootPath cc \<noteq> []"
    and "NotCreateVolumeDir cc \<Longrightarrow> RetainData cc \<and> VolumePath cc = VolumeRootPath cc"
    and "\<not> NotCreateVolumeDir cc \<Longrightarrow> VolumePath cc = VolumeRootPath cc @ ''/'' @ volName"
  using assms by (auto simp: makeControllerConfig_def split: sum.splits if_splits)

lemma keeps_create_and_record [keeps_rules]:
  assumes cc: "makeControllerConfig (cr_Name req) es = Inr cc" and name: "cr_Name req \<noteq> []"
  shows "keeps (driver_inv lib) (create_and_record volID n cc configs req)"
  unfolding create_and_record_def
proof (rule keeps_bind_returns [OF _ returns_conn_info])
  show "keeps (driver_inv lib) (os (read_conn_info configs))" by (intro keeps_rules)
next
  fix r :: "go_error + conn_info"
  assume r: "\<forall>ci. r = Inr ci \<longrightarrow> endpoint_ok lib ci \<and> PathMappings ci \<noteq> [] \<and> (Password ci \<noteq> [] \<or> IsAnonymousUser ci)"
  have ok: "controller_record_ok lib \<lparr>cv_ID = volID, cv_Name = cr_Name req,
      cv_RootPath = VolumeRootPath cc, cv_Path = VolumePath cc, cv_ConnectionInfo = ci, cv_RetainData = RetainData cc\<rparr>"
    if "r = Inr ci" and "\<not> IsAnonymousUser ci" for ci
    using r that makeControllerConfig_spec [OF cc] name by (auto simp: controller_record_ok_def)
  show "keeps (driver_inv lib) (case r of Inl err \<Rightarrow> fail_mount err
     | Inr irodsConnectionInfo \<Rightarrow> do {
         mk \<leftarrow> (if \<not> NotCreateVolumeDir cc
           then os (irods_Mkdir irodsConnectionInfo (VolumePath cc)) else ret None);
         case mk of
           Some err \<Rightarrow> fail_mount (StatusErr Internal ''Could not create a volume dir %q : %v''
             [AStr (VolumePath cc), AErr err])
         | None \<Rightarrow>
             if IsAnonymousUser irodsConnectionInfo
             then fail_mount (StatusErr InvalidArgument ''Argument user must be a non-anonymous user'' [])
             else record_volume volID n cc irodsConnectionInfo req })"
    by (intro keeps_rules ok)
qed

lemma keeps_ext_generateVolumeID [keeps_rules]: "keeps (extends w0) (generateVolumeID n)"
  unfolding generateVolumeID_def by (intro keeps_rules)

lemma keeps_ext_create_and_record [keeps_rules]:
  "keeps (d_extends d0) (create_and_record volID n cc configs req)"
  unfolding create_and_record_def by (intro keeps_rules)

lemma keeps_CreateVolume:
  "keeps (driver_inv lib) (CreateVolume req)" "keeps (d_extends d0) (CreateVolume req)"
  unfolding CreateVolume_def Let_def by (intro keeps_rules; simp)+

lemma keeps_DeleteVolume:
  "keeps (driver_inv lib) (DeleteVolume volID)" "keeps (d_extends d0) (DeleteVolume volID)"
  unfolding DeleteVolume_def Let_def by (intro keeps_rules)+

lemma keeps_prepare_target [keeps_rules]:
  "keeps (driver_inv lib) (prepare_target t)" "keeps (d_extends d0) (prepare_target t)"
  unfolding prepare_target_def by (intro keeps_rules)+

lemma keeps_put_or_fail [keeps_rules]:
  "node_record_ok v \<Longrightarrow> keeps (driver_inv lib) (put_or_fail v)" "keeps (d_extends d0) (put_or_fail v)"
  unfolding put_or_fail_def by (intro keeps_rules; assumption)+

lemma keeps_stage_dynamic [keeps_rules]:
  "st_VolumeId req \<noteq> [] \<Longrightarrow> st_StagingTargetPath req \<noteq> [] \<Longrightarrow> keeps (driver_inv lib) (stage_dynamic req vc)"
  "keeps (d_extends d0) (stage_dynamic req vc)"
  unfolding stage_dynamic_def Let_def by (intro keeps_rules; simp add: node_record_ok_def)+

lemma GetClientType_Nil: "GetValidClientType [] = IrodsFuseClientType" "GetClientType [] = IrodsFuseClientType"
  by (simp_all add: GetClientType_def go_lookup_def GetValidClientType_def ToLower_def client_type_string_def)

lemma keeps_NodeStageVolume:
  "keeps (driver_inv lib) (NodeStageVolume req)" "keeps (d_extends d0) (NodeStageVolume req)"
  unfolding NodeStageVolume_def Let_def
  by (intro keeps_rules; simp add: node_record_ok_def GetClientType_Nil)+

lemma keeps_publish_dynamic [keeps_rules]:
  assumes "pb_TargetPath req \<noteq> []"
  shows "keeps (driver_inv lib) (publish_dynamic req opts)" and "keeps (d_extends d0) (publish_dynamic req opts)"
proof -
  have upd: "node_record_ok (v\<lparr>nv_MountPath := pb_TargetPath req, nv_MountOptions := opts\<rparr>)"
    if "popped_ok a" "fst a = Some v" for a :: "node_volume option \<times> go_error option" and v
    using that assms by (simp add: popped_ok_def node_record_ok_def)
  show "keeps (driver_inv lib) (publish_dynamic req opts)"
    unfolding publish_dynamic_def Let_def case_prod_beta
    by (intro keeps_rules keeps_bind_returns [OF keeps_pop_node(1) returns_pop_node] upd) auto
  show "keeps (d_extends d0) (publish_dynamic req opts)"
    unfolding publish_dynamic_def Let_def by (intro keeps_rules)
qed

lemma keeps_publish_static [keeps_rules]:
  assumes "pb_TargetPath req \<noteq> []" and "pb_VolumeId req \<noteq> []"
  shows "keeps (driver_inv lib) (publish_static req opts)" and "keeps (d_extends d0) (publish_static req opts)"
proof -
  show "keeps (driver_inv lib) (publish_static req opts)"
    unfolding publish_static_def Let_def case_prod_beta
    by (intro keeps_rules keeps_bind_returns [OF keeps_pop_node(1) returns_pop_node])
      (use assms in \<open>auto simp: popped_ok_def node_record_ok_def split: option.splits\<close>)
  show "keeps (d_extends d0) (publish_static req opts)"
    unfolding publish_static_def Let_def by (intro keeps_rules)
qed

lemma keeps_NodePublishVolume:
  "keeps (driver_inv lib) (NodePublishVolume req)" "keeps (d_extends d0) (NodePublishVolume req)"
  unfolding NodePublishVolume_def Let_def by (intro keeps_rules; simp)+

lemma keeps_unmounts [keeps_rules]:
  "keeps (driver_inv lib) (plain_unmount t)" "keeps (d_extends d0) (plain_unmount t)"
  "keeps (driver_inv lib) (client_unmount v vol t)" "keeps (d_extends d0) (client_unmount v vol t)"
  unfolding plain_unmount_def client_unmount_def by (intro keeps_rules)+

lemma keeps_unmount_targets [keeps_rules]:
  "keeps (driver_inv lib) (unpublish_target v nv t)" "keeps (d_extends d0) (unpublish_target v nv t)"
  "keeps (driver_inv lib) (unstage_target v nv t)" "keeps (d_extends d0) (unstage_target v nv t)"
  unfolding unpublish_target_def unstage_target_def by (intro keeps_rules)+

lemma keeps_NodeUnpublishVolume:
  "keeps (driver_inv lib) (NodeUnpublishVolume v t)" "keeps (d_extends d0) (NodeUnpublishVolume v t)"
  unfolding NodeUnpublishVolume_def by (intro keeps_rules)+

lemma keeps_NodeUnstageVolume:
  "keeps (driver_inv lib) (NodeUnstageVolume v t)" "keeps (d_extends d0) (NodeUnstageVolume v t)"
  unfolding NodeUnstageVolume_def by (intro keeps_rules)+


section \<open>The dispatcher\<close>

datatype request =
    Create create_volume_request
  | Delete string
  | Stage node_stage_request
  | Publish node_publish_request
  | Unpublish string string
  | Unstage string string

datatype response = Done | Created csi_volume

text \<open>The gRPC server's part: a request is passed to its handler.\<close>

definition serve :: "request \<Rightarrow> (go_error + response) op" where
  "serve req =
     (case req of
        Create r \<Rightarrow> do { x \<leftarrow> CreateVolume r; ret (map_sum id Created x) }
      | Delete v \<Rightarrow> do { x \<leftarrow> DeleteVolume v; ret (map_sum id (\<lambda>_. Done) x) }
      | Stage r \<Rightarrow> do { x \<leftarrow> NodeStageVolume r; ret (map_sum id (\<lambda>_. Done) x) }
      | Publish r \<Rightarrow> do { x \<leftarrow> NodePublishVolume r; ret (map_sum id (\<lambda>_. Done) x) }
      | Unpublish v t \<Rightarrow> do { x \<leftarrow> NodeUnpublishVolume v t; ret (map_sum id (\<lambda>_. Done) x) }
      | Unstage v t \<Rightarrow> do { x \<leftarrow> NodeUnstageVolume v t; ret (map_sum id (\<lambda>_. Done) x) })"

fun run_all :: "('req \<Rightarrow> 'resp op) \<Rightarrow> 'req list \<Rightarrow> 'resp list op" where
  "run_all h [] = ret []"
| "run_all h (r # rs) = do { x \<leftarrow> h r; xs \<leftarrow> run_all h rs; ret (x # xs) }"

locale driver_service =
  fixes handle :: "'req \<Rightarrow> 'resp op"
  assumes handle_inv: "keeps (driver_inv lib) (handle r)"
    and handle_extends: "keeps (d_extends d0) (handle r)"
begin

lemma run_all_keeps:
  "keeps (driver_inv lib) (run_all handle rs)" "keeps (d_extends d0) (run_all handle rs)"
  by (induction rs) (auto intro: keeps_bind keeps_return handle_inv handle_extends)

lemma run_all_spec:
  assumes "run_state (run_all handle rs) d = (xs, d')" and "driver_inv lib d"
  shows "driver_inv lib d'" and "d_extends d d'" and "length xs = length rs"
proof -
  show "driver_inv lib d'" using keepsD [OF run_all_keeps(1) assms(2)] assms(1) by (metis snd_conv)
  show "d_extends d d'" using keepsD [OF run_all_keeps(2) d_extends_refl] assms(1) by (metis snd_conv)
  show "length xs = length rs"
    using assms(1) by (induction rs arbitrary: xs d) (auto split: prod.splits)
qed

text \<open>A record once accepted stays sound, whatever is served after it.\<close>

lemma node_records_sound:
  assumes "run_state (run_all handle rs) d = (xs, d')" and "driver_inv lib d"
    and "manager_Get (d_nodes d') k = Some v"
  shows "node_record_ok v" and "nv_ID v = k"
proof -
  have n: "nodes_ok (d_nodes d')"
    using run_all_spec(1) [OF assms(1,2)] by (simp add: driver_inv_def)
  then show "node_record_ok v" using assms(3) by (auto simp: nodes_ok_def)
  show "nv_ID v = k"
    using n assms(3) by (auto simp: nodes_ok_def store_wf_def manager_Get_def dest: map_of_SomeD)
qed

end

interpretation create: driver_service CreateVolume
  by unfold_locales (rule keeps_CreateVolume)+

interpretation delete: driver_service DeleteVolume
  by unfold_locales (rule keeps_DeleteVolume)+

interpretation stage: driver_service NodeStageVolume
  by unfold_locales (rule keeps_NodeStageVolume)+

interpretation publish: driver_service NodePublishVolume
  by unfold_locales (rule keeps_NodePublishVolume)+

interpretation unpublish: driver_service "\<lambda>(v, t). NodeUnpublishVolume v t"
  by unfold_locales (auto intro: keeps_NodeUnpublishVolume)

interpretation unstage: driver_service "\<lambda>(v, t). NodeUnstageVolume v t"
  by unfold_locales (auto intro: keeps_NodeUnstageVolume)

interpretation service: driver_service serve
  by unfold_locales
    (auto simp: serve_def split: request.splits intro!: keeps_bind keeps_return create.handle_inv
       create.handle_extends delete.handle_inv delete.handle_extends stage.handle_inv stage.handle_extends
       publish.handle_inv publish.handle_extends keeps_NodeUnpublishVolume keeps_NodeUnstageVolume)


section \<open>Accounting of failures\<close>

text \<open>
  \<open>books m\<close>: the program raises the counter of failed mounts by one where it returns an error,
  and leaves it where it does not. \<open>unbooked m\<close>: it never moves the counter.
\<close>

abbreviation mount_failures :: "driver \<Rightarrow> nat" where
  "mount_failures d \<equiv> promCounterForVolumeMountFailures (d_metrics d)"

definition books :: "(go_error + 'a) op \<Rightarrow> bool" where
  "books m \<longleftrightarrow> (\<forall>d r d'. run_state m d = (r, d') \<longrightarrow> mount_failures d' = mount_failures d + (if isl r then 1 else 0))"

definition unbooked :: "'a op \<Rightarrow> bool" where
  "unbooked m \<longleftrightarrow> (\<forall>d. mount_failures (snd (run_state m d)) = mount_failures d)"

named_theorems book_rules "accounting of failed mounts"

lemma books_basic [book_rules]:
  "books (fail_mount e)" "books (ret (Inr x))"
  by (simp_all add: books_def fail_mount_def metrics_defs)

lemma unbooked_basic [book_rules]:
  "unbooked (os m)" "unbooked (ret x)" "unbooked (gets f)" "unbooked (get_node k)"
  "unbooked (merge_configs vs vp)" "unbooked (put_node v)" "unbooked (pop_node k)"
  "unbooked (put_controller cv)" "unbooked (pop_controller k)"
  "unbooked (tick IncreaseCounterForVolumeMount)" "unbooked (tick IncreaseCounterForActiveVolumeMount)"
  by (auto simp: unbooked_def merge_configs_def put_node_def pop_node_def put_controller_def get_node_def
      pop_controller_def metrics_defs split: prod.splits)

lemma unbooked_if [book_rules]: "unbooked m \<Longrightarrow> unbooked n \<Longrightarrow> unbooked (if b then m else n)"
  by simp

lemma books_bind [book_rules]:
  assumes "unbooked m" and "\<And>a. books (f a)"
  shows "books (State_Monad.bind m f)"
proof -
  have "mount_failures d' = mount_failures d + (if isl r then 1 else 0)"
    if "run_state (State_Monad.bind m f) d = (r, d')" for d r d'
  proof -
    obtain a d1 where m: "run_state m d = (a, d1)" by force
    then have "mount_failures d1 = mount_failures d" using assms(1) by (metis unbooked_def snd_conv)
    then show ?thesis using that m assms(2) [of a] by (auto simp: books_def)
  qed
  then show ?thesis by (simp add: books_def)
qed

text \<open>A program whose error is passed on.\<close>

lemma books_pass [book_rules]:
  "books m \<Longrightarrow> (\<And>x. books (g x)) \<Longrightarrow>
     books (State_Monad.bind m (\<lambda>r. case r of Inl e \<Rightarrow> ret (Inl e) | Inr x \<Rightarrow> g x))"
  by (fastforce simp: books_def split: prod.splits sum.splits)

lemma books_client [book_rules]:
  assumes "books g"
  shows "books (State_Monad.bind (in_process (MountClient v c opts t))
    (\<lambda>r. case r of None \<Rightarrow> g | Some e \<Rightarrow> ret (Inl e)))"
proof -
  have "mount_failures d' = mount_failures d + (if isl r then 1 else 0)"
    if "run_state (State_Monad.bind (in_process (MountClient v c opts t))
      (\<lambda>r. case r of None \<Rightarrow> g | Some e \<Rightarrow> ret (Inl e))) d = (r, d')" for d r d'
  proof -
    obtain x p where x: "run_state (MountClient v c opts t) (d_process d) = (x, p)" by force
    show ?thesis
      using that assms x MountClient_spec(1) [OF x]
      by (cases x) (fastforce simp: books_def metrics_defs)+
  qed
  then show ?thesis by (simp add: books_def)
qed

lemma books_case [book_rules]:
  "(\<And>e. books (f e)) \<Longrightarrow> (\<And>x. books (g x)) \<Longrightarrow> books (case s of Inl e \<Rightarrow> f e | Inr x \<Rightarrow> g x)"
  "books m \<Longrightarrow> (\<And>y. books (h y)) \<Longrightarrow> books (case q of None \<Rightarrow> m | Some y \<Rightarrow> h y)"
  "(\<And>a b. books (k a b)) \<Longrightarrow> books (case p of (a, b) \<Rightarrow> k a b)"
  "books m \<Longrightarrow> books n \<Longrightarrow> books (if c then m else n)"
  by (auto split: sum.splits option.splits prod.splits)

lemma books_put_or_fail [book_rules]: "books (put_or_fail v)" "books (prepare_target t)"
  unfolding put_or_fail_def prepare_target_def by (intro book_rules)+

lemma books_CreateVolume: "books (CreateVolume req)"
  unfolding CreateVolume_def create_and_record_def record_volume_def Let_def by (intro book_rules)

lemma books_NodeStageVolume: "books (NodeStageVolume req)"
  unfolding NodeStageVolume_def stage_dynamic_def Let_def by (intro book_rules)

lemma books_NodePublishVolume: "books (NodePublishVolume req)"
  unfolding NodePublishVolume_def publish_dynamic_def publish_static_def Let_def by (intro book_rules)

end
