(* ===== verification/Lifecycle.thy ===== *)
theory Lifecycle
  imports Service
begin

text \<open>
  What a call that succeeded has done: the mounts of the target, the record of the volume and the
  counters, for each handler of the node, and for the life of a volume from its staging to its
  unstaging.
\<close>

section \<open>Steps\<close>

lemma run_osE:
  assumes "run_state (os m) d = (a, d')"
  obtains w where "run_state m (d_world d) = (a, w)" and "d' = d\<lparr>d_process := (d_process d)\<lparr>p_world := w\<rparr>\<rparr>"
  using assms by (auto split: prod.splits)

lemma op_keeps_store [keeps_rules]:
  "keeps (op_is p x) (NodeVolumeManager_Put v m)" "keeps (op_is p x) (NodeVolumeManager_Pop k m)"
  unfolding NodeVolumeManager_Put_def NodeVolumeManager_Pop_def manager_Put_def manager_Pop_def
    manager_save_def encrypt_def write_savefile_def Let_def
  by (intro keeps_rules; simp)+

text \<open>What the stores' operations do to the driver; the trace gains no mount and no unmount.\<close>

lemma put_or_fail_run:
  assumes "run_state (put_or_fail v) d = (r, d')"
  shows "manager_Get (d_nodes d') = (manager_Get (d_nodes d))(nv_ID v \<mapsto> v)"
    and "last_op p (d_trace d') = last_op p (d_trace d)"
    and "r = Inr () \<Longrightarrow> d_metrics d' = d_metrics d"
proof -
  obtain e m w where p: "run_state (NodeVolumeManager_Put v (d_nodes d)) (d_world d) = ((e, m), w)"
    by (metis surj_pair)
  have "last_op p (w_trace w) = last_op p (d_trace d)"
    by (rule op_isD [OF op_keeps_store(1) p])
  with p nodes.put_get [OF p] assms
  show "manager_Get (d_nodes d') = (manager_Get (d_nodes d))(nv_ID v \<mapsto> v)"
    and "last_op p (d_trace d') = last_op p (d_trace d)"
    and "r = Inr () \<Longrightarrow> d_metrics d' = d_metrics d"
    by (auto simp: put_or_fail_def put_node_def fail_mount_def split: option.splits)
qed

lemma pop_node_run:
  assumes "run_state (pop_node k) d = (r, d')"
  shows "manager_Get (d_nodes d') = (manager_Get (d_nodes d))(k := None)"
    and "fst r = manager_Get (d_nodes d) k"
    and "last_op p (d_trace d') = last_op p (d_trace d)" and "d_metrics d' = d_metrics d"
proof -
  obtain x m w where p: "run_state (NodeVolumeManager_Pop k (d_nodes d)) (d_world d) = ((x, m), w)"
    by (metis surj_pair)
  have "last_op p (w_trace w) = last_op p (d_trace d)"
    by (rule op_isD [OF op_keeps_store(2) p])
  with p nodes.pop_get [OF p] nodes.pop_result [OF p] assms
  show "manager_Get (d_nodes d') = (manager_Get (d_nodes d))(k := None)"
    and "fst r = manager_Get (d_nodes d) k"
    and "last_op p (d_trace d') = last_op p (d_trace d)" and "d_metrics d' = d_metrics d"
    by (auto simp: pop_node_def)
qed

lemma prepare_target_run:
  assumes "run_state (prepare_target t) d = (Inr (), d')"
  shows "d_nodes d' = d_nodes d" and "d_metrics d' = d_metrics d"
    and "last_op p (d_trace d') = last_op p (d_trace d)"
proof -
  obtain b e w1 where e1: "run_state (PathExists t) (d_world d) = ((b, e), w1)" by (metis surj_pair)
  then have o1: "last_op p (w_trace w1) = last_op p (d_trace d)" by (rule op_isD [OF keeps_op_paths(1)])
  obtain mk w2 where e2: "run_state (if \<not> b then MakeDir t else ret None) w1 = (mk, w2)" by force
  then have o2: "last_op p (w_trace w2) = last_op p (w_trace w1)"
    by (rule op_isD [rotated]) (intro keeps_rules)
  obtain np e' w3 where e3: "run_state (IsLikelyNotMountPoint t) w2 = ((np, e'), w3)" by (metis surj_pair)
  then have o3: "last_op p (w_trace w3) = last_op p (w_trace w2)" by (rule op_isD [OF keeps_op_paths(3)])
  have "d' = d\<lparr>d_process := (d_process d)\<lparr>p_world := w3\<rparr>\<rparr>"
    using assms e1 e2 e3
    by (cases b) (auto simp: prepare_target_def fail_mount_def split: option.splits if_splits)
  then show "d_nodes d' = d_nodes d" and "d_metrics d' = d_metrics d"
    and "last_op p (d_trace d') = last_op p (d_trace d)"
    using o1 o2 o3 by simp_all
qed

lemma merge_configs_run:
  assumes "run_state (merge_configs vs vp) d = (c, d')"
  shows "d_nodes d' = d_nodes d" and "d_metrics d' = d_metrics d"
    and "last_op p (d_trace d') = last_op p (d_trace d)"
  using assms by (auto simp: merge_configs_def run_go_range Let_def op_of_def)

lemma range_run:
  assumes "run_state (os (go_range m)) d = (es, d')"
  shows "mset es = mset m" and "d_nodes d' = d_nodes d" and "d_metrics d' = d_metrics d"
    and "last_op p (d_trace d') = last_op p (d_trace d)"
  using assms by (auto simp: run_go_range Let_def op_of_def split: if_splits)

lemma isDynamic_perm:
  assumes "mset es = mset m" and "go_map_ok m"
  shows "isDynamicVolumeProvisioningMode es = isDynamicVolumeProvisioningMode m"
proof -
  have "go_map_ok es"
    using assms by (metis go_map_ok_def mset_eq_imp_distinct_iff mset_map)
  with assms(2) map_of_perm [OF assms] show ?thesis by (simp add: isDynamic_iff)
qed

lemma client_mount_run:
  assumes "run_state (in_process (MountClient v c opts t)) d = (r, d')"
  shows "d_nodes d' = d_nodes d"
    and "d_metrics d' = apply_step (if r = None then Mounted_one else Mount_failure) (d_metrics d)"
    and "r = None \<Longrightarrow> last_op t (d_trace d') = Some Did_mount"
    and "t \<noteq> p \<Longrightarrow> p \<noteq> GetConfigOverlayFSLowerPath c v \<Longrightarrow> last_op p (d_trace d') = last_op p (d_trace d)"
proof -
  obtain x pr where k: "run_state (MountClient v c opts t) (d_process d) = (x, pr)" by force
  with assms show "d_nodes d' = d_nodes d" by auto
  show "d_metrics d' = apply_step (if r = None then Mounted_one else Mount_failure) (d_metrics d)"
    using k assms MountClient_spec(1) [OF k] by auto
  show "r = None \<Longrightarrow> last_op t (d_trace d') = Some Did_mount"
    using k assms MountClient_spec(3) [OF k] by auto
  show "t \<noteq> p \<Longrightarrow> p \<noteq> GetConfigOverlayFSLowerPath c v \<Longrightarrow> last_op p (d_trace d') = last_op p (d_trace d)"
    using k assms MountClient_frame [OF k] by auto
qed

lemma client_unmount_run:
  assumes "run_state (client_unmount v vol t) d = (Inr (), d')"
  shows "d_nodes d' = d_nodes d" and "d_metrics d' = apply_step Unmounted_one (d_metrics d)"
    and "last_op t (d_trace d') = Some Did_unmount"
proof -
  obtain x pr where k: "run_state (UnmountClient v (GetValidClientType (nv_ClientType vol)) (nv_ClientConfig vol) t)
      (d_process d) = (x, pr)" by force
  with assms have n: "x = None" "d' = d\<lparr>d_process := pr\<rparr>"
    by (auto simp: client_unmount_def split: option.splits)
  then show "d_nodes d' = d_nodes d" and "d_metrics d' = apply_step Unmounted_one (d_metrics d)"
    and "last_op t (d_trace d') = Some Did_unmount"
    using UnmountClient_spec(1,3) [OF k] by simp_all
qed

lemma plain_unmount_run:
  assumes "run_state (plain_unmount t) d = (Inr (), d')"
  shows "d_nodes d' = d_nodes d" and "d_metrics d' = apply_step Unmounted_one (d_metrics d)"
    and "last_op t (d_trace d') = Some Did_unmount"
    and "t \<noteq> p \<Longrightarrow> last_op p (d_trace d') = last_op p (d_trace d)"
  using assms
  by (auto simp: plain_unmount_def Unmount_def run_os_call Let_def op_of_def fail_unmount_def split: option.splits)

lemma bind_mount_run:
  assumes "run_state (os (MountBind src opts t)) d = (r, d')"
  shows "d_nodes d' = d_nodes d" and "d_metrics d' = d_metrics d"
    and "r = None \<Longrightarrow> last_op t (d_trace d') = Some Did_mount"
    and "t \<noteq> p \<Longrightarrow> last_op p (d_trace d') = last_op p (d_trace d)"
proof -
  obtain w where w: "run_state (MountBind src opts t) (d_world d) = (r, w)"
      "d' = d\<lparr>d_process := (d_process d)\<lparr>p_world := w\<rparr>\<rparr>"
    using assms by (rule run_osE)
  then show "d_nodes d' = d_nodes d" and "d_metrics d' = d_metrics d"
    and "r = None \<Longrightarrow> last_op t (d_trace d') = Some Did_mount"
    by (auto dest: MountBind_ok)
  show "t \<noteq> p \<Longrightarrow> last_op p (d_trace d') = last_op p (d_trace d)"
    using op_isD [OF keeps_op_mounts(3) w(1)] w(2) by simp
qed


text \<open>The same facts, one per call, for the automation.\<close>

abbreviation same_ops :: "driver \<Rightarrow> driver \<Rightarrow> bool" where
  "same_ops d d' \<equiv> \<forall>p. last_op p (d_trace d') = last_op p (d_trace d)"

lemma step_prepare: "run_state (prepare_target t) d = (Inr x, d') \<Longrightarrow>
     d_nodes d' = d_nodes d \<and> d_metrics d' = d_metrics d \<and> same_ops d d'"
  using prepare_target_run by simp

lemma step_merge: "run_state (merge_configs vs vp) d = (c, d') \<Longrightarrow>
     d_nodes d' = d_nodes d \<and> d_metrics d' = d_metrics d \<and> same_ops d d'"
  using merge_configs_run by blast

lemma step_range: "run_state (os (go_range m)) d = (es, d') \<Longrightarrow>
     (go_map_ok m \<longrightarrow> isDynamicVolumeProvisioningMode es = isDynamicVolumeProvisioningMode m) \<and>
     d_nodes d' = d_nodes d \<and> d_metrics d' = d_metrics d \<and> same_ops d d'"
  using range_run isDynamic_perm by blast

lemma step_put: "run_state (put_or_fail v) d = (Inr x, d') \<Longrightarrow>
     manager_Get (d_nodes d') = (manager_Get (d_nodes d))(nv_ID v \<mapsto> v) \<and> d_metrics d' = d_metrics d \<and> same_ops d d'"
  using put_or_fail_run by simp

lemma step_pop: "run_state (pop_node k) d = (r, d') \<Longrightarrow>
     manager_Get (d_nodes d') = (manager_Get (d_nodes d))(k := None) \<and> manager_Get (d_nodes d) k = fst r \<and>
     d_metrics d' = d_metrics d \<and> same_ops d d'"
  using pop_node_run [of k d r d'] by simp

lemma step_get: "run_state (get_node k) d = (q, d') \<Longrightarrow> manager_Get (d_nodes d) k = q \<and> d' = d"
  by (auto simp: get_node_def)

lemma step_client: "run_state (in_process (MountClient volID c opts t)) d = (e, d') \<Longrightarrow> d_nodes d' = d_nodes d \<and>
     d_metrics d' = apply_step (if e = None then Mounted_one else Mount_failure) (d_metrics d) \<and>
     (e = None \<longrightarrow> last_op t (d_trace d') = Some Did_mount)"
  by (intro conjI impI client_mount_run(1-3))

lemma step_bind: "run_state (os (MountBind src opts t)) d = (e, d') \<Longrightarrow> d_nodes d' = d_nodes d \<and> d_metrics d' = d_metrics d \<and>
     (e = None \<longrightarrow> last_op t (d_trace d') = Some Did_mount) \<and>
     (\<forall>p. p \<noteq> t \<longrightarrow> last_op p (d_trace d') = last_op p (d_trace d))"
  using not_sym by (intro conjI impI allI) (auto intro: bind_mount_run simp del: run_os)

lemma step_client_unmount: "run_state (client_unmount volID vol t) d = (Inr x, d') \<Longrightarrow> d_nodes d' = d_nodes d \<and>
     d_metrics d' = apply_step Unmounted_one (d_metrics d) \<and> last_op t (d_trace d') = Some Did_unmount"
  using client_unmount_run by simp

lemma step_unmount: "run_state (plain_unmount t) d = (Inr x, d') \<Longrightarrow> d_nodes d' = d_nodes d \<and>
     d_metrics d' = apply_step Unmounted_one (d_metrics d) \<and> last_op t (d_trace d') = Some Did_unmount \<and>
     (\<forall>p. p \<noteq> t \<longrightarrow> last_op p (d_trace d') = last_op p (d_trace d))"
  using plain_unmount_run [of t d d'] by auto

lemma step_device: "run_state (os (GetDeviceName t)) d = (g, d') \<Longrightarrow>
     e_device (w_env (d_world d)) (d_trace d) t = g \<and> d_nodes d' = d_nodes d \<and> d_metrics d' = d_metrics d \<and> same_ops d d'"
  by (auto simp: GetDeviceName_def run_reads op_of_def)

lemma step_remove: "run_state (os (os_call (OsRemove t))) d = (z, d') \<Longrightarrow>
     d_nodes d' = d_nodes d \<and> d_metrics d' = d_metrics d \<and> same_ops d d'"
  by (auto simp: run_os_call Let_def op_of_def split: option.splits)

lemmas mount_steps = step_prepare step_merge step_range step_put step_pop step_client step_bind
lemmas unmount_steps = step_get step_pop step_client_unmount step_unmount step_device step_remove


section \<open>Successful calls\<close>

text \<open>
  \<open>post m d Q\<close>: if the call \<open>m\<close> succeeds on \<open>d\<close>, \<open>Q\<close> holds of the answer and the new state.
  The rules run through a handler and drop the branches that return an error.
\<close>

definition post :: "(go_error + 'a) op \<Rightarrow> driver \<Rightarrow> ('a \<Rightarrow> driver \<Rightarrow> bool) \<Rightarrow> bool" where
  "post m d Q \<longleftrightarrow> (\<forall>x d'. run_state m d = (Inr x, d') \<longrightarrow> Q x d')"

named_theorems post_rules "running through the branches of a handler that succeed"

lemma postI: "(\<And>x d'. run_state m d = (Inr x, d') \<Longrightarrow> Q x d') \<Longrightarrow> post m d Q"
  by (simp add: post_def)

lemma postD: "post m d Q \<Longrightarrow> run_state m d = (Inr x, d') \<Longrightarrow> Q x d'"
  by (simp add: post_def)

lemma post_basic [post_rules]:
  "post (fail_mount e) d Q" "post (fail_unmount e) d Q" "post (ret (Inl e)) d Q"
  "Q x d \<Longrightarrow> post (ret (Inr x)) d Q"
  by (simp_all add: post_def fail_mount_def fail_unmount_def)

lemma post_bind [post_rules]:
  "(\<And>a d1. run_state m d = (a, d1) \<Longrightarrow> post (f a) d1 Q) \<Longrightarrow> post (State_Monad.bind m f) d Q"
  by (auto simp: post_def split: prod.splits)

lemma post_cases [post_rules]:
  "(b \<Longrightarrow> post m d Q) \<Longrightarrow> (\<not> b \<Longrightarrow> post n d Q) \<Longrightarrow> post (if b then m else n) d Q"
  "(\<And>e. s = Inl e \<Longrightarrow> post (f e) d Q) \<Longrightarrow> (\<And>x. s = Inr x \<Longrightarrow> post (g x) d Q) \<Longrightarrow>
     post (case s of Inl e \<Rightarrow> f e | Inr x \<Rightarrow> g x) d Q"
  "(q = None \<Longrightarrow> post m d Q) \<Longrightarrow> (\<And>y. q = Some y \<Longrightarrow> post (h y) d Q) \<Longrightarrow>
     post (case q of None \<Rightarrow> m | Some y \<Rightarrow> h y) d Q"
  "(\<And>y z. p = (y, z) \<Longrightarrow> post (k y z) d Q) \<Longrightarrow> post (case p of (y, z) \<Rightarrow> k y z) d Q"
  by (auto split: sum.splits option.splits prod.splits)


section \<open>Staging\<close>

text \<open>What the bookkeeping of a mount leaves behind.\<close>

definition staged :: "string \<Rightarrow> string \<Rightarrow> driver \<Rightarrow> bool" where
  "staged volID t d \<longleftrightarrow>
     (case manager_Get (d_nodes d) volID of
        None \<Rightarrow> False
      | Some v \<Rightarrow> nv_DynamicVolumeProvisioning v \<and> nv_StageVolume v \<and> nv_StagingMountPath v = t)"

lemma stage_dynamic_ok:
  "post (stage_dynamic req vc) d (\<lambda>_ d'.
     last_op (st_StagingTargetPath req) (d_trace d') = Some Did_mount \<and>
     d_metrics d' = apply_step Mounted_one (d_metrics d) \<and>
     staged (st_VolumeId req) (st_StagingTargetPath req) d')"
  unfolding stage_dynamic_def Let_def
  by (intro post_rules postI)
    (auto simp: staged_def simp del: run_in_process run_os dest!: mount_steps)

lemma NodeStageVolume_dynamic:
  assumes "go_map_ok (st_VolumeContext req)" and "isDynamicVolumeProvisioningMode (st_VolumeContext req)"
  shows "post (NodeStageVolume req) d (\<lambda>_ d'.
     last_op (st_StagingTargetPath req) (d_trace d') = Some Did_mount \<and>
     d_metrics d' = apply_step Mounted_one (d_metrics d) \<and>
     staged (st_VolumeId req) (st_StagingTargetPath req) d')"
  unfolding NodeStageVolume_def Let_def
  by (intro post_rules postI)
    (use assms in \<open>auto simp del: run_in_process run_os dest!: mount_steps postD [OF stage_dynamic_ok]\<close>)

text \<open>A volume the controller did not provision is only recorded.\<close>

lemma NodeStageVolume_static:
  assumes "go_map_ok (st_VolumeContext req)" and "\<not> isDynamicVolumeProvisioningMode (st_VolumeContext req)"
  shows "post (NodeStageVolume req) d (\<lambda>_ d'. same_ops d d' \<and> d_metrics d' = d_metrics d \<and>
     (\<exists>v. manager_Get (d_nodes d') = (manager_Get (d_nodes d))(st_VolumeId req \<mapsto> v) \<and>
        nv_StageVolume v \<and> \<not> nv_DynamicVolumeProvisioning v))"
  unfolding NodeStageVolume_def Let_def
  by (intro post_rules postI)
    (use assms in \<open>auto simp del: run_in_process run_os dest!: mount_steps postD [OF stage_dynamic_ok]\<close>)


section \<open>Publishing\<close>

lemma publish_dynamic_ok:
  "post (publish_dynamic req opts) d (\<lambda>_ d'.
     last_op (pb_TargetPath req) (d_trace d') = Some Did_mount \<and>
     (\<forall>p. p \<noteq> pb_TargetPath req \<longrightarrow> last_op p (d_trace d') = last_op p (d_trace d)) \<and>
     d_metrics d' = apply_step Mounted_one (d_metrics d) \<and>
     (\<exists>v. manager_Get (d_nodes d) (pb_VolumeId req) = Some v \<and>
        (nv_ID v = pb_VolumeId req \<longrightarrow> manager_Get (d_nodes d') (pb_VolumeId req) =
          Some (v\<lparr>nv_MountPath := pb_TargetPath req, nv_MountOptions := opts\<rparr>))))"
  unfolding publish_dynamic_def Let_def
  by (intro post_rules postI)
    (auto simp del: run_in_process run_os dest!: mount_steps)

lemma publish_static_ok:
  "post (publish_static req opts) d (\<lambda>_ d'.
     last_op (pb_TargetPath req) (d_trace d') = Some Did_mount \<and>
     d_metrics d' = apply_step Mounted_one (d_metrics d))"
  unfolding publish_static_def Let_def
  by (intro post_rules postI)
    (auto simp del: run_in_process run_os dest!: mount_steps)

definition publish_options :: "node_publish_request \<Rightarrow> string list" where
  "publish_options req =
     (case pb_VolumeCapability req of
        None \<Rightarrow> []
      | Some vc \<Rightarrow> GetMountOptions (vc_mount_flags vc) (vc_access_mode vc) @ (if pb_Readonly req then [''ro''] else []))"

lemma NodePublishVolume_dynamic:
  assumes "go_map_ok (pb_VolumeContext req)" and "isDynamicVolumeProvisioningMode (pb_VolumeContext req)"
  shows "post (NodePublishVolume req) d (\<lambda>_ d'.
     last_op (pb_TargetPath req) (d_trace d') = Some Did_mount \<and>
     (\<forall>p. p \<noteq> pb_TargetPath req \<longrightarrow> last_op p (d_trace d') = last_op p (d_trace d)) \<and>
     d_metrics d' = apply_step Mounted_one (d_metrics d) \<and>
     (\<exists>v. manager_Get (d_nodes d) (pb_VolumeId req) = Some v \<and>
        (nv_ID v = pb_VolumeId req \<longrightarrow> manager_Get (d_nodes d') (pb_VolumeId req) =
          Some (v\<lparr>nv_MountPath := pb_TargetPath req, nv_MountOptions := publish_options req\<rparr>))))"
  unfolding NodePublishVolume_def Let_def
  by (intro post_rules postI)
    (use assms in \<open>auto simp: publish_options_def simp del: run_in_process run_os
       dest!: mount_steps postD [OF publish_dynamic_ok]\<close>)

lemma NodePublishVolume_ok:
  "post (NodePublishVolume req) d (\<lambda>_ d'.
     last_op (pb_TargetPath req) (d_trace d') = Some Did_mount \<and>
     d_metrics d' = apply_step Mounted_one (d_metrics d))"
  unfolding NodePublishVolume_def Let_def
  by (intro post_rules postI)
    (auto simp del: run_in_process run_os
       dest!: mount_steps postD [OF publish_dynamic_ok] postD [OF publish_static_ok])


section \<open>Unpublishing and unstaging\<close>

text \<open>
  The mount table answers for what was mounted: a path whose last operation mounted it has
  references.
\<close>

definition mount_table_ok :: "env \<Rightarrow> bool" where
  "mount_table_ok e \<longleftrightarrow>
     (\<forall>tr p. last_op p tr = Some Did_mount \<longrightarrow> (case e_device e tr p of Inl _ \<Rightarrow> True | Inr (_, n) \<Rightarrow> n \<noteq> 0))"

lemma mount_table_okD:
  "mount_table_ok e \<Longrightarrow> last_op p tr = Some Did_mount \<Longrightarrow> e_device e tr p \<noteq> Inr (dev, 0)"
  by (auto simp: mount_table_ok_def split: sum.splits)

text \<open>A target that was mounted is unmounted, by the mounter or by the volume's client.\<close>

lemma unpublish_target_ok:
  assumes "mount_table_ok (w_env (d_world d))" and "last_op t (d_trace d) = Some Did_mount"
  shows "post (unpublish_target volID nv t) d (\<lambda>_ d'. last_op t (d_trace d') = Some Did_unmount \<and>
     d_metrics d' = apply_step Unmounted_one (d_metrics d) \<and> d_nodes d' = d_nodes d)"
  unfolding unpublish_target_def
  by (intro post_rules postI)
    (use assms in \<open>auto simp del: run_os apply_step.simps dest!: unmount_steps dest: mount_table_okD
       split: option.splits if_splits\<close>)

lemma unpublish_target_frame:
  assumes "\<forall>v. nv = Some v \<longrightarrow> nv_DynamicVolumeProvisioning v"
  shows "post (unpublish_target volID nv t) d (\<lambda>_ d'.
     \<forall>p. p \<noteq> t \<longrightarrow> last_op p (d_trace d') = last_op p (d_trace d))"
  unfolding unpublish_target_def
  by (intro post_rules postI)
    (use assms in \<open>auto simp del: run_os apply_step.simps dest!: unmount_steps split: option.splits if_splits\<close>)

lemma d_extendsD: "(\<And>d0. keeps (d_extends d0) m) \<Longrightarrow> run_state m d = (r, d') \<Longrightarrow> d_extends d d'"
  by (metis d_extends_refl keepsD snd_conv)

lemma env_same: "(\<And>d0. keeps (d_extends d0) m) \<Longrightarrow> run_state m d = (r, d') \<Longrightarrow> w_env (d_world d') = w_env (d_world d)"
  by (drule (1) d_extendsD) (simp add: d_extends_def extends_env)

text \<open>The state the tail of the handler runs on: a pop changes neither the mounts nor the counters.\<close>

lemma NodeUnpublishVolume_tail:
  assumes "run_state (NodeUnpublishVolume volID t) d = (Inr x, d')"
  obtains d1 nv where "run_state (unpublish_target volID nv t) d1 = (Inr x, d')" and "same_ops d d1"
    and "d_metrics d1 = d_metrics d" and "w_env (d_world d1) = w_env (d_world d)"
proof -
  have pop_env: "w_env (d_world d1) = w_env (d_world d)" if "run_state (pop_node volID) d = (r, d1)" for r d1
    by (rule env_same [OF keeps_pop_node(2) that])
  show thesis
  proof (cases "manager_Get (d_nodes d) volID")
    case None
    with assms show thesis
      by (intro that [of None d]) (auto simp: NodeUnpublishVolume_def get_node_def split: if_splits)
  next
    case (Some v)
    obtain q e d1 where p: "run_state (pop_node volID) d = ((q, e), d1)" by (metis surj_pair)
    show thesis
    proof (cases "nv_StageVolume v")
      case True
      with Some assms show thesis
        by (intro that [of "Some v" d]) (auto simp: NodeUnpublishVolume_def get_node_def split: if_splits)
    next
      case False
      with Some assms p step_pop [OF p] pop_env [OF p] show thesis
        by (intro that [of "Some v" d1])
          (auto simp: NodeUnpublishVolume_def get_node_def split: if_splits option.splits)
    qed
  qed
qed

lemma NodeUnpublishVolume_ok:
  assumes "mount_table_ok (w_env (d_world d))" and "last_op t (d_trace d) = Some Did_mount"
  shows "post (NodeUnpublishVolume volID t) d (\<lambda>_ d'. last_op t (d_trace d') = Some Did_unmount \<and>
     d_metrics d' = apply_step Unmounted_one (d_metrics d))"
proof (rule postI)
  fix x d' assume "run_state (NodeUnpublishVolume volID t) d = (Inr x, d')"
  then obtain d1 nv where r: "run_state (unpublish_target volID nv t) d1 = (Inr x, d')" and s: "same_ops d d1"
    and m: "d_metrics d1 = d_metrics d" and e: "w_env (d_world d1) = w_env (d_world d)"
    by (rule NodeUnpublishVolume_tail)
  have "mount_table_ok (w_env (d_world d1))" "last_op t (d_trace d1) = Some Did_mount"
    using assms s e by simp_all
  from postD [OF unpublish_target_ok [OF this] r] m
  show "last_op t (d_trace d') = Some Did_unmount \<and> d_metrics d' = apply_step Unmounted_one (d_metrics d)"
    by simp
qed

lemma NodeUnpublishVolume_dynamic:
  assumes "manager_Get (d_nodes d) volID = Some v" and "nv_DynamicVolumeProvisioning v" and "nv_StageVolume v"
    and "mount_table_ok (w_env (d_world d))" and "last_op t (d_trace d) = Some Did_mount"
  shows "post (NodeUnpublishVolume volID t) d (\<lambda>_ d'. last_op t (d_trace d') = Some Did_unmount \<and>
     d_metrics d' = apply_step Unmounted_one (d_metrics d) \<and> d_nodes d' = d_nodes d \<and>
     (\<forall>p. p \<noteq> t \<longrightarrow> last_op p (d_trace d') = last_op p (d_trace d)))"
proof (rule postI)
  fix x d' assume "run_state (NodeUnpublishVolume volID t) d = (Inr x, d')"
  then have r: "run_state (unpublish_target volID (Some v) t) d = (Inr x, d')"
    using assms(1-3) by (simp add: NodeUnpublishVolume_def get_node_def split: if_splits)
  show "last_op t (d_trace d') = Some Did_unmount \<and>
     d_metrics d' = apply_step Unmounted_one (d_metrics d) \<and> d_nodes d' = d_nodes d \<and>
     (\<forall>p. p \<noteq> t \<longrightarrow> last_op p (d_trace d') = last_op p (d_trace d))"
    using postD [OF unpublish_target_ok [OF assms(4,5)] r] postD [OF unpublish_target_frame r] assms(2) by simp
qed

lemma unstage_target_ok:
  assumes "mount_table_ok (w_env (d_world d))" and "last_op t (d_trace d) = Some Did_mount"
  shows "post (unstage_target volID nv t) d (\<lambda>_ d'. last_op t (d_trace d') = Some Did_unmount \<and>
     d_metrics d' = apply_step Unmounted_one (d_metrics d) \<and> d_nodes d' = d_nodes d)"
  unfolding unstage_target_def
  by (intro post_rules postI)
    (use assms in \<open>auto simp del: run_os apply_step.simps dest!: unmount_steps dest: mount_table_okD
       split: option.splits\<close>)


lemma NodeUnstageVolume_dynamic:
  assumes "manager_Get (d_nodes d) volID = Some v" and "nv_DynamicVolumeProvisioning v"
    and "mount_table_ok (w_env (d_world d))" and "last_op t (d_trace d) = Some Did_mount"
  shows "post (NodeUnstageVolume volID t) d (\<lambda>_ d'. last_op t (d_trace d') = Some Did_unmount \<and>
     d_metrics d' = apply_step Unmounted_one (d_metrics d) \<and> manager_Get (d_nodes d') volID = None)"
proof (rule postI)
  fix x d' assume u: "run_state (NodeUnstageVolume volID t) d = (Inr x, d')"
  obtain q e d1 where p: "run_state (pop_node volID) d = ((q, e), d1)" by (metis surj_pair)
  have r: "run_state (unstage_target volID (Some v) t) d1 = (Inr x, d')"
    using u p assms(1,2) by (simp add: NodeUnstageVolume_def get_node_def split: if_splits option.splits)
  have "mount_table_ok (w_env (d_world d1))" "last_op t (d_trace d1) = Some Did_mount"
    using assms(3,4) step_pop [OF p] env_same [OF keeps_pop_node(2) p] by simp_all
  from postD [OF unstage_target_ok [OF this] r] step_pop [OF p]
  show "last_op t (d_trace d') = Some Did_unmount \<and>
     d_metrics d' = apply_step Unmounted_one (d_metrics d) \<and> manager_Get (d_nodes d') volID = None"
    by simp
qed

text \<open>
  Unstaging drops the record before it unmounts, so the record is gone also where the unmount
  fails: a second call has no record, and unmounts without the client.
\<close>

lemma NodeUnstageVolume_drops:
  assumes "run_state (NodeUnstageVolume volID t) d = (r, d')" and "volID \<noteq> []"
  shows "manager_Get (d_nodes d') volID = None"
proof -
  have nodes: "d_nodes d2 = d_nodes d1" if "run_state (unstage_target volID nv t) d1 = (r', d2)" for nv d1 r' d2
    using that
    by (auto simp: unstage_target_def fail_unmount_def GetDeviceName_def run_reads plain_unmount_def
        client_unmount_def split: if_splits sum.splits option.splits prod.splits)
  show ?thesis
  proof (cases "manager_Get (d_nodes d) volID")
    case None
    with assms show ?thesis by (auto simp: NodeUnstageVolume_def get_node_def dest: nodes)
  next
    case (Some v)
    obtain q e d1 where p: "run_state (pop_node volID) d = ((q, e), d1)" by (metis surj_pair)
    then have "manager_Get (d_nodes d1) volID = None" using step_pop [OF p] by simp
    with Some p assms show ?thesis
      by (auto simp: NodeUnstageVolume_def get_node_def split: option.splits if_splits dest: nodes)
  qed
qed


section \<open>The life of a volume on a node\<close>

lemma volume_lifecycle:
  assumes ctx: "go_map_ok (st_VolumeContext sreq)" "isDynamicVolumeProvisioningMode (st_VolumeContext sreq)"
    and pctx: "go_map_ok (pb_VolumeContext preq)" "isDynamicVolumeProvisioningMode (pb_VolumeContext preq)"
    and ids: "pb_VolumeId preq = st_VolumeId sreq"
    and paths: "pb_TargetPath preq \<noteq> st_StagingTargetPath sreq"
    and inv: "driver_inv lib d0" and table: "mount_table_ok (w_env (d_world d0))"
    and stage: "run_state (NodeStageVolume sreq) d0 = (Inr (), d1)"
    and publish: "run_state (NodePublishVolume preq) d1 = (Inr (), d2)"
    and unpublish: "run_state (NodeUnpublishVolume (st_VolumeId sreq) (pb_TargetPath preq)) d2 = (Inr (), d3)"
    and unstage: "run_state (NodeUnstageVolume (st_VolumeId sreq) (st_StagingTargetPath sreq)) d3 = (Inr (), d4)"
  shows "last_op (pb_TargetPath preq) (d_trace d3) = Some Did_unmount"
    and "last_op (st_StagingTargetPath sreq) (d_trace d4) = Some Did_unmount"
    and "manager_Get (d_nodes d4) (st_VolumeId sreq) = None"
    and "promCounterForActiveVolumeMount (d_metrics d4) = promCounterForActiveVolumeMount (d_metrics d0)"
    and "promCounterForVolumeMount (d_metrics d4) = promCounterForVolumeMount (d_metrics d0) + 2"
    and "promCounterForVolumeUnmount (d_metrics d4) = promCounterForVolumeUnmount (d_metrics d0) + 2"
    and "mount_failures d4 = mount_failures d0"
proof -
  let ?k = "st_VolumeId sreq" and ?s = "st_StagingTargetPath sreq" and ?t = "pb_TargetPath preq"
  note s = postD [OF NodeStageVolume_dynamic [OF ctx] stage]
  then obtain v where v: "manager_Get (d_nodes d1) ?k = Some v" "nv_DynamicVolumeProvisioning v" "nv_StageVolume v"
    by (auto simp: staged_def split: option.splits)
  have e: "w_env (d_world d1) = w_env (d_world d0)" "w_env (d_world d2) = w_env (d_world d1)"
      "w_env (d_world d3) = w_env (d_world d2)"
    by (rule env_same [OF keeps_NodeStageVolume(2) stage] env_same [OF keeps_NodePublishVolume(2) publish]
      env_same [OF keeps_NodeUnpublishVolume(2) unpublish])+
  have i1: "driver_inv lib d1"
    using keepsD [OF keeps_NodeStageVolume(1) inv] stage by (metis snd_conv)
  have "nv_ID v = ?k"
    using i1 v(1) by (auto simp: driver_inv_def nodes_ok_def store_wf_def manager_Get_def dest: map_of_SomeD)
  with postD [OF NodePublishVolume_dynamic [OF pctx] publish] v ids obtain v' where
    p: "last_op ?t (d_trace d2) = Some Did_mount" "last_op ?s (d_trace d2) = last_op ?s (d_trace d1)"
      "d_metrics d2 = apply_step Mounted_one (d_metrics d1)"
    and v': "manager_Get (d_nodes d2) ?k = Some v'" "nv_DynamicVolumeProvisioning v'" "nv_StageVolume v'"
    using paths by (fastforce simp del: apply_step.simps)
  have t2: "mount_table_ok (w_env (d_world d2))" and t3: "mount_table_ok (w_env (d_world d3))"
    using table e by simp_all
  note u = postD [OF NodeUnpublishVolume_dynamic [OF v' t2 p(1)] unpublish]
  have s3: "last_op ?s (d_trace d3) = Some Did_mount" using u p(2) s paths by auto
  have v3: "manager_Get (d_nodes d3) ?k = Some v'" using u v'(1) by simp
  note n = postD [OF NodeUnstageVolume_dynamic [OF v3 v'(2) t3 s3] unstage]
  show "last_op ?t (d_trace d3) = Some Did_unmount" using u by blast
  show "last_op ?s (d_trace d4) = Some Did_unmount" and "manager_Get (d_nodes d4) ?k = None" using n by blast+
  have m: "d_metrics d4 = apply_step Unmounted_one (apply_step Unmounted_one
      (apply_step Mounted_one (apply_step Mounted_one (d_metrics d0))))"
    using s p(3) u n by (simp del: apply_step.simps)
  show "promCounterForActiveVolumeMount (d_metrics d4) = promCounterForActiveVolumeMount (d_metrics d0)"
    and "promCounterForVolumeMount (d_metrics d4) = promCounterForVolumeMount (d_metrics d0) + 2"
    and "promCounterForVolumeUnmount (d_metrics d4) = promCounterForVolumeUnmount (d_metrics d0) + 2"
    and "mount_failures d4 = mount_failures d0"
    unfolding m by (simp_all add: metrics_defs)
qed

end
