(* ===== verification/Provisioning.thy ===== *)
theory Provisioning
  imports Lifecycle
begin

text \<open>
  What dynamic provisioning does to the data in iRODS: which collections the driver makes and
  which it removes, over any sequence of calls. The only removal is that of \<open>DeleteVolume\<close>; what
  it removes is a collection the driver made for the volume. Also what \<open>CreateVolume\<close> tells the
  node about the volume it made.
\<close>

section \<open>Collections made and removed\<close>

definition made_dirs :: "trace \<Rightarrow> string set" where
  "made_dirs tr = {p. EvCall (IrodsMakeDir p True) None \<in> set tr}"

definition removed_dirs :: "trace \<Rightarrow> string set" where
  "removed_dirs tr = {p. \<exists>ev \<in> set tr. \<exists>a b r. ev = EvCall (IrodsRemoveDir p a b) r}"

text \<open>The trace after \<open>w\<close> has removed the same collections as before: a program keeps this for each \<open>R\<close>.\<close>

definition rm_is :: "string set \<Rightarrow> world \<Rightarrow> bool" where
  "rm_is R w \<longleftrightarrow> removed_dirs (w_trace w) = R"

lemma removed_dirs_Nil [simp]: "removed_dirs [] = {}"
  by (simp add: removed_dirs_def)

lemma removed_dirs_Cons [simp]:
  "removed_dirs (ev # tr) = (case ev of EvCall (IrodsRemoveDir p a b) r \<Rightarrow> insert p (removed_dirs tr) | _ \<Rightarrow> removed_dirs tr)"
  by (auto simp: removed_dirs_def split: event.splits call.splits)

lemma made_dirs_mono: "extends w w' \<Longrightarrow> made_dirs (w_trace w) \<subseteq> made_dirs (w_trace w')"
  by (auto simp: made_dirs_def extends_def dest: set_mono_suffix)

fun removes :: "call \<Rightarrow> bool" where
  "removes (IrodsRemoveDir p a b) = True"
| "removes _ = False"

lemma keeps_rm_os_call [keeps_rules]: "\<not> removes c \<Longrightarrow> keeps (rm_is R) (os_call c)"
  by (cases c) (simp_all add: keeps_def rm_is_def run_rules Let_def)

lemma keeps_rm_prims [keeps_rules]:
  "keeps (rm_is R) (os_stat q)" "keeps (rm_is R) (os_read_file q)"
  "keeps (rm_is R) (os_read_dir q)" "keeps (rm_is R) (eval_symlinks q)"
  "keeps (rm_is R) (consistent_read q n)" "keeps (rm_is R) (device_name q)"
  "keeps (rm_is R) (rand_read n)" "keeps (rm_is R) new_xid" "keeps (rm_is R) (go_range m)"
  "keeps (rm_is R) the_env" "keeps (rm_is R) (Umask n)" "keeps (rm_is R) (go_sync v ci u)"
  "keeps (rm_is R) (os_exec cmd args stdin)"
  by (auto simp: keeps_def run_rules Let_def rm_is_def split: prod.splits)

lemma keeps_rm_mounter [keeps_rules]:
  "keeps (rm_is R) (make_open_dir cm am q)" "keeps (rm_is R) (PathExists q)" "keeps (rm_is R) (MakeDir q)"
  "keeps (rm_is R) (IsLikelyNotMountPoint q)" "keeps (rm_is R) (GetDeviceName q)" "keeps (rm_is R) (Unmount q)"
  "keeps (rm_is R) (UnmountLazy q lz)" "keeps (rm_is R) (FuseUnmount q lz)"
  unfolding make_open_dir_def PathExists_def MakeDir_def IsLikelyNotMountPoint_def GetDeviceName_def
    Unmount_def UnmountLazy_def FuseUnmount_def Let_def
  by (intro keeps_rules; simp)+

lemma keeps_rm_mounts [keeps_rules]:
  "keeps (rm_is R) (MountSensitive2 src srcm tgt fs opts sens stdin)"
  "keeps (rm_is R) (MountSensitive src tgt fs opts sens)" "keeps (rm_is R) (MountBind src opts tgt)"
  unfolding MountBind_def MountSensitive2_def MountSensitive_def doMount_def ensureMtab_def Let_def
  by (intro keeps_rules; simp)+

lemma keeps_rm_irods [keeps_rules]:
  "keeps (rm_is R) (irods_Mount v c opts t)" "keeps (rm_is R) (irods_Unmount v c t)"
  "keeps (rm_is R) (read_conn_info configs)" "keeps (rm_is R) (irods_Mkdir conn q)"
  unfolding irods_Mount_def irods_Unmount_def mount_under_overlay_def mountOverlay_def mountFuseOverlayFS_def
    unmountOverlayFS_def mount_irodsfs_def irods_dir_defs TestConnection_def IsOverlayDriverSupported_def
    read_conn_info_def irods_Mkdir_def with_irods_fs_def Let_def
  by (intro keeps_rules; simp)+

lemma keeps_rm_others [keeps_rules]:
  "keeps (rm_is R) (webdav_Mount v c opts t)" "keeps (rm_is R) (webdav_Unmount v c t)"
  "keeps (rm_is R) (nfs_Mount v c opts t)" "keeps (rm_is R) (nfs_Unmount v c t)"
  unfolding webdav_Mount_def webdav_Unmount_def nfs_Mount_def nfs_Unmount_def SaveToFile_def
    makeDavFSDataRootPath_def makeDavFSCachePath_def deleteDavFSData_def Let_def
  by (intro keeps_rules; simp)+

lemma keeps_rm_stores [keeps_rules]:
  "keeps (rm_is R) (NodeVolumeManager_Put nv m)" "keeps (rm_is R) (NodeVolumeManager_Pop k m)"
  "keeps (rm_is R) (ControllerVolumeManager_Put cv cm)" "keeps (rm_is R) (ControllerVolumeManager_Pop k cm)"
  unfolding NodeVolumeManager_Put_def NodeVolumeManager_Pop_def ControllerVolumeManager_Put_def
    ControllerVolumeManager_Pop_def manager_Put_def manager_Pop_def manager_save_def encrypt_def
    write_savefile_def Let_def
  by (intro keeps_rules; simp)+



section \<open>The driver removes only what it made\<close>

text \<open>
  Every collection removed was made before, and what a record allows to be removed was made.
\<close>

definition removals_ok :: "driver \<Rightarrow> bool" where
  "removals_ok d \<longleftrightarrow> removed_dirs (d_trace d) \<subseteq> made_dirs (d_trace d) \<and>
     (\<forall>k v. manager_Get (d_controllers d) k = Some v \<longrightarrow> \<not> cv_RetainData v \<longrightarrow> cv_Path v \<in> made_dirs (d_trace d))"

lemma removals_ok_step:
  assumes "removals_ok d" and "extends (d_world d) (d_world d')"
    and "removed_dirs (d_trace d') = removed_dirs (d_trace d)"
    and "\<And>k v. manager_Get (d_controllers d') k = Some v \<Longrightarrow> \<not> cv_RetainData v \<Longrightarrow>
      manager_Get (d_controllers d) k = Some v \<or> cv_Path v \<in> made_dirs (d_trace d')"
  shows "removals_ok d'"
proof -
  have m: "made_dirs (d_trace d) \<subseteq> made_dirs (d_trace d')" using made_dirs_mono [OF assms(2)] .
  show ?thesis
    unfolding removals_ok_def
  proof (intro conjI allI impI)
    show "removed_dirs (d_trace d') \<subseteq> made_dirs (d_trace d')"
      using assms(1,3) m by (simp add: removals_ok_def) blast
  next
    fix k v assume "manager_Get (d_controllers d') k = Some v" "\<not> cv_RetainData v"
    with assms(4) [of k v] assms(1) m show "cv_Path v \<in> made_dirs (d_trace d')"
      by (auto simp: removals_ok_def)
  qed
qed

lemma rm_isD: "(\<And>R. keeps (rm_is R) m) \<Longrightarrow> run_state m w = (a, w') \<Longrightarrow>
    removed_dirs (w_trace w') = removed_dirs (w_trace w)"
  using keepsD [of "rm_is (removed_dirs (w_trace w))" m w] by (auto simp: rm_is_def)

lemma keeps_removals_os [keeps_rules]:
  assumes "\<And>w0. keeps (extends w0) m" and "\<And>R. keeps (rm_is R) m"
  shows "keeps removals_ok (os m)"
proof (rule keepsI)
  fix d assume ok: "removals_ok d"
  obtain a w where r: "run_state m (d_world d) = (a, w)" by force
  show "removals_ok (snd (run_state (os m) d))"
    by (rule removals_ok_step [OF ok])
      (use r extendsD [OF assms(1) r] rm_isD [OF assms(2) r] in auto)
qed

lemma keeps_removals_fail [keeps_rules]:
  "keeps removals_ok (fail_mount e)" "keeps removals_ok (fail_unmount e)" "keeps removals_ok (tick f)"
  by (simp_all add: keeps_def fail_mount_def fail_unmount_def removals_ok_def)

lemma keeps_removals_client [keeps_rules]:
  "keeps removals_ok (in_process (MountClient v c opts t))"
  "keeps removals_ok (in_process (UnmountClient v ct c t))"
proof -
  have m: "removed_dirs (w_trace (p_world p')) = removed_dirs (w_trace (p_world p))"
    if "run_state (MountClient v c opts t) p = (r, p')" for p r p'
    using that
    by (auto simp: MountClient_def counted_mount_def run_os_call Let_def
        split: client_type.splits prod.splits option.splits
        dest: rm_isD [OF keeps_rm_irods(1)] rm_isD [OF keeps_rm_others(1)] rm_isD [OF keeps_rm_others(3)])
  have u: "removed_dirs (w_trace (p_world p')) = removed_dirs (w_trace (p_world p))"
    if "run_state (UnmountClient v ct c t) p = (r, p')" for p r p'
    using that
    by (auto simp: UnmountClient_def counted_unmount_def
        split: client_type.splits prod.splits option.splits
        dest: rm_isD [OF keeps_rm_irods(2)] rm_isD [OF keeps_rm_others(2)] rm_isD [OF keeps_rm_others(4)])
  show "keeps removals_ok (in_process (MountClient v c opts t))"
  proof (rule keepsI)
    fix d assume ok: "removals_ok d"
    obtain r p' where run: "run_state (MountClient v c opts t) (d_process d) = (r, p')" by force
    show "removals_ok (snd (run_state (in_process (MountClient v c opts t)) d))"
      by (rule removals_ok_step [OF ok]) (use run m [OF run] MountClient_spec(2) [OF run] in auto)
  qed
  show "keeps removals_ok (in_process (UnmountClient v ct c t))"
  proof (rule keepsI)
    fix d assume ok: "removals_ok d"
    obtain r p' where run: "run_state (UnmountClient v ct c t) (d_process d) = (r, p')" by force
    show "removals_ok (snd (run_state (in_process (UnmountClient v ct c t)) d))"
      by (rule removals_ok_step [OF ok]) (use run u [OF run] UnmountClient_spec(2) [OF run] in auto)
  qed
qed

text \<open>The stores of the node and the removal of a record: no new record of the controller.\<close>

lemma keeps_removals_stores [keeps_rules]:
  "keeps removals_ok (put_node nv)" "keeps removals_ok (pop_node k)" "keeps removals_ok (pop_controller k)"
proof -
  show "keeps removals_ok (put_node nv)"
  proof (rule keepsI)
    fix d assume ok: "removals_ok d"
    obtain e m w where r: "run_state (NodeVolumeManager_Put nv (d_nodes d)) (d_world d) = ((e, m), w)"
      by (metis surj_pair)
    show "removals_ok (snd (run_state (put_node nv) d))"
      by (rule removals_ok_step [OF ok])
        (use r extendsD [OF nodes.put_extends r] rm_isD [OF keeps_rm_stores(1) r] in \<open>auto simp: put_node_def\<close>)
  qed
  show "keeps removals_ok (pop_node k)"
  proof (rule keepsI)
    fix d assume ok: "removals_ok d"
    obtain e m w where r: "run_state (NodeVolumeManager_Pop k (d_nodes d)) (d_world d) = ((e, m), w)"
      by (metis surj_pair)
    show "removals_ok (snd (run_state (pop_node k) d))"
      by (rule removals_ok_step [OF ok])
        (use r extendsD [OF nodes.pop_extends r] rm_isD [OF keeps_rm_stores(2) r] in \<open>auto simp: pop_node_def\<close>)
  qed
  show "keeps removals_ok (pop_controller k)"
  proof (rule keepsI)
    fix d assume ok: "removals_ok d"
    obtain e m w where r: "run_state (ControllerVolumeManager_Pop k (d_controllers d)) (d_world d) = ((e, m), w)"
      by (metis surj_pair)
    show "removals_ok (snd (run_state (pop_controller k) d))"
      by (rule removals_ok_step [OF ok])
        (use r extendsD [OF controllers.pop_extends r] rm_isD [OF keeps_rm_stores(4) r] controllers.pop_get [OF r]
         in \<open>auto simp: pop_controller_def split: if_splits\<close>)
  qed
qed

lemma keeps_removals_node:
  "keeps removals_ok (NodeStageVolume req)" "keeps removals_ok (NodePublishVolume preq)"
  "keeps removals_ok (NodeUnpublishVolume v t)" "keeps removals_ok (NodeUnstageVolume v t)"
  unfolding NodeStageVolume_def stage_dynamic_def prepare_target_def put_or_fail_def merge_configs_def
    NodePublishVolume_def publish_dynamic_def publish_static_def NodeUnpublishVolume_def unpublish_target_def
    NodeUnstageVolume_def unstage_target_def plain_unmount_def client_unmount_def Let_def
  by (intro keeps_rules; simp)+


lemma irods_Mkdir_made:
  "run_state (irods_Mkdir ci p) w = (None, w') \<Longrightarrow> p \<in> made_dirs (w_trace w')"
  by (auto simp: irods_Mkdir_def with_irods_fs_def run_os_call Let_def made_dirs_def split: option.splits)

lemma irods_Rmdir_removed:
  "run_state (irods_Rmdir ci p) w = (r, w') \<Longrightarrow> removed_dirs (w_trace w') \<subseteq> insert p (removed_dirs (w_trace w))"
  by (auto simp: irods_Rmdir_def with_irods_fs_def run_os_call Let_def split: option.splits)

lemma keeps_removals_DeleteVolume: "keeps removals_ok (DeleteVolume volID)"
proof (rule keepsI)
  fix d assume ok: "removals_ok d"
  obtain q e d1 where p: "run_state (pop_controller volID) d = ((q, e), d1)" by (metis surj_pair)
  have ok1: "removals_ok d1" using keepsD [OF keeps_removals_stores(3) ok, of volID] p by simp
  have x1: "extends (d_world d) (d_world d1)" and q: "q = manager_Get (d_controllers d) volID"
    using p by (auto simp: pop_controller_def split: prod.splits dest: extendsD [OF controllers.pop_extends]
        controllers.pop_result)
  have rm: "removals_ok d2"
    if "e = None" "q = Some vol" "\<not> cv_RetainData vol"
      and r: "run_state (os (irods_Rmdir (cv_ConnectionInfo vol) (cv_Path vol))) d1 = (r, d2)" for vol r d2
  proof -
    obtain w where w: "run_state (irods_Rmdir (cv_ConnectionInfo vol) (cv_Path vol)) (d_world d1) = (r, w)"
        "d2 = d1\<lparr>d_process := (d_process d1)\<lparr>p_world := w\<rparr>\<rparr>"
      using r by (auto split: prod.splits)
    have x: "extends (d_world d1) w" by (rule extendsD [OF keeps_extends_irods_parts(3) w(1)])
    have "cv_Path vol \<in> made_dirs (d_trace d)" using ok that(2,3) q by (auto simp: removals_ok_def)
    then have "cv_Path vol \<in> made_dirs (w_trace w)" using made_dirs_mono [OF x1] made_dirs_mono [OF x] by auto
    then show ?thesis
      using ok1 irods_Rmdir_removed [OF w(1)] made_dirs_mono [OF x] w(2) by (auto simp: removals_ok_def)
  qed
  show "removals_ok (snd (run_state (DeleteVolume volID) d))"
    using ok ok1 p rm by (auto simp: DeleteVolume_def simp del: run_os split: option.splits prod.splits)
qed

text \<open>The directory of a volume to be recorded was made, unless the record retains the data.\<close>

lemma keeps_removals_record_volume:
  assumes "removals_ok d" and "RetainData cc \<or> VolumePath cc \<in> made_dirs (d_trace d)"
  shows "removals_ok (snd (run_state (record_volume volID n cc ci req) d))"
proof -
  obtain es d1 where g: "run_state (os (go_range (cr_Parameters req))) d = (es, d1)" by force
  have ok1: "removals_ok d1"
    using keepsD [OF keeps_removals_os [OF keeps_extends_prims(11) keeps_rm_prims(9)] assms(1), of "cr_Parameters req"] g by simp
  have "extends (d_world d) (d_world d1)" using g by (auto simp: run_go_range Let_def)
  then have made1: "RetainData cc \<or> VolumePath cc \<in> made_dirs (d_trace d1)"
    using assms(2) made_dirs_mono by blast
  let ?v = "\<lparr>cv_ID = volID, cv_Name = cr_Name req, cv_RootPath = VolumeRootPath cc, cv_Path = VolumePath cc,
    cv_ConnectionInfo = ci, cv_RetainData = RetainData cc\<rparr>"
  obtain e m w where r: "run_state (ControllerVolumeManager_Put ?v (d_controllers d1)) (d_world d1) = ((e, m), w)"
    by (metis surj_pair)
  have x: "extends (d_world d1) w" by (rule extendsD [OF controllers.put_extends r])
  have "removals_ok (snd (run_state (put_controller ?v) d1))"
    by (rule removals_ok_step [OF ok1])
      (use r x rm_isD [OF keeps_rm_stores(3) r] controllers.put_get [OF r] made1 made_dirs_mono [OF x]
       in \<open>auto simp: put_controller_def split: if_splits\<close>)
  then show ?thesis
    using g keepsD [OF keeps_removals_fail(1)]
    by (auto simp: record_volume_def Let_def simp del: run_os split: prod.splits option.splits)
qed

lemma keeps_removals_create_and_record:
  assumes cc: "makeControllerConfig nm es = Inr cc"
  shows "keeps removals_ok (create_and_record volID n cc configs req)"
  unfolding create_and_record_def
proof (rule keeps_bind, intro keeps_rules, rule keeps_sum, intro keeps_rules, rule keepsI)
  fix r ci d assume ok: "removals_ok d"
  let ?mk = "if \<not> NotCreateVolumeDir cc then os (irods_Mkdir ci (VolumePath cc)) else ret None"
  obtain mk d1 where m: "run_state ?mk d = (mk, d1)" by force
  have "keeps removals_ok ?mk" by (intro keeps_rules)
  then have ok1: "removals_ok d1" using ok m keepsD by (metis snd_conv)
  have "mk = None \<Longrightarrow> RetainData cc \<or> VolumePath cc \<in> made_dirs (d_trace d1)"
    using m makeControllerConfig_spec(2) [OF cc]
    by (auto split: if_splits prod.splits dest: irods_Mkdir_made)
  then have "removals_ok (snd (run_state (record_volume volID n cc ci req) d1))" if "mk = None"
    using keeps_removals_record_volume [OF ok1] that by blast
  then show "removals_ok (snd (run_state (do {
      mk \<leftarrow> ?mk;
      case mk of
        None \<Rightarrow>
          if IsAnonymousUser ci
          then fail_mount (StatusErr InvalidArgument ''Argument user must be a non-anonymous user'' [])
          else record_volume volID n cc ci req
      | Some err \<Rightarrow> fail_mount (StatusErr Internal ''Could not create a volume dir %q : %v''
          [AStr (VolumePath cc), AErr err]) }) d))"
    using m ok1 keepsD [OF keeps_removals_fail(1) ok1]
    by (auto simp del: run_os split: option.splits)
qed

lemma keeps_removals_CreateVolume: "keeps removals_ok (CreateVolume req)"
  unfolding CreateVolume_def merge_configs_def generateVolumeID_def Let_def
  by (intro keeps_rules keeps_removals_create_and_record; simp)

lemma keeps_removals_serve: "keeps removals_ok (serve req)"
  by (auto simp: serve_def split: request.splits
      intro!: keeps_bind keeps_return keeps_removals_CreateVolume keeps_removals_DeleteVolume keeps_removals_node)

lemma keeps_removals_run_all: "keeps removals_ok (run_all serve reqs)"
  by (induction reqs) (auto intro: keeps_bind keeps_return keeps_removals_serve)


section \<open>What the node is told\<close>

lemma map_of_copy_entries: "go_map_ok es \<Longrightarrow> map_of (copy_entries es m) = map_of m ++ map_of es"
proof (induction es m rule: copy_entries.induct)
  case (2 k v es m)
  have "map_of es k = None" using 2(2) by (auto simp: go_map_ok_def map_of_eq_None_iff)
  with 2 show ?case
    by (auto simp: go_map_ok_def update_conv' fun_eq_iff map_add_def split: option.splits)
qed simp

lemma go_map_ok_copy_entries: "go_map_ok m \<Longrightarrow> go_map_ok (copy_entries es m)"
  by (induction es m rule: copy_entries.induct) auto

lemma context_labels:
  "NormalizeConfigKey ''path'' = ''path''" "NormalizeConfigKey ''provisioning_mode'' = ''provisioningmode''"
  by (simp_all add: NormalizeConfigKey_def ToLower_def lower_char_def DeleteChar_def)

definition created_context :: "create_volume_request \<Rightarrow> string \<Rightarrow> gomap \<Rightarrow> bool" where
  "created_context req path ctx \<longleftrightarrow> go_map_ok ctx \<and> isDynamicVolumeProvisioningMode ctx \<and>
     map_of ctx = (map_of (cr_Parameters req))(''path'' \<mapsto> path, ''provisioningmode'' \<mapsto> ''dynamic'')"

lemma created_context_made:
  assumes "mset es = mset (cr_Parameters req)" and "go_map_ok (cr_Parameters req)"
  shows "created_context req path (setDynamicVolumeProvisioningMode
    (AList.update (NormalizeConfigKey ''path'') path (copy_entries es [])))"
proof -
  let ?ctx = "setDynamicVolumeProvisioningMode (AList.update (NormalizeConfigKey ''path'') path (copy_entries es []))"
  have es: "go_map_ok es"
    using assms by (metis go_map_ok_def mset_eq_imp_distinct_iff mset_map)
  have m: "map_of ?ctx = (map_of (cr_Parameters req))(''path'' \<mapsto> path, ''provisioningmode'' \<mapsto> ''dynamic'')"
    using map_of_copy_entries [OF es, of "[]"] map_of_perm [OF assms]
    by (simp add: setDynamicVolumeProvisioningMode_def context_labels update_conv')
  have ok: "go_map_ok ?ctx"
    by (simp add: setDynamicVolumeProvisioningMode_def go_map_ok_copy_entries)
  have "ToLower ''dynamic'' = ''dynamic''" by (simp add: ToLower_def lower_char_def)
  with ok m show ?thesis by (simp add: created_context_def isDynamic_iff)
qed

definition stored_volume :: "create_volume_request \<Rightarrow> csi_volume \<Rightarrow> driver \<Rightarrow> controller_volume \<Rightarrow> bool" where
  "stored_volume req vol d v \<longleftrightarrow>
     manager_Get (d_controllers d) (csi_VolumeId vol) = Some v \<and> cv_ID v = csi_VolumeId vol \<and>
     cv_Name v = cr_Name req \<and> created_context req (cv_Path v) (csi_VolumeContext vol)"

lemma put_controller_stores:
  assumes "run_state (put_controller v) d = (e, d')"
  shows "manager_Get (d_controllers d') (cv_ID v) = Some v"
proof -
  obtain e m w where r: "run_state (ControllerVolumeManager_Put v (d_controllers d)) (d_world d) = ((e, m), w)"
    by (metis surj_pair)
  from controllers.put_get [OF r] r assms show ?thesis by (auto simp: put_controller_def)
qed

lemma record_volume_ok:
  assumes "go_map_ok (cr_Parameters req)"
  shows "post (record_volume volID n cc ci req) d (\<lambda>vol d'. csi_VolumeId vol = volID \<and> csi_CapacityBytes vol = n \<and>
     (\<exists>v. stored_volume req vol d' v \<and> cv_Path v = VolumePath cc \<and> cv_RetainData v = RetainData cc \<and>
        cv_RootPath v = VolumeRootPath cc))"
proof (rule postI)
  fix vol d' assume run: "run_state (record_volume volID n cc ci req) d = (Inr vol, d')"
  let ?v = "\<lparr>cv_ID = volID, cv_Name = cr_Name req, cv_RootPath = VolumeRootPath cc, cv_Path = VolumePath cc,
    cv_ConnectionInfo = ci, cv_RetainData = RetainData cc\<rparr>"
  obtain es d1 where g: "run_state (os (go_range (cr_Parameters req))) d = (es, d1)" by force
  obtain e d2 where p: "run_state (put_controller ?v) d1 = (e, d2)" by force
  have v: "d' = d2" "csi_VolumeId vol = volID" "csi_CapacityBytes vol = n"
      "csi_VolumeContext vol = setDynamicVolumeProvisioningMode
         (AList.update (NormalizeConfigKey ''path'') (VolumePath cc) (copy_entries es []))"
    using run g p by (auto simp: record_volume_def Let_def fail_mount_def simp del: run_os split: option.splits)
  have "stored_volume req vol d' ?v"
    using put_controller_stores [OF p] created_context_made [OF range_run(1) [OF g] assms] v
    by (simp add: stored_volume_def)
  then show "csi_VolumeId vol = volID \<and> csi_CapacityBytes vol = n \<and>
     (\<exists>v. stored_volume req vol d' v \<and> cv_Path v = VolumePath cc \<and> cv_RetainData v = RetainData cc \<and>
        cv_RootPath v = VolumeRootPath cc)"
    using v by (intro conjI exI [of _ ?v]) simp_all
qed

lemma create_and_record_ok:
  assumes "go_map_ok (cr_Parameters req)"
  shows "post (create_and_record volID n cc configs req) d (\<lambda>vol d'. csi_VolumeId vol = volID \<and>
     csi_CapacityBytes vol = n \<and> (\<exists>v. stored_volume req vol d' v \<and> cv_Path v = VolumePath cc \<and>
       cv_RetainData v = RetainData cc \<and> cv_RootPath v = VolumeRootPath cc))"
  unfolding create_and_record_def by (intro post_rules record_volume_ok [OF assms])

lemma CreateVolume_ok:
  assumes "go_map_ok (cr_Parameters req)"
  shows "post (CreateVolume req) d (\<lambda>vol d'.
     (\<exists>x. csi_VolumeId vol = ''volid-'' @ cr_Name req @ ''-'' @ x) \<and>
     csi_CapacityBytes vol = (case cr_CapacityRange req of None \<Rightarrow> defaultVolumeSize | Some n \<Rightarrow> n) \<and>
     (\<exists>v. stored_volume req vol d' v))"
proof -
  have gen: "\<exists>x. volID = ''volid-'' @ cr_Name req @ ''-'' @ x"
    if "run_state (os (generateVolumeID (cr_Name req))) d = (volID, d1)" for volID d d1
    using that by (auto simp: generateVolumeID_def run_new_xid Let_def)
  have main: "(\<exists>x. csi_VolumeId vol = ''volid-'' @ cr_Name req @ ''-'' @ x) \<and>
     csi_CapacityBytes vol = n \<and> (\<exists>v. stored_volume req vol d' v)"
    if "run_state (os (generateVolumeID (cr_Name req))) d = (volID, d1)"
      and "run_state (create_and_record volID n cc configs req) d2 = (Inr vol, d')" for volID d d1 d2 n cc configs vol d'
    using gen [OF that(1)] postD [OF create_and_record_ok [OF assms] that(2)] by blast
  show ?thesis
    unfolding CreateVolume_def Let_def
    by (intro post_rules postI) (erule (1) main)
qed

end
