(* ===== verification/Startup.thy ===== *)
theory Startup
  imports Provisioning
begin

text \<open>
  The driver from its start: what \<open>NewDriver\<close> makes of the secrets and of the volume files, and the
  invariants of theories Service and Provisioning established for a first start.
\<close>

section \<open>Secrets\<close>

lemma keeps_read_secret_files [keeps_rules]: "keeps (extends w0) (read_secret_files dir fs s)"
  by (induction dir fs s rule: read_secret_files.induct) (auto simp: Let_def intro!: keeps_rules)

lemma keeps_readSecrets [keeps_rules]: "keeps (extends w0) (readSecrets dir)"
  unfolding readSecrets_def by (intro keeps_rules)

lemma read_secret_files_ok: "go_map_ok s \<Longrightarrow> run_state (read_secret_files dir fs s) w = (s', w') \<Longrightarrow> go_map_ok s'"
  by (induction dir fs s arbitrary: w rule: read_secret_files.induct)
    (auto simp: Let_def split: if_splits sum.splits prod.splits)

text \<open>The key of the volume files is the one among the secrets, in any spelling, or the built-in one.\<close>

lemma find_encrypt_key_default:
  "\<forall>(k, v) \<in> set es. NormalizeConfigKey k \<noteq> NormalizeConfigKey ''volume_encrypt_key'' \<Longrightarrow> find_encrypt_key key es = key"
  by (induction es) auto

lemma find_encrypt_key_unique:
  assumes "(k, v) \<in> set es" and "NormalizeConfigKey k = NormalizeConfigKey ''volume_encrypt_key''"
    and "\<forall>(k', v') \<in> set es. NormalizeConfigKey k' = NormalizeConfigKey ''volume_encrypt_key'' \<longrightarrow> v' = v"
  shows "find_encrypt_key key es = v"
  using assms by (induction es) auto


section \<open>A first start\<close>

text \<open>A world in which no volume was ever saved: the files of the two managers do not exist.\<close>

definition save_path :: "string \<Rightarrow> string \<Rightarrow> string" where
  "save_path dir fileName = JoinPath [if dir = [] then ''/'' else dir, fileName]"

definition no_volume_files :: "env \<Rightarrow> string \<Rightarrow> bool" where
  "no_volume_files e dir \<longleftrightarrow> (\<forall>tr f. f \<in> {''controller_volumes.json'', ''node_volumes.json''} \<longrightarrow>
     (case e_stat e tr (save_path dir f) of Inl err \<Rightarrow> IsNotExist err | Inr _ \<Rightarrow> False))"

lemma new_manager_empty:
  assumes "case e_stat (w_env w) (w_trace w) (save_path dir f) of Inl err \<Rightarrow> IsNotExist err | Inr _ \<Rightarrow> False"
  shows "fst (run_state (new_manager cd f key dir) w) =
    Some \<lparr>mg_encryptKey = key, mg_savefilePath = save_path dir f, mg_volumes = []\<rparr>"
  using assms
  by (cases "e_stat (w_env w) (w_trace w) (save_path dir f)")
    (auto simp: new_manager_def manager_load_def run_os_stat Let_def save_path_def)

lemma keeps_new_managers [keeps_rules]:
  "keeps (extends w0) (NewControllerVolumeManager key dir)" "keeps (extends w0) (NewNodeVolumeManager key dir)"
  unfolding NewControllerVolumeManager_def NewNodeVolumeManager_def by (intro keeps_rules)+

lemma new_managers_empty:
  assumes "no_volume_files (w_env w) dir"
  shows "fst (run_state (NewControllerVolumeManager key dir) w) =
      Some \<lparr>mg_encryptKey = key, mg_savefilePath = save_path dir ''controller_volumes.json'', mg_volumes = []\<rparr>"
    and "fst (run_state (NewNodeVolumeManager key dir) w) =
      Some \<lparr>mg_encryptKey = key, mg_savefilePath = save_path dir ''node_volumes.json'', mg_volumes = []\<rparr>"
proof -
  have f: "case e_stat (w_env w) (w_trace w) (save_path dir f) of Inl err \<Rightarrow> IsNotExist err | Inr _ \<Rightarrow> False"
    if "f = ''controller_volumes.json'' \<or> f = ''node_volumes.json''" for f
    using assms that by (auto simp: no_volume_files_def)
  show "fst (run_state (NewControllerVolumeManager key dir) w) =
      Some \<lparr>mg_encryptKey = key, mg_savefilePath = save_path dir ''controller_volumes.json'', mg_volumes = []\<rparr>"
    by (simp add: NewControllerVolumeManager_def run_the_env new_manager_empty [OF f])
  show "fst (run_state (NewNodeVolumeManager key dir) w) =
      Some \<lparr>mg_encryptKey = key, mg_savefilePath = save_path dir ''node_volumes.json'', mg_volumes = []\<rparr>"
    by (simp add: NewNodeVolumeManager_def run_the_env new_manager_empty [OF f])
qed

lemma keeps_start_secrets [keeps_rules]: "keeps (extends w0) (start_secrets conf)"
  unfolding start_secrets_def by (intro keeps_rules)

lemma keeps_rm_start [keeps_rules]:
  "keeps (rm_is R) (start_secrets conf)" "keeps (rm_is R) (NewControllerVolumeManager key dir)"
  "keeps (rm_is R) (NewNodeVolumeManager key dir)"
proof -
  have "keeps (rm_is R) (read_secret_files dir fs s)" for dir fs s
    by (induction dir fs s rule: read_secret_files.induct) (auto simp: Let_def intro!: keeps_rules)
  then show "keeps (rm_is R) (start_secrets conf)"
    unfolding start_secrets_def readSecrets_def by (intro keeps_rules)
  show "keeps (rm_is R) (NewControllerVolumeManager key dir)" "keeps (rm_is R) (NewNodeVolumeManager key dir)"
    unfolding NewControllerVolumeManager_def NewNodeVolumeManager_def new_manager_def manager_load_def Let_def
    by (intro keeps_rules)+
qed

text \<open>The steps of a start.\<close>

lemma NewDriver_parts:
  assumes "NewDriver conf p = (Some d, p')"
  obtains key w1 w2 where "d_config d = conf" and "d_metrics d = p_metrics p" and "d_process d = p'"
    and "run_state (start_secrets conf) (p_world p) = ((d_secrets d, key), w1)"
    and "run_state (NewControllerVolumeManager key (StoragePath conf)) w1 = (Some (d_controllers d), w2)"
    and "run_state (NewNodeVolumeManager key (StoragePath conf)) w2 = (Some (d_nodes d), d_world d)"
proof -
  obtain secrets key w1 where pre: "run_state (start_secrets conf) (p_world p) = ((secrets, key), w1)"
    by (metis surj_pair)
  obtain cm w2 where c: "run_state (NewControllerVolumeManager key (StoragePath conf)) w1 = (cm, w2)" by force
  obtain nm w3 where n: "run_state (NewNodeVolumeManager key (StoragePath conf)) w2 = (nm, w3)" by force
  show thesis
    using assms pre c n
    by (intro that [of key w1 w2])
      (auto simp: NewDriver_def start_parts_def Let_def split: prod.splits option.splits)
qed

text \<open>A first start gives a driver that satisfies the invariants.\<close>

lemma first_start:
  assumes "NewDriver conf p = (Some d, p')" and "no_volume_files (w_env (p_world p)) (StoragePath conf)"
    and "balanced (p_metrics p)" and "removed_dirs (w_trace (p_world p)) = {}"
  shows "driver_inv (e_lib (w_env (p_world p))) d" and "removals_ok d"
    and "extends (p_world p) (d_world d)" and "mg_volumes (d_controllers d) = []" and "mg_volumes (d_nodes d) = []"
proof -
  from assms(1) obtain key w1 w2 where m: "d_metrics d = p_metrics p"
    and s: "run_state (start_secrets conf) (p_world p) = ((d_secrets d, key), w1)"
    and c: "run_state (NewControllerVolumeManager key (StoragePath conf)) w1 = (Some (d_controllers d), w2)"
    and n: "run_state (NewNodeVolumeManager key (StoragePath conf)) w2 = (Some (d_nodes d), d_world d)"
    by (rule NewDriver_parts)
  have x: "extends (p_world p) w1" by (rule extendsD [OF keeps_start_secrets s])
  have x2: "extends w1 w2" by (rule extendsD [OF keeps_new_managers(1) c])
  have x3: "extends w2 (d_world d)" by (rule extendsD [OF keeps_new_managers(2) n])
  have e: "w_env w1 = w_env (p_world p)" "w_env w2 = w_env (p_world p)" "w_env (d_world d) = w_env (p_world p)"
    using x x2 x3 by (simp_all add: extends_env)
  show cm: "mg_volumes (d_controllers d) = []" and nm: "mg_volumes (d_nodes d) = []"
    using new_managers_empty(1) [of w1 "StoragePath conf" key] new_managers_empty(2) [of w2 "StoragePath conf" key]
      c n e assms(2) by simp_all
  show "driver_inv (e_lib (w_env (p_world p))) d"
    using m e assms(3) cm nm
    by (simp add: driver_inv_def controllers_ok_def nodes_ok_def store_wf_def manager_Get_def)
  show "extends (p_world p) (d_world d)" using x x2 x3 by (metis extends_trans)
  have "removed_dirs (d_trace d) = {}"
    using rm_isD [OF keeps_rm_start(1) s] rm_isD [OF keeps_rm_start(2) c] rm_isD [OF keeps_rm_start(3) n] assms(4)
    by simp
  then show "removals_ok d" using cm by (simp add: removals_ok_def manager_Get_def)
qed

text \<open>
  A process that starts for the first time: it has done nothing, its counters are zero and no
  volume was saved in its storage directory. Whatever it serves then, the invariants hold.
\<close>

definition fresh_process :: "config \<Rightarrow> process \<Rightarrow> bool" where
  "fresh_process conf p \<longleftrightarrow> no_volume_files (w_env (p_world p)) (StoragePath conf) \<and>
     p_metrics p = metrics_init \<and> w_trace (p_world p) = []"

lemma fresh_start:
  assumes "fresh_process conf p" and "NewDriver conf p = (Some d, p')"
  shows "driver_inv (e_lib (w_env (p_world p))) d" and "removals_ok d"
  using first_start(1,2) [OF assms(2)] assms(1) by (simp_all add: fresh_process_def balanced_init)

lemma fresh_service:
  assumes "fresh_process conf p" and "NewDriver conf p = (Some d, p')"
    and "run_state (run_all serve reqs) d = (rs, d')"
  shows "driver_inv (e_lib (w_env (p_world p))) d'" and "d_extends d d'" and "removals_ok d'"
    and "length rs = length reqs"
proof -
  note i = fresh_start [OF assms(1,2)]
  show "driver_inv (e_lib (w_env (p_world p))) d'" and "d_extends d d'" and "length rs = length reqs"
    using service.run_all_spec [OF assms(3) i(1)] by blast+
  show "removals_ok d'" using keepsD [OF keeps_removals_run_all i(2)] assms(3) by (metis snd_conv)
qed

end
