(* ===== verification/Controller_Config.thy ===== *)
theory Controller_Config
  imports Driver
begin

text \<open>
  The controller configuration (config.go) as a function of the map of parameters: which entries
  are accepted and what they set, whatever the order in which the loop visits them.
\<close>

section \<open>The entries and the map they form\<close>

definition config_entry_ok :: "string \<Rightarrow> string \<Rightarrow> bool" where
  "config_entry_ok key v \<longleftrightarrow>
     (key = ''volumerootpath'' \<longrightarrow> IsAbs v) \<and> (key = ''retaindata'' \<or> key = ''novolumedir'' \<longrightarrow> ParseBool v \<noteq> None)"

definition root_path_value :: "string \<Rightarrow> string" where
  "root_path_value v = (if v = ''/'' then v else TrimRightChar v CHR ''/'')"

text \<open>What the entries set, as a function of the map they form.\<close>

definition config_of :: "(string \<rightharpoonup> string) \<Rightarrow> controller_config \<Rightarrow> controller_config" where
  "config_of m cfg = cfg\<lparr>
     VolumeRootPath := (case m ''volumerootpath'' of None \<Rightarrow> VolumeRootPath cfg | Some v \<Rightarrow> root_path_value v),
     RetainData := (case m ''retaindata'' of None \<Rightarrow> RetainData cfg | Some v \<Rightarrow> the (ParseBool v)),
     NotCreateVolumeDir := (case m ''novolumedir'' of None \<Rightarrow> NotCreateVolumeDir cfg | Some v \<Rightarrow> the (ParseBool v))\<rparr>"

lemma controller_labels:
  "NormalizeConfigKey ''volume_root_path'' = ''volumerootpath''"
  "NormalizeConfigKey ''retain_data'' = ''retaindata''" "NormalizeConfigKey ''no_volume_dir'' = ''novolumedir''"
  by (simp_all add: NormalizeConfigKey_def ToLower_def lower_char_def DeleteChar_def)

definition normal_entries :: "gomap \<Rightarrow> gomap" where
  "normal_entries es = map (\<lambda>(k, v). (NormalizeConfigKey k, v)) es"

lemma controller_entry_cases:
  "controller_entry k v cfg = Inr cfg' \<longleftrightarrow>
     config_entry_ok (NormalizeConfigKey k) v \<and> cfg' = config_of [NormalizeConfigKey k \<mapsto> v] cfg"
  by (auto simp: controller_entry_def Let_def controller_labels config_entry_ok_def config_of_def
      root_path_value_def split: option.splits)

lemma normal_entries_simps [simp]:
  "normal_entries [] = []" "normal_entries ((k, v) # es) = (NormalizeConfigKey k, v) # normal_entries es"
  by (simp_all add: normal_entries_def)

text \<open>Read in any order, the entries are accepted together or not, and set the same.\<close>

lemma getControllerConfigFromMap_spec:
  "distinct (map fst (normal_entries es)) \<Longrightarrow> getControllerConfigFromMap es cfg = Inr cfg' \<longleftrightarrow>
     (\<forall>(k, v) \<in> set (normal_entries es). config_entry_ok k v) \<and> cfg' = config_of (map_of (normal_entries es)) cfg"
proof (induction es cfg rule: getControllerConfigFromMap.induct)
  case (1 cfg)
  show ?case by (auto simp: config_of_def)
next
  case (2 k v es cfg)
  let ?k = "NormalizeConfigKey k"
  have none: "map_of (normal_entries es) ?k = None" using 2(2) by (simp add: map_of_eq_None_iff)
  have two: "config_of (map_of (normal_entries es)) (config_of [?k \<mapsto> v] cfg) =
      config_of (map_of (normal_entries ((k, v) # es))) cfg"
    using none by (auto simp: config_of_def split: option.splits)
  show ?case
  proof (cases "controller_entry k v cfg")
    case (Inl e)
    then have "\<not> config_entry_ok ?k v" using controller_entry_cases by (metis Inl_Inr_False)
    with Inl show ?thesis by simp
  next
    case (Inr c)
    then have "config_entry_ok ?k v" "c = config_of [?k \<mapsto> v] cfg" by (simp_all add: controller_entry_cases)
    with Inr 2 two show ?thesis by (simp add: fun_upd_def)
  qed
qed

lemma normal_entries_perm: "mset es = mset es' \<Longrightarrow> mset (normal_entries es) = mset (normal_entries es')"
  by (metis mset_map normal_entries_def)

lemma makeControllerConfig_perm:
  assumes "mset es = mset es'" and "distinct (map fst (normal_entries es))"
  shows "makeControllerConfig volName es = Inr cc \<longleftrightarrow> makeControllerConfig volName es' = Inr cc"
proof -
  have m: "mset (normal_entries es') = mset (normal_entries es)" by (rule normal_entries_perm [OF assms(1) [symmetric]])
  then have s: "set (normal_entries es') = set (normal_entries es)" by (rule mset_eq_setD)
  have "map_of (normal_entries es') = map_of (normal_entries es)"
    by (rule map_of_perm [OF m]) (simp add: go_map_ok_def assms(2))
  moreover have "distinct (map fst (normal_entries es'))"
    using m assms(2) by (metis mset_eq_imp_distinct_iff mset_map)
  ultimately have "getControllerConfigFromMap es cfg = Inr c \<longleftrightarrow> getControllerConfigFromMap es' cfg = Inr c" for cfg c
    using assms(2) s by (simp add: getControllerConfigFromMap_spec)
  moreover have "makeControllerConfig volName xs = Inr cc \<longleftrightarrow>
     (\<exists>c. getControllerConfigFromMap xs \<lparr>VolumeRootPath = [], VolumePath = [], RetainData = False,
        NotCreateVolumeDir = False\<rparr> = Inr c \<and> VolumeRootPath c \<noteq> [] \<and>
      (if NotCreateVolumeDir c then c\<lparr>VolumePath := VolumeRootPath c, RetainData := True\<rparr>
       else c\<lparr>VolumePath := VolumeRootPath c @ ''/'' @ volName\<rparr>) = cc)" for xs
    by (simp add: makeControllerConfig_def split: sum.splits) auto
  ultimately show ?thesis by simp
qed

end
