(* ===== verification/Example_World.thy ===== *)
theory Example_World
  imports Startup Controller_Config
begin

text \<open>
  A concrete world, in which everything the driver asks for succeeds: commands run, directories
  can be made, no volume was saved before, and the mount table answers from the trace. The
  properties that speak of runs are applied here, so their hypotheses are seen to hold of a run
  that gets somewhere.
\<close>

definition example_config :: irodsfs_config where
  "example_config = \<lparr>AuthenticationScheme = ''native'', ClientServerNegotiation = [], ClientServerPolicy = [],
     Host = [], Port = 1247, ZoneName = [], ClientZoneName = [], Username = [], ClientUsername = [],
     DefaultResource = [], EncryptionAlgorithm = [], EncryptionKeySize = 32, EncryptionSaltSize = 8,
     EncryptionNumHashRounds = 16, SSLCACertificateFile = [], SSLCACertificatePath = [], SSLVerifyServer = [],
     Password = [], SSLServerName = [], PathMappings = [], ReadAheadMax = 0, NoPermissionCheck = False,
     NoSetXattr = False, UID = 1000, GID = 1000, SystemUser = [], MetadataConnection = None,
     IOConnection = None, Cache = None, PoolEndpoint = [], Profile = False, ProfileServicePort = 11021,
     Debug = False, Readonly = False, DataRootPath = [], InstanceID = [], config_rest = []\<rparr>"

definition example_lib :: irods_lib where
  "example_lib = \<lparr>lib_default_config = example_config, lib_fix_auth = (\<lambda>c. c),
     lib_fix_system_user = (\<lambda>c. (c, None)), lib_validate_mappings = (\<lambda>_. None),
     lib_json_mappings = (\<lambda>_. Inl (ExtErr ''json'')), lib_json_section = (\<lambda>_ _. None),
     lib_parse_uri = (\<lambda>s. Inr \<lparr>url_Scheme = ''tcp'', url_Host = s, url_Path = []\<rparr>)\<rparr>"

text \<open>Connections are written as nothing, and read as the default one.\<close>

definition example_conn_codec :: conn_codec where
  "example_conn_codec = \<lparr>cc_to_json = (\<lambda>_. JNull), cc_of_json = (\<lambda>_. (NewIRODSFSConnectionInfo example_lib, None)),
     cc_zero = NewIRODSFSConnectionInfo example_lib\<rparr>"

definition example_stat :: "string \<Rightarrow> go_error + int" where
  "example_stat p =
     (if p = ''/storage/controller_volumes.json'' \<or> p = ''/storage/node_volumes.json''
      then Inl (SysErr PathError ENOENT) else Inr 1)"

definition example_device :: "trace \<Rightarrow> string \<Rightarrow> go_error + string \<times> nat" where
  "example_device tr p = Inr (''dev'', if last_op p tr = Some Did_mount then 1 else 0)"

definition example_env :: env where
  "example_env = \<lparr>e_lib = example_lib, e_call = (\<lambda>_ _. None), e_exec = (\<lambda>_ _ _ _. ([], None)),
     e_stat = (\<lambda>_ p. example_stat p), e_read_file = (\<lambda>_ _. Inl (SysErr PathError ENOENT)),
     e_read_dir = (\<lambda>_ _. Inr []), e_eval_symlinks = (\<lambda>_ p. Inr p),
     e_consistent_read = (\<lambda>_ _ _. Inr []), e_device = example_device, e_xid = (\<lambda>_. ''x1''),
     e_nonce = (\<lambda>_ n. Inr (replicate n (CHR ''n''))), e_range = (\<lambda>_ m. m),
     e_make_bind_opts = (\<lambda>opts sens. (''bind'' \<in> set opts, [''bind''], [''bind'', ''remount''], [])),
     e_path_within_base = (\<lambda>p b. HasPrefix p b), e_marshal_config = (\<lambda>_. Inr ''yaml''),
     e_seal = (\<lambda>k n t. t), e_open = (\<lambda>k n t. Inr t),
     e_conn_json = example_conn_codec\<rparr>"

definition example_world :: world where
  "example_world = \<lparr>w_env = example_env, w_trace = [], w_umask = 18\<rparr>"

definition example_process :: process where
  "example_process = \<lparr>p_world = example_world, p_metrics = metrics_init\<rparr>"

definition example_conf :: config where
  "example_conf = \<lparr>Endpoint = ''unix:///tmp/csi.sock'', NodeID = ''node1'', SecretPath = ''/secrets'',
     PoolServiceEndpoint = [], PrometheusExporterPort = 12022, StoragePath = ''/storage''\<rparr>"

definition example_driver :: driver where
  "example_driver = \<lparr>d_process = example_process, d_config = example_conf, d_secrets = [],
     d_controllers = \<lparr>mg_encryptKey = ''key'', mg_savefilePath = ''/storage/controller_volumes.json'', mg_volumes = []\<rparr>,
     d_nodes = \<lparr>mg_encryptKey = ''key'', mg_savefilePath = ''/storage/node_volumes.json'', mg_volumes = []\<rparr>\<rparr>"

definition example_capability :: volume_capability where
  "example_capability = \<lparr>vc_mount_flags = None, vc_access_mode = Some MULTI_NODE_MULTI_WRITER\<rparr>"

definition example_create :: create_volume_request where
  "example_create = \<lparr>cr_Name = ''pvc'', cr_VolumeCapabilities = [example_capability], cr_CapacityRange = None,
     cr_Secrets = [(''user'', ''alice''), (''password'', ''pw'')],
     cr_Parameters = [(''host'', ''irods''), (''zone'', ''z''), (''volumeRootPath'', ''/z/home/'')]\<rparr>"

definition example_context :: gomap where
  "example_context = [(''client'', ''nfs''), (''host'', ''h''), (''path'', ''/p''), (''provisioningmode'', ''dynamic'')]"

definition example_stage :: node_stage_request where
  "example_stage = \<lparr>st_VolumeId = ''v'', st_StagingTargetPath = ''/stage'',
     st_VolumeCapability = Some example_capability, st_Secrets = [], st_VolumeContext = example_context\<rparr>"

definition example_publish :: node_publish_request where
  "example_publish = \<lparr>pb_VolumeId = ''v'', pb_StagingTargetPath = ''/stage'', pb_TargetPath = ''/target'',
     pb_VolumeCapability = Some example_capability, pb_Readonly = False, pb_Secrets = [],
     pb_VolumeContext = example_context\<rparr>"


section \<open>Evaluating the example\<close>

text \<open>Evaluation leaves the text of a volume file as it stands, an empty one apart: no run of the example reads one.\<close>

lemma volumes_text_Nil [code]: "volumes_text enc [] = ''{}''"
  by (simp add: volumes_text_def json_volumes_def in_order_def json_text_def)

text \<open>Faster ways to compute: a cut is made once, and a letter is lowered on the bits of the byte.\<close>

lemma split_by_code [code]:
  "split_by p [] = [[]]"
  "split_by p (x # xs) =
     (case split_by p xs of [] \<Rightarrow> [] | y # ys \<Rightarrow> if p x then [] # y # ys else (x # y) # ys)"
  by (auto split: list.splits)

lemma lower_char_code [code]:
  "lower_char (Char b0 b1 b2 b3 b4 b5 b6 b7) =
     (if \<not> b7 \<and> b6 \<and> \<not> b5 \<and> (b0 \<or> b1 \<or> b2 \<or> b3 \<or> b4) \<and> \<not> (b4 \<and> b3 \<and> (b2 \<or> b1 \<and> b0))
      then Char b0 b1 b2 b3 b4 True b6 b7 else Char b0 b1 b2 b3 b4 b5 b6 b7)"
proof -
  have 1: "(65::nat) \<le> of_char (Char b0 b1 b2 b3 b4 b5 b6 b7) \<and> of_char (Char b0 b1 b2 b3 b4 b5 b6 b7) \<le> (90::nat)
    \<longleftrightarrow> \<not> b7 \<and> b6 \<and> \<not> b5 \<and> (b0 \<or> b1 \<or> b2 \<or> b3 \<or> b4) \<and> \<not> (b4 \<and> b3 \<and> (b2 \<or> b1 \<and> b0))"
    by (cases b0; cases b1; cases b2; cases b3; cases b4; cases b5; cases b6; cases b7) (simp_all add: of_char_def)
  have 2: "char_of (of_char (Char b0 b1 b2 b3 b4 b5 b6 b7) + 32 :: nat) = Char b0 b1 b2 b3 b4 True b6 b7"
    if "\<not> b5"
  proof -
    have "(of_char (Char b0 b1 b2 b3 b4 b5 b6 b7) + 32 :: nat) = of_char (Char b0 b1 b2 b3 b4 True b6 b7)"
      using that by (simp add: of_char_def)
    then show ?thesis by (metis char_of_char)
  qed
  show ?thesis
    unfolding lower_char_def Let_def 1 by (rule if_cong [OF refl _ refl], rule 2) blast
qed

text \<open>The table of connection keys, normalised once.\<close>

lemma conn_key_of_code [code]:
  "conn_key_of nk = map_of
   [(''irodsauthenticationscheme'', CK_AuthScheme), (''authenticationscheme'', CK_AuthScheme),
    (''authscheme'', CK_AuthScheme), (''irodsclientservernegotiation'', CK_Negotiation),
    (''clientservernegotiation'', CK_Negotiation), (''irodsclientserverpolicy'', CK_Policy),
    (''clientservernegotiationpolicy'', CK_Policy), (''csnegotiationpolicy'', CK_Policy),
    (''irodshost'', CK_Host), (''hostname'', CK_Host), (''host'', CK_Host), (''irodsport'', CK_Port),
    (''port'', CK_Port), (''irodszonename'', CK_Zone), (''zonename'', CK_Zone), (''zone'', CK_Zone),
    (''irodsclientzonename'', CK_ClientZone), (''clientzonename'', CK_ClientZone),
    (''clientzone'', CK_ClientZone), (''irodsusername'', CK_User), (''user'', CK_User),
    (''username'', CK_User), (''irodsclientusername'', CK_ClientUser),
    (''clientuser'', CK_ClientUser), (''clientusername'', CK_ClientUser),
    (''irodsdefaultresource'', CK_Resource), (''defaultresource'', CK_Resource),
    (''resource'', CK_Resource), (''irodsencryptionalgorithm'', CK_EncAlgorithm),
    (''encryptionalgorithm'', CK_EncAlgorithm), (''irodsencryptionkeysize'', CK_EncKeySize),
    (''encryptionkeysize'', CK_EncKeySize), (''irodsencryptionsaltsize'', CK_EncSaltSize),
    (''encryptionsaltsize'', CK_EncSaltSize), (''irodsencryptionnumhashrounds'', CK_HashRounds),
    (''encryptionnumhashrounds'', CK_HashRounds), (''hashrounds'', CK_HashRounds),
    (''irodssslcacertificatefile'', CK_CaFile), (''cacertificatefile'', CK_CaFile),
    (''irodssslcacertificatepath'', CK_CaPath), (''cacertificatepath'', CK_CaPath),
    (''irodssslverifyserver'', CK_VerifyServer), (''verifyserver'', CK_VerifyServer),
    (''irodsuserpassword'', CK_Password), (''userpassword'', CK_Password),
    (''password'', CK_Password), (''irodssslservername'', CK_SslServerName),
    (''sslservername'', CK_SslServerName), (''pathmappings'', CK_Mappings),
    (''pathmappingjson'', CK_Mappings), (''path'', CK_Path), (''readaheadmax'', CK_ReadAhead),
    (''nopermissioncheck'', CK_NoPermCheck), (''nosetxattr'', CK_NoSetXattr), (''uid'', CK_Uid),
    (''userid'', CK_Uid), (''gid'', CK_Gid), (''groupid'', CK_Gid), (''systemuser'', CK_SystemUser),
    (''metadataconnection'', CK_Metadata), (''metadataconnectionjson'', CK_Metadata),
    (''ioconnection'', CK_IO), (''ioconnectionjson'', CK_IO), (''cache'', CK_Cache),
    (''cachejson'', CK_Cache), (''poolendpoint'', CK_PoolEndpoint), (''enableprofile'', CK_Profile),
    (''profile'', CK_Profile), (''profileserviceport'', CK_ProfilePort),
    (''profileport'', CK_ProfilePort), (''enableoverlayfs'', CK_OverlayFS),
    (''overlayfs'', CK_OverlayFS), (''overlayfsdriver'', CK_OverlayDriver),
    (''mounttimeout'', CK_MountTimeout), (''debug'', CK_Debug), (''readonly'', CK_ReadOnly)] nk"
proof -
  have "map (\<lambda>(l, c). (NormalizeConfigKey l, c)) conn_labels =
   [(''irodsauthenticationscheme'', CK_AuthScheme), (''authenticationscheme'', CK_AuthScheme),
    (''authscheme'', CK_AuthScheme), (''irodsclientservernegotiation'', CK_Negotiation),
    (''clientservernegotiation'', CK_Negotiation), (''irodsclientserverpolicy'', CK_Policy),
    (''clientservernegotiationpolicy'', CK_Policy), (''csnegotiationpolicy'', CK_Policy),
    (''irodshost'', CK_Host), (''hostname'', CK_Host), (''host'', CK_Host), (''irodsport'', CK_Port),
    (''port'', CK_Port), (''irodszonename'', CK_Zone), (''zonename'', CK_Zone), (''zone'', CK_Zone),
    (''irodsclientzonename'', CK_ClientZone), (''clientzonename'', CK_ClientZone),
    (''clientzone'', CK_ClientZone), (''irodsusername'', CK_User), (''user'', CK_User),
    (''username'', CK_User), (''irodsclientusername'', CK_ClientUser),
    (''clientuser'', CK_ClientUser), (''clientusername'', CK_ClientUser),
    (''irodsdefaultresource'', CK_Resource), (''defaultresource'', CK_Resource),
    (''resource'', CK_Resource), (''irodsencryptionalgorithm'', CK_EncAlgorithm),
    (''encryptionalgorithm'', CK_EncAlgorithm), (''irodsencryptionkeysize'', CK_EncKeySize),
    (''encryptionkeysize'', CK_EncKeySize), (''irodsencryptionsaltsize'', CK_EncSaltSize),
    (''encryptionsaltsize'', CK_EncSaltSize), (''irodsencryptionnumhashrounds'', CK_HashRounds),
    (''encryptionnumhashrounds'', CK_HashRounds), (''hashrounds'', CK_HashRounds),
    (''irodssslcacertificatefile'', CK_CaFile), (''cacertificatefile'', CK_CaFile),
    (''irodssslcacertificatepath'', CK_CaPath), (''cacertificatepath'', CK_CaPath),
    (''irodssslverifyserver'', CK_VerifyServer), (''verifyserver'', CK_VerifyServer),
    (''irodsuserpassword'', CK_Password), (''userpassword'', CK_Password),
    (''password'', CK_Password), (''irodssslservername'', CK_SslServerName),
    (''sslservername'', CK_SslServerName), (''pathmappings'', CK_Mappings),
    (''pathmappingjson'', CK_Mappings), (''path'', CK_Path), (''readaheadmax'', CK_ReadAhead),
    (''nopermissioncheck'', CK_NoPermCheck), (''nosetxattr'', CK_NoSetXattr), (''uid'', CK_Uid),
    (''userid'', CK_Uid), (''gid'', CK_Gid), (''groupid'', CK_Gid), (''systemuser'', CK_SystemUser),
    (''metadataconnection'', CK_Metadata), (''metadataconnectionjson'', CK_Metadata),
    (''ioconnection'', CK_IO), (''ioconnectionjson'', CK_IO), (''cache'', CK_Cache),
    (''cachejson'', CK_Cache), (''poolendpoint'', CK_PoolEndpoint), (''enableprofile'', CK_Profile),
    (''profile'', CK_Profile), (''profileserviceport'', CK_ProfilePort),
    (''profileport'', CK_ProfilePort), (''enableoverlayfs'', CK_OverlayFS),
    (''overlayfs'', CK_OverlayFS), (''overlayfsdriver'', CK_OverlayDriver),
    (''mounttimeout'', CK_MountTimeout), (''debug'', CK_Debug), (''readonly'', CK_ReadOnly)]"
    by code_simp
  then show ?thesis by (simp only: conn_key_of_def)
qed

text \<open>What the example world satisfies.\<close>

lemma example_mount_table: "mount_table_ok example_env"
  by (simp add: mount_table_ok_def example_env_def example_device_def)

lemma example_no_files: "no_volume_files example_env ''/storage''"
proof -
  have "save_path ''/storage'' ''controller_volumes.json'' = ''/storage/controller_volumes.json''"
    and "save_path ''/storage'' ''node_volumes.json'' = ''/storage/node_volumes.json''"
    by code_simp+
  then show ?thesis
    by (auto simp: no_volume_files_def example_env_def example_stat_def IsNotExist_def)
qed

lemma example_cipher: "cipher_ok example_env"
  by (simp add: cipher_ok_def example_env_def)

text \<open>The states the example runs through.\<close>

definition example_staged :: driver where
  "example_staged = snd (run_state (NodeStageVolume example_stage) example_driver)"

definition example_published :: driver where
  "example_published = snd (run_state (NodePublishVolume example_publish) example_staged)"

definition example_unpublished :: driver where
  "example_unpublished = snd (run_state (NodeUnpublishVolume ''v'' ''/target'') example_published)"

definition example_unstaged :: driver where
  "example_unstaged = snd (run_state (NodeUnstageVolume ''v'' ''/stage'') example_unpublished)"

lemma example_runs:
  "run_state (NodeStageVolume example_stage) example_driver = (Inr (), example_staged)"
  "run_state (NodePublishVolume example_publish) example_staged = (Inr (), example_published)"
  "run_state (NodeUnpublishVolume ''v'' ''/target'') example_published = (Inr (), example_unpublished)"
  "run_state (NodeUnstageVolume ''v'' ''/stage'') example_unpublished = (Inr (), example_unstaged)"
proof -
  have "case run_state (NodeStageVolume example_stage) example_driver of (r1, d1) \<Rightarrow>
      (case run_state (NodePublishVolume example_publish) d1 of (r2, d2) \<Rightarrow>
      (case run_state (NodeUnpublishVolume ''v'' ''/target'') d2 of (r3, d3) \<Rightarrow>
      (case run_state (NodeUnstageVolume ''v'' ''/stage'') d3 of (r4, d4) \<Rightarrow>
         list_all (\<lambda>r. r = Inr ()) [r1, r2, r3, r4])))"
    by code_simp
  then show "run_state (NodeStageVolume example_stage) example_driver = (Inr (), example_staged)"
    "run_state (NodePublishVolume example_publish) example_staged = (Inr (), example_published)"
    "run_state (NodeUnpublishVolume ''v'' ''/target'') example_published = (Inr (), example_unpublished)"
    "run_state (NodeUnstageVolume ''v'' ''/stage'') example_unpublished = (Inr (), example_unstaged)"
    by (simp_all add: case_prod_beta example_staged_def example_published_def example_unpublished_def example_unstaged_def
        prod_eq_iff)
qed

lemma example_context_ok:
  "go_map_ok example_context" "isDynamicVolumeProvisioningMode example_context"
  by code_simp+

lemma example_driver_inv: "driver_inv example_lib example_driver"
  by (simp add: driver_inv_def example_driver_def example_process_def example_world_def example_env_def
      balanced_init controllers_ok_def nodes_ok_def store_wf_def manager_Get_def)

text \<open>A run of the whole service from its first start: a volume is provisioned and deleted again.\<close>

definition example_requests :: "request list" where
  "example_requests = [Create example_create, Delete ''volid-pvc-x1'']"

definition example_started :: driver where
  "example_started = the (fst (NewDriver example_conf example_process))"

definition example_served :: driver where
  "example_served = snd (run_state (run_all serve example_requests) example_started)"

lemma example_fresh: "fresh_process example_conf example_process"
  using example_no_files
  by (simp add: fresh_process_def example_process_def example_world_def example_conf_def)

lemma example_start: "NewDriver example_conf example_process = (Some example_started, snd (NewDriver example_conf example_process))"
proof -
  have "fst (NewDriver example_conf example_process) \<noteq> None" by code_simp
  then show ?thesis by (simp add: example_started_def prod_eq_iff)
qed

lemma example_service:
  "list_all (\<lambda>r. \<not> isl r) (fst (run_state (run_all serve example_requests) example_started))"
  by code_simp

text \<open>The first of the two requests, on its own.\<close>

definition example_created :: "csi_volume \<times> driver" where
  "example_created = map_prod projr id (run_state (CreateVolume example_create) example_started)"

lemma example_create_runs:
  "run_state (CreateVolume example_create) example_started = (Inr (fst example_created), snd example_created)"
proof -
  obtain x d where r: "run_state (CreateVolume example_create) example_started = (x, d)" by force
  have "\<not> isl x"
    using example_service r
    by (cases x) (auto simp: example_requests_def serve_def split: prod.splits)
  with r show ?thesis by (cases x) (auto simp: example_created_def)
qed

end
