(* ===== verification/Example_Overlay.thy ===== *)
theory Example_Overlay
  imports Overlay_Run Example_World
begin

text \<open>
  A synchronisation run: a collection held in memory behind the interface of the iRODS client, an upper
  layer with a new file and a whiteout, and a schedule of the job manager, evaluated. Uploads can be made to fail.
  Lists are not served; no directory of the layer is opaque.
\<close>

record mem =
  mem_tree :: "string itree option"
  mem_uploads :: bool
  mem_upper :: bool

definition mem_path :: "string \<Rightarrow> string list" where
  "mem_path p = drop 2 (elems p)"

definition mem_update :: "string \<Rightarrow> (string itree option \<Rightarrow> string itree option) \<Rightarrow> (mem, go_error option) state" where
  "mem_update p f = State (\<lambda>w. (None, w\<lparr>mem_tree := update_at (mem_path p) f (mem_tree w)\<rparr>))"

definition mem_fs :: "mem irods_fs" where
  "mem_fs = \<lparr>
     fs_stat = (\<lambda>p. gets (\<lambda>w. case lookup_at (mem_path p) (mem_tree w) of
       None \<Rightarrow> Inl (ExtErr ''not found'') | Some n \<Rightarrow> Inr (is_coll n))),
     fs_make_dir = (\<lambda>p recurse. mem_update p as_coll),
     fs_remove_dir = (\<lambda>p recurse force. mem_update p whiteout),
     fs_remove_file = (\<lambda>p force. mem_update p whiteout),
     fs_upload = (\<lambda>local p. do {
       ok \<leftarrow> gets mem_uploads;
       if ok then mem_update p (new_file local) else ret (Some (ExtErr ''connection lost'')) }),
     fs_list = (\<lambda>p. ret (Inl (ExtErr ''not served''))),
     fs_open_file = (\<lambda>p resource mode. ret None),
     fs_write = (\<lambda>msg. ret ()),
     fs_close = ret (),
     fs_xattr = (\<lambda>p name. ret (Inl (ExtErr ''no attribute''))),
     fs_not_found = (\<lambda>e. e = ExtErr ''not found'')\<rparr>"

definition mem_vpaths :: vpath_manager where
  "mem_vpaths p = Some \<lparr>ve_virtual_dir = False, ve_irods_path = (\<lambda>q. Inr (''/z/c'' @ q))\<rparr>"

definition mem_lib :: "mem sync_lib" where
  "mem_lib = \<lparr>
     sl_new_client = (\<lambda>config. ret (Inr mem_fs)),
     sl_new_vpaths = (\<lambda>fs mappings. ret (Inr mem_vpaths)),
     sl_getwd = ret (Inr ''/''),
     sl_release = (\<lambda>fs. ret ()),
     sl_remove_all = (\<lambda>p. do { _ \<leftarrow> modify (mem_upper_update (\<lambda>_. False)); ret None })\<rparr>"

definition mem_conn :: conn_info where
  "mem_conn = NewIRODSFSConnectionInfo example_lib"

definition mem_syncher :: "mem syncher" where
  "mem_syncher = \<lparr>sy_volumeID = ''v'', sy_irodsConnectionInfo = mem_conn, sy_irodsFsClient = Some mem_fs,
     sy_irodsFsVPathManager = mem_vpaths, sy_maxThreads = 4, sy_upperLayerPath = ''/u''\<rparr>"

text \<open>The layer has a new file \<open>a\<close> and removes \<open>w\<close>; the collection has \<open>b\<close> and \<open>w\<close>.\<close>

definition mem_entries :: "(string \<times> node) list" where
  "mem_entries = [(''a'', NFile), (''w'', NCharDevice)]"

definition mem_start :: "bool \<Rightarrow> mem" where
  "mem_start uploads = \<lparr>mem_tree = Some (Coll [''b'' \<mapsto> Data ''old'', ''w'' \<mapsto> Data ''old'']), mem_uploads = uploads, mem_upper = True\<rparr>"

lemma mem_path_abs: "plain es \<Longrightarrow> mem_path (abs_path ([''z'', ''c''] @ es)) = es"
proof -
  assume "plain es"
  then have "plain ([''z'', ''c''] @ es)" by (simp add: plain_elem_def)
  then show ?thesis by (simp add: mem_path_def elems_abs_path del: append.simps)
qed

lemma mem_contract:
  "irods_contract mem_fs [''z'', ''c''] mem_tree (\<lambda>p. p) (\<lambda>p name. Inl (ExtErr ''no attribute''))"
  unfolding irods_contract_def
proof (intro conjI)
  have path: "mem_path (abs_path (''z'' # ''c'' # es)) = es" if "plain es" for es using mem_path_abs [OF that] by simp
  show "reads_ok mem_fs mem_tree (\<lambda>p name. Inl (ExtErr ''no attribute''))"
    by (simp add: reads_ok_def keeps_view_def mem_fs_def)
  show "stat_ok mem_fs [''z'', ''c''] mem_tree"
    by (auto simp: stat_ok_def mem_fs_def path split: option.splits)
  show "make_ok mem_fs [''z'', ''c''] mem_tree (\<lambda>p. p)"
    by (auto simp: make_ok_def mem_fs_def mem_update_def path new_file_def [abs_def] split: if_splits)
  show "remove_ok mem_fs [''z'', ''c''] mem_tree"
    by (auto simp: remove_ok_def mem_fs_def mem_update_def path whiteout_def [abs_def])
  show "list_ok mem_fs [''z'', ''c''] mem_tree" by (simp add: list_ok_def mem_fs_def)
qed (auto simp: plain_elem_def)

lemma mem_upper_at: "upper_at mem_syncher [''u'']"
  by (auto simp: upper_at_def mem_syncher_def plain_elem_def abs_path_def)

lemma mem_maps: "maps_root (sy_irodsFsVPathManager mem_syncher) [''z'', ''c'']"
  by (auto simp: maps_root_def mem_syncher_def mem_vpaths_def abs_path_def neq_Nil_conv)

lemma mem_entries_ok: "entries_ok mem_entries"
  by (simp add: mem_entries_def plain_elem_def)

definition mem_walk :: walk where
  "mem_walk = snd (run_state (WalkDir mem_syncher no_error (Inr (NDir None mem_entries))) \<lparr>wk_currentDirPath = [], wk_cmds = []\<rparr>)"

abbreviation mem_cmds :: "sync_task cmd list" where
  "mem_cmds \<equiv> wk_cmds mem_walk"

lemma mem_walks: "run_state (WalkDir mem_syncher no_error (Inr (NDir None mem_entries))) \<lparr>wk_currentDirPath = [], wk_cmds = []\<rparr> =
    (None, mem_walk)"
  by (simp add: prod_eq_iff mem_walk_def) (simp add: WalkDir_def mem_entries_def)

lemma mem_plan: "run_state (Sync_start mem_fs mem_syncher no_error (Inr [''a'', ''w'']) (Inr (NDir None mem_entries))) w =
    (Sync_scheduled mem_cmds, w)"
  unfolding Sync_start_def mem_walks by (simp add: Let_def mem_fs_def)

text \<open>One job after the other.\<close>

definition mem_schedule :: "actor list" where
  "mem_schedule = concat (replicate 4 (replicate 3 Scheduler @ replicate 5 Runner @ replicate 5 (Worker 0)))
     @ replicate 3 Scheduler"

definition mem_run :: "bool \<Rightarrow> (sync_task pjm \<times> mem logged) option" where
  "mem_run uploads = perform_run (task_closure mem_fs mem_syncher) mem_schedule
     (NewParallelJobManager 4 mem_cmds, (mem_start uploads, []))"

definition mem_end :: "bool \<Rightarrow> mem logged" where
  "mem_end uploads = (case mem_run uploads of Some (s, x) \<Rightarrow> x | None \<Rightarrow> (mem_start uploads, []))"

lemma mem_run_ends:
  assumes "case mem_run uploads of None \<Rightarrow> False | Some (s, x) \<Rightarrow> jm_sched s = S_Returned None \<and> \<not> jm_panicked s"
  obtains s where "(safe_run (task_closure mem_fs mem_syncher))\<^sup>*\<^sup>*
      (NewParallelJobManager 4 mem_cmds, (mem_start uploads, [])) (s, mem_end uploads)"
    and "jm_sched s = S_Returned None" and "\<not> jm_panicked s"
proof -
  from assms obtain s x where r: "mem_run uploads = Some (s, x)" "jm_sched s = S_Returned None" "\<not> jm_panicked s"
    by (auto split: option.splits)
  then have "x = mem_end uploads" by (simp add: mem_end_def)
  with r that [of s] perform_run_steps show ?thesis unfolding mem_run_def by blast
qed

text \<open>With uploads, all is merged and nothing logged.\<close>

lemma mem_synced: "manager_runs 4 (task_closure mem_fs mem_syncher) mem_cmds (mem_start True, []) (mem_end True)"
proof -
  have "case mem_run True of None \<Rightarrow> False | Some (s, x) \<Rightarrow> jm_sched s = S_Returned None \<and> \<not> jm_panicked s" by code_simp
  then obtain s where "(safe_run (task_closure mem_fs mem_syncher))\<^sup>*\<^sup>*
      (NewParallelJobManager 4 mem_cmds, (mem_start True, [])) (s, mem_end True)"
    "jm_sched s = S_Returned None" "\<not> jm_panicked s" by (rule mem_run_ends)
  then show ?thesis using WalkDir_fits [OF _ mem_walks, of 4] by (auto simp: manager_runs_def)
qed

lemma mem_synced_quietly: "snd (mem_end True) = []"
  by code_simp

text \<open>Without, the file is not there at the end, and one error is logged.\<close>

lemma mem_failed:
  "lookup_at [''a''] (mem_tree (fst (mem_end False))) = None" "length (snd (mem_end False)) = 1"
  by code_simp+

lemma mem_failed_returns: "Sync mem_syncher (Inr [''a'', ''w'']) (Inr (NDir None mem_entries)) (mem_start False, []) None (mem_end False)"
proof -
  have "case mem_run False of None \<Rightarrow> False | Some (s, x) \<Rightarrow> jm_sched s = S_Returned None \<and> \<not> jm_panicked s" by code_simp
  then obtain s where s: "(safe_run (task_closure mem_fs mem_syncher))\<^sup>*\<^sup>*
      (NewParallelJobManager 4 mem_cmds, (mem_start False, [])) (s, mem_end False)"
    "jm_sched s = S_Returned None" by (rule mem_run_ends)
  have "run_state (sync_waited mem_fs None) (mem_end False) = ((), mem_end False)"
    by (cases "mem_end False") (simp add: sync_waited_def mem_fs_def)
  note wait = Sync_wait [OF _ mem_plan _ s(2) this]
  have "sy_irodsFsClient mem_syncher = Some mem_fs" "sy_maxThreads mem_syncher = 4" by (simp_all add: mem_syncher_def)
  with wait safe_run_runs [OF s(1)] show ?thesis by simp
qed

end
