(* ===== verification/Proc_Mounts.thy ===== *)
theory Proc_Mounts
  imports Node_Mounter
begin

text \<open>
  The readers of the kernel's mount tables: \<open>parseProcMounts\<close> and \<open>ListProcMounts\<close> (mounter.go)
  for /proc/mounts, \<open>ParseMountInfo\<close> (mount_helper_unix.go) for /proc/self/mountinfo, and the
  search for the other mounts of one source (\<open>SearchMountPoints\<close>, \<open>GetMountRefs\<close>). Each parser
  is a pure function of the file's content; printers state what the kernel writes, and the
  round trips say that the parsers read it back.
\<close>

definition strconv_err :: "string \<Rightarrow> go_error" where
  "strconv_err s = XErr ''strconv.Atoi: parsing %q'' [AStr s]"


section \<open>/proc/mounts\<close>

record mount_point =
  mp_Device :: string
  mp_Path :: string
  mp_Type :: string
  mp_Opts :: "string list"
  mp_Freq :: int
  mp_Pass :: int

definition expectedNumFieldsPerLine :: nat where
  "expectedNumFieldsPerLine = 6"

definition parse_mounts_line :: "string \<Rightarrow> go_error + mount_point" where
  "parse_mounts_line line =
     (let fields = Fields line in
      if length fields \<noteq> expectedNumFieldsPerLine then
        Inl (XErr ''wrong number of fields (expected %d, got %d)''
          [AInt (int expectedNumFieldsPerLine), AInt (int (length fields))])
      else
        (case Atoi (fields ! 4) of
           None \<Rightarrow> Inl (strconv_err (fields ! 4))
         | Some freq \<Rightarrow>
             (case Atoi (fields ! 5) of
                None \<Rightarrow> Inl (strconv_err (fields ! 5))
              | Some pass \<Rightarrow>
                  Inr \<lparr>mp_Device = fields ! 0, mp_Path = fields ! 1, mp_Type = fields ! 2,
                    mp_Opts = Split (fields ! 3) CHR '','', mp_Freq = freq, mp_Pass = pass\<rparr>)))"

text \<open>Both parsers loop over the lines of the file, skip the empty ones and stop at an error.\<close>

fun parse_lines :: "(string \<Rightarrow> go_error + 'a) \<Rightarrow> string list \<Rightarrow> go_error + 'a list" where
  "parse_lines p [] = Inr []"
| "parse_lines p (line # lines) =
     (if line = [] then parse_lines p lines
      else
        (case p line of
           Inl e \<Rightarrow> Inl e
         | Inr x \<Rightarrow> (case parse_lines p lines of Inl e \<Rightarrow> Inl e | Inr xs \<Rightarrow> Inr (x # xs))))"

definition parseProcMounts :: "string \<Rightarrow> go_error + mount_point list" where
  "parseProcMounts content = parse_lines parse_mounts_line (Split content CHR 0x0A)"

definition ListProcMounts :: "string \<Rightarrow> (go_error + mount_point list) io" where
  "ListProcMounts mountFilePath = do {
     r \<leftarrow> consistent_read mountFilePath 3;
     case r of Inl err \<Rightarrow> ret (Inl err) | Inr content \<Rightarrow> ret (parseProcMounts content) }"

definition List_mounts :: "(go_error + mount_point list) io" where
  "List_mounts = ListProcMounts ''/proc/mounts''"


section \<open>/proc/self/mountinfo\<close>

record mount_info =
  mi_ID :: int
  mi_ParentID :: int
  mi_Major :: int
  mi_Minor :: int
  mi_Root :: string
  mi_Source :: string
  mi_MountPoint :: string
  mi_OptionalFields :: "string list"
  mi_FsType :: string
  mi_MountOptions :: "string list"
  mi_SuperOptions :: "string list"

definition expectedAtLeastNumFieldsPerMountInfo :: nat where
  "expectedAtLeastNumFieldsPerMountInfo = 10"

text \<open>
  The fields after the sixth, up to a lone dash, are the optional ones; three more follow the
  dash. Where there is no dash the index has run past the end, and \<open>len(fields) - i\<close> is -1.
\<close>

definition parse_mountinfo_line :: "string \<Rightarrow> go_error + mount_info" where
  "parse_mountinfo_line line =
     (let fields = Fields line in
      if length fields < expectedAtLeastNumFieldsPerMountInfo then
        Inl (XErr ''wrong number of fields in (expected at least %d, got %d), line %q''
          [AInt (int expectedAtLeastNumFieldsPerMountInfo), AInt (int (length fields)), AStr line])
      else
        (case Atoi (fields ! 0) of
           None \<Rightarrow> Inl (XErr ''failed to atoi %q: %w'' [AStr (fields ! 0), AErr (strconv_err (fields ! 0))])
         | Some mid \<Rightarrow>
        (case Atoi (fields ! 1) of
           None \<Rightarrow> Inl (XErr ''failed to atoi %q: %w'' [AStr (fields ! 1), AErr (strconv_err (fields ! 1))])
         | Some parentID \<Rightarrow>
        (let mm = Split (fields ! 2) CHR '':'' in
         if length mm \<noteq> 2 then
           Inl (XErr ''failed to parse %q, unexpected minor-major pair %v''
             (AStr (fields ! 2) # map AStr mm))
         else
        (case Atoi (mm ! 0) of
           None \<Rightarrow> Inl (XErr ''failed to parse %q, unalbe to parse major device id: %w''
             [AStr (mm ! 0), AErr (strconv_err (mm ! 0))])
         | Some major \<Rightarrow>
        (case Atoi (mm ! 1) of
           None \<Rightarrow> Inl (XErr ''failed to parse %q, unable to parse minor device id: %w''
             [AStr (mm ! 1), AErr (strconv_err (mm ! 1))])
         | Some minor \<Rightarrow>
        (let optional = takeWhile (\<lambda>f. f \<noteq> ''-'') (drop 6 fields);
             i = 6 + length optional + 1
         in if int (length fields) - int i < 3 then
              Inl (XErr ''expect 3 fields in %q, got %d'' [AStr line, AInt (int (length fields) - int i)])
            else
              Inr \<lparr>mi_ID = mid, mi_ParentID = parentID, mi_Major = major, mi_Minor = minor,
                mi_Root = fields ! 3, mi_Source = fields ! (i + 1), mi_MountPoint = fields ! 4,
                mi_OptionalFields = optional, mi_FsType = fields ! i,
                mi_MountOptions = Split (fields ! 5) CHR '','',
                mi_SuperOptions = Split (fields ! (i + 2)) CHR '',''\<rparr>)))))))"

definition parse_mountinfo :: "string \<Rightarrow> go_error + mount_info list" where
  "parse_mountinfo content = parse_lines parse_mountinfo_line (Split content CHR 0x0A)"

definition ParseMountInfo :: "string \<Rightarrow> (go_error + mount_info list) io" where
  "ParseMountInfo filename = do {
     r \<leftarrow> consistent_read filename 3;
     case r of Inl err \<Rightarrow> ret (Inl err) | Inr content \<Rightarrow> ret (parse_mountinfo content) }"


section \<open>The mounts of one source\<close>

definition covers :: "(string \<Rightarrow> string \<Rightarrow> bool) \<Rightarrow> string \<Rightarrow> mount_info \<Rightarrow> bool" where
  "covers within hostSource mi \<longleftrightarrow> hostSource = mi_MountPoint mi \<or> within hostSource (mi_MountPoint mi)"

text \<open>The latest entry that covers the path, searched from the end of the table.\<close>

definition find_last :: "(string \<Rightarrow> string \<Rightarrow> bool) \<Rightarrow> string \<Rightarrow> mount_info list \<Rightarrow> mount_info option" where
  "find_last within hostSource mis = find (covers within hostSource) (rev mis)"

definition root_path :: "string \<Rightarrow> mount_info \<Rightarrow> string" where
  "root_path hostSource mi = JoinPath [mi_Root mi, TrimPrefix hostSource (mi_MountPoint mi)]"

definition search_refs :: "(string \<Rightarrow> string \<Rightarrow> bool) \<Rightarrow> string \<Rightarrow> mount_info list \<Rightarrow> go_error + string list" where
  "search_refs within hostSource mis =
     (let (mountID, rootPath, major, minor) =
        (case find_last within hostSource mis of
           None \<Rightarrow> (0, [], - 1, - 1)
         | Some mi \<Rightarrow> (mi_ID mi, root_path hostSource mi, mi_Major mi, mi_Minor mi))
      in if rootPath = [] \<or> major = - 1 \<or> minor = - 1 then
           Inl (XErr ''failed to get root path and major-minor for %q'' [AStr hostSource])
         else
           Inr (map mi_MountPoint (filter (\<lambda>mi. mi_ID mi \<noteq> mountID \<and>
             mi_Root mi = rootPath \<and> mi_Major mi = major \<and> mi_Minor mi = minor) mis)))"

definition SearchMountPoints :: "string \<Rightarrow> string \<Rightarrow> (go_error + string list) io" where
  "SearchMountPoints hostSource mountInfoPath = do {
     r \<leftarrow> ParseMountInfo mountInfoPath;
     case r of
       Inl err \<Rightarrow> ret (Inl err)
     | Inr mis \<Rightarrow> do { e \<leftarrow> the_env; ret (search_refs (e_path_within_base e) hostSource mis) } }"

definition GetMountRefs :: "string \<Rightarrow> (go_error + string list) io" where
  "GetMountRefs pathname = do {
     (pathExists, pathErr) \<leftarrow> PathExists pathname;
     if \<not> pathExists then ret (Inr [])
     else if IsCorruptedMount pathErr then ret (Inr [])
     else
       case pathErr of
         Some e \<Rightarrow> ret (Inl (XErr ''error checking path %q: %w'' [AStr pathname, AErr e]))
       | None \<Rightarrow> do {
           r \<leftarrow> eval_symlinks pathname;
           case r of
             Inl err \<Rightarrow> ret (Inl err)
           | Inr realpath \<Rightarrow> SearchMountPoints realpath ''/proc/self/mountinfo'' } }"


section \<open>What the kernel prints\<close>

definition mounts_line :: "mount_point \<Rightarrow> string" where
  "mounts_line mp = Join [mp_Device mp, mp_Path mp, mp_Type mp, Join (mp_Opts mp) '','',
     Itoa (mp_Freq mp), Itoa (mp_Pass mp)] '' ''"

definition mountinfo_line :: "mount_info \<Rightarrow> string" where
  "mountinfo_line mi = Join ([Itoa (mi_ID mi), Itoa (mi_ParentID mi),
     Join [Itoa (mi_Major mi), Itoa (mi_Minor mi)] '':'', mi_Root mi, mi_MountPoint mi,
     Join (mi_MountOptions mi) '',''] @ mi_OptionalFields mi
     @ [''-'', mi_FsType mi, mi_Source mi, Join (mi_SuperOptions mi) '','']) '' ''"

definition print_lines :: "('a \<Rightarrow> string) \<Rightarrow> 'a list \<Rightarrow> string" where
  "print_lines pr xs = concat (map (\<lambda>x. pr x @ [CHR 0x0A]) xs)"

text \<open>A field the kernel may print: not empty, no white space (the kernel escapes it).\<close>

definition field_ok :: "string \<Rightarrow> bool" where
  "field_ok f \<longleftrightarrow> f \<noteq> [] \<and> (\<forall>x \<in> set f. \<not> is_space x)"

definition opts_ok :: "string list \<Rightarrow> bool" where
  "opts_ok os \<longleftrightarrow> os \<noteq> [] \<and> list_all (\<lambda>f. field_ok f \<and> CHR '','' \<notin> set f) os"

definition int64_ok :: "int \<Rightarrow> bool" where
  "int64_ok n \<longleftrightarrow> min_int64 \<le> n \<and> n \<le> max_int64"

definition mount_point_ok :: "mount_point \<Rightarrow> bool" where
  "mount_point_ok mp \<longleftrightarrow> field_ok (mp_Device mp) \<and> field_ok (mp_Path mp) \<and> field_ok (mp_Type mp)
     \<and> opts_ok (mp_Opts mp) \<and> int64_ok (mp_Freq mp) \<and> int64_ok (mp_Pass mp)"

definition mount_info_ok :: "mount_info \<Rightarrow> bool" where
  "mount_info_ok mi \<longleftrightarrow> int64_ok (mi_ID mi) \<and> int64_ok (mi_ParentID mi)
     \<and> 0 \<le> mi_Major mi \<and> mi_Major mi \<le> max_int64 \<and> 0 \<le> mi_Minor mi \<and> mi_Minor mi \<le> max_int64
     \<and> field_ok (mi_Root mi) \<and> field_ok (mi_MountPoint mi) \<and> opts_ok (mi_MountOptions mi)
     \<and> list_all (\<lambda>f. field_ok f \<and> f \<noteq> ''-'') (mi_OptionalFields mi)
     \<and> field_ok (mi_FsType mi) \<and> field_ok (mi_Source mi) \<and> opts_ok (mi_SuperOptions mi)"


section \<open>The parsers read it back\<close>

lemma field_ok_Itoa [simp]: "field_ok (Itoa n)"
  using Itoa_no_space by (simp add: field_ok_def)

lemma field_ok_Join:
  assumes "fs \<noteq> []" and "\<forall>f \<in> set fs. field_ok f" and "\<not> is_space c"
  shows "field_ok (Join fs [c])"
proof -
  have "Join fs [c] \<noteq> []" using assms by (subst Join_eq_Nil) (auto simp: field_ok_def)
  then show ?thesis using assms Join_chars [of fs "[c]"] by (auto simp: field_ok_def)
qed

lemma opts_ok_field: "opts_ok os \<Longrightarrow> field_ok (Join os '','')"
  by (rule field_ok_Join) (auto simp: opts_ok_def list_all_iff is_space_def)

lemma opts_ok_Split: "opts_ok os \<Longrightarrow> Split (Join os '','') CHR '','' = os"
  by (rule Split_Join) (auto simp: opts_ok_def list_all_iff)

lemma Fields_fields: "\<forall>f \<in> set fs. field_ok f \<Longrightarrow> Fields (Join fs '' '') = fs"
  by (rule Fields_Join) (auto simp: field_ok_def)

lemma int64_ok_Atoi: "int64_ok n \<Longrightarrow> Atoi (Itoa n) = Some n"
  by (simp add: int64_ok_def Atoi_Itoa)

lemma line_no_newline:
  assumes "\<forall>f \<in> set fs. field_ok f"
  shows "CHR 0x0A \<notin> set (Join fs '' '')"
  using assms Join_chars [of fs "'' ''"] by (fastforce simp: field_ok_def is_space_def)

lemma Join_field_not_Nil: "\<forall>f \<in> set fs. field_ok f \<Longrightarrow> fs \<noteq> [] \<Longrightarrow> Join fs sep \<noteq> []"
  by (subst Join_eq_Nil) (auto simp: field_ok_def)

text \<open>A printed file is read back line by line.\<close>

lemma parse_lines_print:
  assumes "\<forall>x \<in> set xs. CHR 0x0A \<notin> set (pr x) \<and> pr x \<noteq> [] \<and> p (pr x) = Inr x"
  shows "parse_lines p (Split (print_lines pr xs) CHR 0x0A) = Inr xs"
  using assms
proof (induction xs)
  case Nil
  then show ?case by (simp add: print_lines_def Split_def)
next
  case (Cons x xs)
  have "split_by (\<lambda>c. c = CHR 0x0A) (pr x) = [pr x]"
    using Cons.prems by (intro split_by_no_sep) auto
  then have "Split (print_lines pr (x # xs)) CHR 0x0A = pr x # Split (print_lines pr xs) CHR 0x0A"
    by (simp add: print_lines_def Split_def split_by_append)
  with Cons show ?case by simp
qed

lemma parse_mounts_line_print:
  assumes "mount_point_ok mp"
  shows "CHR 0x0A \<notin> set (mounts_line mp) \<and> mounts_line mp \<noteq> [] \<and> parse_mounts_line (mounts_line mp) = Inr mp"
proof -
  let ?fs = "[mp_Device mp, mp_Path mp, mp_Type mp, Join (mp_Opts mp) '','', Itoa (mp_Freq mp), Itoa (mp_Pass mp)]"
  have ok: "\<forall>f \<in> set ?fs. field_ok f"
    using assms by (simp add: mount_point_ok_def opts_ok_field)
  have "parse_mounts_line (Join ?fs '' '') = Inr mp"
    using assms unfolding parse_mounts_line_def Fields_fields [OF ok]
    by (simp add: expectedNumFieldsPerLine_def mount_point_ok_def int64_ok_Atoi opts_ok_Split)
  with line_no_newline [OF ok] Join_field_not_Nil [OF ok] show ?thesis
    by (simp only: mounts_line_def) simp
qed

lemma parse_mountinfo_line_print:
  assumes "mount_info_ok mi"
  shows "CHR 0x0A \<notin> set (mountinfo_line mi) \<and> mountinfo_line mi \<noteq> [] \<and> parse_mountinfo_line (mountinfo_line mi) = Inr mi"
proof -
  let ?mm = "[Itoa (mi_Major mi), Itoa (mi_Minor mi)]"
  let ?opt = "mi_OptionalFields mi"
  let ?fs = "[Itoa (mi_ID mi), Itoa (mi_ParentID mi), Join ?mm '':'', mi_Root mi, mi_MountPoint mi,
     Join (mi_MountOptions mi) '',''] @ ?opt @ [''-'', mi_FsType mi, mi_Source mi, Join (mi_SuperOptions mi) '','']"
  have mm: "Split (Join ?mm '':'') CHR '':'' = ?mm"
    by (rule Split_Join) (use assms in \<open>auto simp: mount_info_ok_def is_digit_def dest!: Itoa_nonneg_digits\<close>)
  have "field_ok (Join ?mm '':'')" by (rule field_ok_Join) (auto simp: is_space_def)
  then have ok: "\<forall>f \<in> set ?fs. field_ok f"
    using assms by (auto simp: mount_info_ok_def opts_ok_field list_all_iff field_ok_def [of "''-''"] is_space_def)
  have tw: "takeWhile (\<lambda>f. f \<noteq> ''-'') (?opt @ ''-'' # xs) = ?opt" for xs
    using assms by (subst takeWhile_append2) (auto simp: mount_info_ok_def list_all_iff)
  have at: "Atoi (Itoa (mi_ID mi)) = Some (mi_ID mi)" "Atoi (Itoa (mi_ParentID mi)) = Some (mi_ParentID mi)"
     "Atoi (Itoa (mi_Major mi)) = Some (mi_Major mi)" "Atoi (Itoa (mi_Minor mi)) = Some (mi_Minor mi)"
    using assms by (auto simp: mount_info_ok_def int64_ok_def min_int64_def intro!: int64_ok_Atoi)
  have sp: "Split (Join (mi_MountOptions mi) '','') CHR '','' = mi_MountOptions mi"
     "Split (Join (mi_SuperOptions mi) '','') CHR '','' = mi_SuperOptions mi"
    using assms by (simp_all add: mount_info_ok_def opts_ok_Split)
  have "parse_mountinfo_line (Join ?fs '' '') = Inr mi"
    unfolding parse_mountinfo_line_def Fields_fields [OF ok]
    by (simp add: expectedAtLeastNumFieldsPerMountInfo_def at mm sp tw nth_append Let_def del: Join.simps)
  with line_no_newline [OF ok] Join_field_not_Nil [OF ok] show ?thesis
    by (simp only: mountinfo_line_def) simp
qed

lemma parse_mountinfo_print:
  "\<forall>mi \<in> set mis. mount_info_ok mi \<Longrightarrow> parse_mountinfo (print_lines mountinfo_line mis) = Inr mis"
  unfolding parse_mountinfo_def by (rule parse_lines_print) (simp add: parse_mountinfo_line_print)

lemma parse_mounts_print:
  "\<forall>mp \<in> set mps. mount_point_ok mp \<Longrightarrow> parseProcMounts (print_lines mounts_line mps) = Inr mps"
  unfolding parseProcMounts_def by (rule parse_lines_print) (simp add: parse_mounts_line_print)


section \<open>The search\<close>

lemma find_last_Some:
  assumes "find_last within h mis = Some mi"
  shows "mi \<in> set mis \<and> covers within h mi \<and>
    (\<exists>before after. mis = before @ mi # after \<and> (\<forall>x \<in> set after. \<not> covers within h x))"
proof -
  obtain i where i: "i < length (rev mis)" "covers within h (rev mis ! i)" "mi = rev mis ! i"
      "\<forall>j < i. \<not> covers within h (rev mis ! j)"
    using assms by (auto simp: find_last_def find_Some_iff)
  then have "rev mis = take i (rev mis) @ mi # drop (Suc i) (rev mis)"
    by (metis id_take_nth_drop)
  then have "mis = rev (drop (Suc i) (rev mis)) @ mi # rev (take i (rev mis))"
    by (metis append.assoc append_Cons append_Nil rev.simps(2) rev_append rev_rev_ident)
  moreover have "\<forall>x \<in> set (rev (take i (rev mis))). \<not> covers within h x"
    using i(1,4) by (auto simp: in_set_conv_nth)
  ultimately show ?thesis
    using i by (metis in_set_conv_decomp)
qed

lemma keeps_extends_proc [keeps_rules]:
  "keeps (extends w0) (ParseMountInfo f)" "keeps (extends w0) (ListProcMounts f)"
  by (auto simp: ParseMountInfo_def ListProcMounts_def intro!: keeps_rules)

lemma keeps_extends_GetMountRefs [keeps_rules]: "keeps (extends w0) (GetMountRefs p)"
  by (auto simp: GetMountRefs_def SearchMountPoints_def intro!: keeps_rules)

end
