(* ===== verification/Recovery.thy ===== *)
theory Recovery
  imports Lifecycle Startup
begin

text \<open>
  The records across a restart of the driver. A call that staged or published a volume with success has
  saved the node's records last thing, a call that created one has saved the controller's; a driver
  started on that file knows the volumes again, and can unpublish, unstage and delete them.
\<close>

section \<open>What a successful call has saved\<close>

text \<open>The last event is the write of a manager's file, and the file is its present map of volumes.\<close>

definition saved :: "(driver \<Rightarrow> 'v codec) \<Rightarrow> (driver \<Rightarrow> 'v manager) \<Rightarrow> driver \<Rightarrow> bool" where
  "saved cd mg d \<longleftrightarrow> (\<exists>data js. d_trace d \<noteq> [] \<and>
     hd (d_trace d) = EvCall (WriteFile (mg_savefilePath (mg d)) data mode_0644) None \<and>
     cd_marshal (cd d) (mg_volumes (mg d)) = Inr js \<and>
     (if mg_encryptKey (mg d) = [] then data = js
      else decrypt (w_env (d_world d)) data (mg_encryptKey (mg d)) = Some (Inr js)))"

definition the_node_codec :: "driver \<Rightarrow> node_volume codec" where
  "the_node_codec d = node_codec"

definition the_controller_codec :: "driver \<Rightarrow> controller_volume codec" where
  "the_controller_codec d = controller_codec (e_conn_json (w_env (d_world d)))"

abbreviation "saved_nodes \<equiv> saved the_node_codec d_nodes"
abbreviation "saved_controllers \<equiv> saved the_controller_codec d_controllers"

lemma manager_save_wrote: "run_state (manager_save cd m) w = (None, w') \<Longrightarrow> w_trace w' \<noteq> []"
  by (auto simp: manager_save_def write_savefile_def encrypt_def run_rules Let_def split: sum.splits option.splits if_splits)

lemma manager_Put_saved:
  assumes "run_state (manager_Put cd k v m) w = ((None, m'), w')" and "cipher_ok (w_env w)"
  obtains data js where "w_trace w' \<noteq> []"
    and "hd (w_trace w') = EvCall (WriteFile (mg_savefilePath m') data mode_0644) None"
    and "cd_marshal cd (mg_volumes m') = Inr js"
    and "if mg_encryptKey m' = [] then data = js else decrypt (w_env w) data (mg_encryptKey m') = Some (Inr js)"
proof -
  have s: "run_state (manager_save cd m') w = (None, w')"
    using assms(1) by (auto simp: manager_Put_def Let_def split: prod.splits)
  show thesis
    by (rule manager_save_ok [OF s assms(2)]) (rule that [OF manager_save_wrote [OF s]])
qed

lemma put_saved:
  "run_state (put_node v) d = (None, d') \<Longrightarrow> cipher_ok (w_env (d_world d)) \<Longrightarrow> saved_nodes d'"
  "run_state (put_controller cv) d = (None, d') \<Longrightarrow> cipher_ok (w_env (d_world d)) \<Longrightarrow> saved_controllers d'"
proof -
  assume c: "cipher_ok (w_env (d_world d))"
  show "saved_nodes d'" if put: "run_state (put_node v) d = (None, d')"
  proof -
    obtain m w where p: "run_state (NodeVolumeManager_Put v (d_nodes d)) (d_world d) = ((None, m), w)"
      and d': "d_nodes d' = m" "d_world d' = w"
      using put by (auto simp: put_node_def split: prod.splits)
    have "w_env w = w_env (d_world d)"
      using extendsD [OF nodes.put_extends p] by (simp add: extends_env)
    then show ?thesis
      using d' by (auto intro: manager_Put_saved [OF p [unfolded NodeVolumeManager_Put_def] c] simp: saved_def the_node_codec_def)
  qed
  show "saved_controllers d'" if put: "run_state (put_controller cv) d = (None, d')"
  proof -
    obtain m w where p: "run_state (ControllerVolumeManager_Put cv (d_controllers d)) (d_world d) = ((None, m), w)"
      and d': "d_controllers d' = m" "d_world d' = w"
      using put by (auto simp: put_controller_def split: prod.splits)
    then have q: "run_state (manager_Put (controller_codec (e_conn_json (w_env (d_world d)))) (cv_ID cv) cv (d_controllers d)) (d_world d)
        = ((None, m), w)"
      by (simp add: ControllerVolumeManager_Put_def run_the_env)
    have "w_env w = w_env (d_world d)"
      using extendsD [OF controllers.put_extends p] by (simp add: extends_env)
    then show ?thesis
      using d' by (auto intro: manager_Put_saved [OF q c] simp: saved_def the_controller_codec_def)
  qed
qed

text \<open>A handler after whose success \<open>S\<close> holds, where the cipher is right; the rules run through its branches.\<close>

definition saves :: "(driver \<Rightarrow> bool) \<Rightarrow> (go_error + 'a) op \<Rightarrow> bool" where
  "saves S m \<longleftrightarrow> (\<forall>d. cipher_ok (w_env (d_world d)) \<longrightarrow> post m d (\<lambda>_. S))"

named_theorems saves_rules "handlers that save last thing"

lemma savesD: "saves S m \<Longrightarrow> run_state m d = (Inr x, d') \<Longrightarrow> cipher_ok (w_env (d_world d)) \<Longrightarrow> S d'"
  by (auto simp: saves_def post_def)

lemma saves_failing [saves_rules]: "saves S (fail_mount e)" "saves S (ret (Inl e))"
  by (simp_all add: saves_def post_rules)

lemma saves_bind [saves_rules]:
  assumes "\<And>d0. keeps (d_extends d0) m" and "\<And>a. saves S (f a)"
  shows "saves S (State_Monad.bind m f)"
  unfolding saves_def
proof (intro allI impI post_bind)
  fix d a d1 assume c: "cipher_ok (w_env (d_world d))" and r: "run_state m d = (a, d1)"
  then have "cipher_ok (w_env (d_world d1))" using env_same [OF assms(1) r] by simp
  with assms(2) show "post (f a) d1 (\<lambda>_. S)" by (simp add: saves_def)
qed

lemma saves_cases [saves_rules]:
  "(b \<Longrightarrow> saves S m) \<Longrightarrow> (\<not> b \<Longrightarrow> saves S n) \<Longrightarrow> saves S (if b then m else n)"
  "(\<And>e. saves S (f e)) \<Longrightarrow> (\<And>x. saves S (g x)) \<Longrightarrow> saves S (case s of Inl e \<Rightarrow> f e | Inr x \<Rightarrow> g x)"
  "saves S m \<Longrightarrow> (\<And>y. saves S (h y)) \<Longrightarrow> saves S (case q of None \<Rightarrow> m | Some y \<Rightarrow> h y)"
  "(\<And>y z. saves S (k y z)) \<Longrightarrow> saves S (case p of (y, z) \<Rightarrow> k y z)"
  by (auto split: sum.splits option.splits prod.splits)

lemma saves_put [saves_rules]: "saves saved_nodes (put_or_fail v)"
  unfolding put_or_fail_def saves_def by (intro allI impI post_rules postI) (auto dest: put_saved(1))

lemma saves_put_controller [saves_rules]:
  "saves saved_controllers (do { e \<leftarrow> put_controller cv; case e of Some e \<Rightarrow> fail_mount e | None \<Rightarrow> ret (Inr x) })"
  unfolding saves_def by (intro allI impI post_rules postI) (auto dest: put_saved(2))

lemma saved_nodes_metrics [simp]: "saved_nodes (d\<lparr>d_process := (d_process d)\<lparr>p_metrics := x\<rparr>\<rparr>) = saved_nodes d"
  by (simp add: saved_def the_node_codec_def)

lemma saves_put_count:
  "saves saved_nodes (do { r \<leftarrow> put_or_fail v; case r of Inl e \<Rightarrow> ret (Inl e) | Inr _ \<Rightarrow>
     do { _ \<leftarrow> tick f; _ \<leftarrow> tick g; ret (Inr ()) } })"
  using saves_put [of v] unfolding saves_def post_def
  by (auto split: sum.splits prod.splits)

lemma saves_NodeStageVolume: "saves saved_nodes (NodeStageVolume req)"
  unfolding NodeStageVolume_def stage_dynamic_def prepare_target_def Let_def
  by (intro saves_rules keeps_rules)

lemma saves_NodePublishVolume: "saves saved_nodes (NodePublishVolume req)"
  unfolding NodePublishVolume_def publish_dynamic_def publish_static_def Let_def
  by (intro saves_put_count saves_rules keeps_rules)

lemma saves_CreateVolume: "saves saved_controllers (CreateVolume req)"
  unfolding CreateVolume_def create_and_record_def record_volume_def Let_def
  by (intro saves_put_controller saves_rules keeps_rules)


section \<open>What the next process reads\<close>

definition file_is :: "env \<Rightarrow> string \<Rightarrow> string \<Rightarrow> bool" where
  "file_is e path data \<longleftrightarrow> (\<forall>tr. \<not> isl (e_stat e tr path) \<and> e_read_file e tr path = Inr data)"

lemma file_is_holds: "file_is (w_env w) path data \<Longrightarrow> holds_file w path data"
  by (auto simp: file_is_def holds_file_def split: sum.splits) (metis isl_def sum.disc(2))

text \<open>
  A later start of the driver on the file that was written, with the same keys, the same cipher and the
  same text for connections.
\<close>

definition restarted :: "config \<Rightarrow> string \<Rightarrow> driver \<Rightarrow> string \<Rightarrow> driver \<Rightarrow> bool" where
  "restarted conf file d data d2 \<longleftrightarrow> (\<exists>p p'. NewDriver conf p = (Some d2, p') \<and>
     e_open (w_env (p_world p)) = e_open (w_env (d_world d)) \<and>
     e_conn_json (w_env (p_world p)) = e_conn_json (w_env (d_world d)) \<and>
     file_is (w_env (p_world p)) (save_path (StoragePath conf) file) data \<and>
     mg_encryptKey (d_nodes d2) = mg_encryptKey (d_nodes d) \<and>
     mg_encryptKey (d_controllers d2) = mg_encryptKey (d_controllers d))"

lemma saved_file:
  assumes "saved cd mg d"
  obtains data js where "hd (d_trace d) = EvCall (WriteFile (mg_savefilePath (mg d)) data mode_0644) None"
    and "cd_marshal (cd d) (mg_volumes (mg d)) = Inr js"
    and "if mg_encryptKey (mg d) = [] then data = js
      else decrypt (w_env (d_world d)) data (mg_encryptKey (mg d)) = Some (Inr js)"
  using assms unfolding saved_def by blast

text \<open>The manager that is built on the file, in whatever world holds it.\<close>

lemma saved_read:
  assumes "if mg_encryptKey m = [] then data = js else decrypt e data (mg_encryptKey m) = Some (Inr js)"
    and "cd_marshal cd (mg_volumes m) = Inr js" and "codec_reads_back norm cd (mg_volumes m)"
    and "e_open (w_env w) = e_open e" and "file_is (w_env w) (save_path dir f) data"
    and "run_state (new_manager cd f (mg_encryptKey m) dir) w = (Some m2, w')"
  shows "manager_Get m2 = map_option norm \<circ> manager_Get m"
proof -
  have "if mg_encryptKey m = [] then data = js else decrypt (w_env w) data (mg_encryptKey m) = Some (Inr js)"
    using assms(1) decrypt_env [OF assms(4)] by (simp split: if_splits)
  from new_manager_reads [OF file_is_holds [OF assms(5), unfolded save_path_def] this assms(2,3)] assms(6)
  show ?thesis by (simp add: manager_Get_def fun_eq_iff)
qed

lemma new_manager_key: "run_state (new_manager cd f key dir) w = (Some m, w') \<Longrightarrow> mg_encryptKey m = key"
  by (auto simp: new_manager_def Let_def split: prod.splits option.splits)

text \<open>What a start has done when it came to the two files.\<close>

lemma restarted_parts:
  assumes "restarted conf file d data d2"
  obtains p :: process and w1 w2 :: world where "file_is (w_env (p_world p)) (save_path (StoragePath conf) file) data"
    and "e_open (w_env (p_world p)) = e_open (w_env (d_world d))"
    and "e_conn_json (w_env (p_world p)) = e_conn_json (w_env (d_world d))"
    and "w_env w1 = w_env (p_world p)" and "w_env w2 = w_env (p_world p)" and "w_env (d_world d2) = w_env (p_world p)"
    and "run_state (NewControllerVolumeManager (mg_encryptKey (d_controllers d)) (StoragePath conf)) w1 = (Some (d_controllers d2), w2)"
    and "run_state (NewNodeVolumeManager (mg_encryptKey (d_nodes d)) (StoragePath conf)) w2 = (Some (d_nodes d2), d_world d2)"
proof -
  obtain p p' where p: "NewDriver conf p = (Some d2, p')"
    "e_open (w_env (p_world p)) = e_open (w_env (d_world d))"
    "e_conn_json (w_env (p_world p)) = e_conn_json (w_env (d_world d))"
    "file_is (w_env (p_world p)) (save_path (StoragePath conf) file) data"
    and k: "mg_encryptKey (d_nodes d2) = mg_encryptKey (d_nodes d)"
    "mg_encryptKey (d_controllers d2) = mg_encryptKey (d_controllers d)"
    using assms by (auto simp: restarted_def)
  from p(1) obtain key w1 w2 where st: "run_state (start_secrets conf) (p_world p) = ((d_secrets d2, key), w1)"
    and cm: "run_state (NewControllerVolumeManager key (StoragePath conf)) w1 = (Some (d_controllers d2), w2)"
    and nm: "run_state (NewNodeVolumeManager key (StoragePath conf)) w2 = (Some (d_nodes d2), d_world d2)"
    by (rule NewDriver_parts)
  have key: "key = mg_encryptKey (d_nodes d)" "key = mg_encryptKey (d_controllers d)"
    using cm nm k by (auto simp: NewControllerVolumeManager_def NewNodeVolumeManager_def run_the_env dest!: new_manager_key)
  have "w_env w1 = w_env (p_world p)" "w_env w2 = w_env w1" "w_env (d_world d2) = w_env w2"
    using extendsD [OF keeps_start_secrets st] extendsD [OF keeps_new_managers(1) cm] extendsD [OF keeps_new_managers(2) nm]
    by (simp_all add: extends_env)
  then show thesis using cm nm key p by (intro that [of p w1 w2]) simp_all
qed

lemma restarted_knows:
  assumes "saved_nodes d" and "volumes_ok node_ok (mg_volumes (d_nodes d))"
  obtains data where "hd (d_trace d) = EvCall (WriteFile (mg_savefilePath (d_nodes d)) data mode_0644) None"
    and "\<And>d2. restarted conf ''node_volumes.json'' d data d2 \<Longrightarrow>
      manager_Get (d_nodes d2) = map_option norm_node \<circ> manager_Get (d_nodes d)"
proof -
  obtain data js where s: "hd (d_trace d) = EvCall (WriteFile (mg_savefilePath (d_nodes d)) data mode_0644) None"
    "cd_marshal node_codec (mg_volumes (d_nodes d)) = Inr js"
    "if mg_encryptKey (d_nodes d) = [] then data = js
     else decrypt (w_env (d_world d)) data (mg_encryptKey (d_nodes d)) = Some (Inr js)"
    using saved_file [OF assms(1)] unfolding the_node_codec_def by blast
  have c: "codec_reads_back norm_node node_codec (mg_volumes (d_nodes d))"
    using assms(2) node_json.codec_reads_back by (simp add: volumes_ok_def node_codec_def)
  have "manager_Get (d_nodes d2) = map_option norm_node \<circ> manager_Get (d_nodes d)"
    if "restarted conf ''node_volumes.json'' d data d2" for d2
  proof -
    from that obtain e w where "file_is e (save_path (StoragePath conf) ''node_volumes.json'') data" "w_env w = e"
      "e_open e = e_open (w_env (d_world d))"
      "run_state (NewNodeVolumeManager (mg_encryptKey (d_nodes d)) (StoragePath conf)) w = (Some (d_nodes d2), d_world d2)"
      by (rule restarted_parts) blast
    with saved_read [OF s(3,2) c] show ?thesis unfolding NewNodeVolumeManager_def by blast
  qed
  with s(1) that show thesis by blast
qed

lemma restarted_knows_controllers:
  assumes "saved_controllers d" and "volumes_ok (controller_ok (e_conn_json (w_env (d_world d)))) (mg_volumes (d_controllers d))"
  obtains data where "hd (d_trace d) = EvCall (WriteFile (mg_savefilePath (d_controllers d)) data mode_0644) None"
    and "\<And>d2. restarted conf ''controller_volumes.json'' d data d2 \<Longrightarrow> manager_Get (d_controllers d2) = manager_Get (d_controllers d)"
proof -
  let ?cd = "controller_codec (e_conn_json (w_env (d_world d)))"
  obtain data js where s: "hd (d_trace d) = EvCall (WriteFile (mg_savefilePath (d_controllers d)) data mode_0644) None"
    "cd_marshal ?cd (mg_volumes (d_controllers d)) = Inr js"
    "if mg_encryptKey (d_controllers d) = [] then data = js
     else decrypt (w_env (d_world d)) data (mg_encryptKey (d_controllers d)) = Some (Inr js)"
    using saved_file [OF assms(1)] unfolding the_controller_codec_def by blast
  have c: "codec_reads_back id ?cd (mg_volumes (d_controllers d))"
    using assms(2) controller_json.codec_reads_back by (simp add: volumes_ok_def controller_codec_def)
  have "manager_Get (d_controllers d2) = map_option id \<circ> manager_Get (d_controllers d)"
    if "restarted conf ''controller_volumes.json'' d data d2" for d2
  proof -
    from that obtain e w w' where "file_is e (save_path (StoragePath conf) ''controller_volumes.json'') data" "w_env w = e"
      "e_open e = e_open (w_env (d_world d))" "e_conn_json e = e_conn_json (w_env (d_world d))"
      "run_state (NewControllerVolumeManager (mg_encryptKey (d_controllers d)) (StoragePath conf)) w = (Some (d_controllers d2), w')"
      by (rule restarted_parts) blast
    with saved_read [OF s(3,2) c] show ?thesis unfolding NewControllerVolumeManager_def by (auto simp: run_the_env)
  qed
  with s(1) that show thesis by (simp add: option.map_id0)
qed


section \<open>Staging, creating and deleting across a restart\<close>

lemma stage_restart:
  assumes "go_map_ok (st_VolumeContext req)" and "isDynamicVolumeProvisioningMode (st_VolumeContext req)"
    and "run_state (NodeStageVolume req) d = (Inr (), d')" and "cipher_ok (w_env (d_world d))"
    and "volumes_ok node_ok (mg_volumes (d_nodes d'))"
  shows "\<exists>data. hd (d_trace d') = EvCall (WriteFile (mg_savefilePath (d_nodes d')) data mode_0644) None \<and>
    (\<forall>d2. restarted conf ''node_volumes.json'' d' data d2 \<longrightarrow>
       manager_Get (d_nodes d2) = map_option norm_node \<circ> manager_Get (d_nodes d') \<and>
       staged (st_VolumeId req) (st_StagingTargetPath req) d2)"
proof -
  have s: "saved_nodes d'" by (rule savesD [OF saves_NodeStageVolume assms(3,4)])
  have t: "staged (st_VolumeId req) (st_StagingTargetPath req) d'"
    using postD [OF NodeStageVolume_dynamic [OF assms(1,2)] assms(3)] by simp
  obtain data where "hd (d_trace d') = EvCall (WriteFile (mg_savefilePath (d_nodes d')) data mode_0644) None"
    and r: "\<And>d2. restarted conf ''node_volumes.json'' d' data d2 \<Longrightarrow>
      manager_Get (d_nodes d2) = map_option norm_node \<circ> manager_Get (d_nodes d')"
    by (rule restarted_knows [OF s assms(5)]) blast
  moreover have "staged (st_VolumeId req) (st_StagingTargetPath req) d2" if "restarted conf ''node_volumes.json'' d' data d2" for d2
    using t r [OF that] by (auto simp: staged_def norm_node_def split: option.splits)
  ultimately show ?thesis by blast
qed

text \<open>Deleting a volume with success removes its collection, unless its data is retained.\<close>

lemma irods_Rmdir_ok:
  "run_state (irods_Rmdir ci p) w = (None, w') \<Longrightarrow> EvCall (IrodsRemoveDir p True True) None \<in> set (w_trace w')"
  by (auto simp: irods_Rmdir_def with_irods_fs_def run_os_call Let_def split: option.splits)

lemma pop_controller_result:
  "run_state (pop_controller k) d = ((q, e), d') \<Longrightarrow> q = manager_Get (d_controllers d) k"
  by (auto simp: pop_controller_def split: prod.splits dest: controllers.pop_result)

lemma DeleteVolume_removes:
  assumes "run_state (DeleteVolume k) d = (Inr (), d')" and "manager_Get (d_controllers d) k = Some v" and "\<not> cv_RetainData v"
  shows "EvCall (IrodsRemoveDir (cv_Path v) True True) None \<in> set (d_trace d')"
proof -
  obtain q e d1 where p: "run_state (pop_controller k) d = ((q, e), d1)" by (metis surj_pair)
  with pop_controller_result [OF p] assms show ?thesis
    by (auto simp: DeleteVolume_def irods_Rmdir_ok split: if_splits option.splits prod.splits)
qed

lemma create_restart:
  assumes "go_map_ok (cr_Parameters req)"
    and "run_state (CreateVolume req) d = (Inr vol, d')" and "cipher_ok (w_env (d_world d))"
    and "volumes_ok (controller_ok (e_conn_json (w_env (d_world d')))) (mg_volumes (d_controllers d'))"
  shows "\<exists>data v. hd (d_trace d') = EvCall (WriteFile (mg_savefilePath (d_controllers d')) data mode_0644) None \<and>
    stored_volume req vol d' v \<and>
    (\<forall>d2 d3. restarted conf ''controller_volumes.json'' d' data d2 \<longrightarrow>
       manager_Get (d_controllers d2) = manager_Get (d_controllers d') \<and>
       (run_state (DeleteVolume (csi_VolumeId vol)) d2 = (Inr (), d3) \<longrightarrow> \<not> cv_RetainData v \<longrightarrow>
          EvCall (IrodsRemoveDir (cv_Path v) True True) None \<in> set (d_trace d3)))"
proof -
  have s: "saved_controllers d'" by (rule savesD [OF saves_CreateVolume assms(2,3)])
  obtain v where v: "stored_volume req vol d' v" using postD [OF CreateVolume_ok [OF assms(1)] assms(2)] by blast
  obtain data where "hd (d_trace d') = EvCall (WriteFile (mg_savefilePath (d_controllers d')) data mode_0644) None"
    and r: "\<And>d2. restarted conf ''controller_volumes.json'' d' data d2 \<Longrightarrow>
      manager_Get (d_controllers d2) = manager_Get (d_controllers d')"
    by (rule restarted_knows_controllers [OF s assms(4)]) blast
  moreover have "EvCall (IrodsRemoveDir (cv_Path v) True True) None \<in> set (d_trace d3)"
    if "restarted conf ''controller_volumes.json'' d' data d2" "run_state (DeleteVolume (csi_VolumeId vol)) d2 = (Inr (), d3)"
      "\<not> cv_RetainData v" for d2 d3
    using DeleteVolume_removes [OF that(2) _ that(3)] r [OF that(1)] v by (simp add: stored_volume_def)
  ultimately show ?thesis using v by blast
qed

text \<open>
  Such a restart can be made: a world that holds the file and lets the driver read its secrets and the
  other file starts one, with the records.
\<close>

lemma new_manager_starts:
  assumes "holds_file w (JoinPath [if dir = [] then ''/'' else dir, fileName]) data" and "key = [] \<or> nonceSize \<le> length data"
  shows "fst (run_state (new_manager cd fileName key dir) w) \<noteq> None"
proof -
  obtain dev where "e_stat (w_env w) (w_trace w) (JoinPath [if dir = [] then ''/'' else dir, fileName]) = Inr dev"
    "e_read_file (w_env w) (EvStat (JoinPath [if dir = [] then ''/'' else dir, fileName]) (Inr dev) # w_trace w)
       (JoinPath [if dir = [] then ''/'' else dir, fileName]) = Inr data"
    using assms(1) by (auto simp: holds_file_def split: sum.splits)
  with assms(2) show ?thesis
    by (auto simp: new_manager_def manager_load_def run_rules Let_def load_encrypted_def decrypt_def split: sum.splits prod.splits)
qed

lemma saved_long:
  assumes "saved cd mg d" and "hd (d_trace d) = EvCall (WriteFile (mg_savefilePath (mg d)) data mode_0644) None"
  shows "mg_encryptKey (mg d) = [] \<or> nonceSize \<le> length data"
  using assms by (auto simp: saved_def decrypt_def split: if_splits)

lemma restart_possible:
  fixes p :: process
  assumes "run_state (start_secrets conf) (p_world p) = ((secrets, mg_encryptKey (d_nodes d)), w1)"
    and "mg_encryptKey (d_controllers d) = mg_encryptKey (d_nodes d)"
    and "run_state (NewControllerVolumeManager (mg_encryptKey (d_nodes d)) (StoragePath conf)) w1 = (Some cm, w2)"
    and "saved_nodes d" and "hd (d_trace d) = EvCall (WriteFile (mg_savefilePath (d_nodes d)) data mode_0644) None"
    and "e_open (w_env (p_world p)) = e_open (w_env (d_world d))"
    and "e_conn_json (w_env (p_world p)) = e_conn_json (w_env (d_world d))"
    and "file_is (w_env (p_world p)) (save_path (StoragePath conf) ''node_volumes.json'') data"
  shows "\<exists>d2. restarted conf ''node_volumes.json'' d data d2"
proof -
  have e: "w_env w2 = w_env (p_world p)"
    using extendsD [OF keeps_start_secrets assms(1)] extendsD [OF keeps_new_managers(1) assms(3)] by (simp add: extends_env)
  have "fst (run_state (NewNodeVolumeManager (mg_encryptKey (d_nodes d)) (StoragePath conf)) w2) \<noteq> None"
    unfolding NewNodeVolumeManager_def
    by (rule new_manager_starts [OF file_is_holds [OF assms(8) [folded e], unfolded save_path_def] saved_long [OF assms(4,5)]])
  then obtain nm w3 where n: "run_state (NewNodeVolumeManager (mg_encryptKey (d_nodes d)) (StoragePath conf)) w2 = (Some nm, w3)"
    by (metis option.exhaust prod.exhaust_sel)
  let ?p = "p\<lparr>p_world := w3\<rparr>"
  have "NewDriver conf p = (Some \<lparr>d_process = ?p, d_config = conf, d_secrets = secrets, d_controllers = cm, d_nodes = nm\<rparr>, ?p)"
    using assms(1,3) n by (simp add: NewDriver_def start_parts_def Let_def)
  moreover have "mg_encryptKey nm = mg_encryptKey (d_nodes d)"
    using n by (simp add: NewNodeVolumeManager_def new_manager_key)
  moreover have "mg_encryptKey cm = mg_encryptKey (d_nodes d)"
    using assms(3) by (simp add: NewControllerVolumeManager_def run_the_env new_manager_key)
  ultimately show ?thesis using assms(2,6,7,8) unfolding restarted_def by fastforce
qed

end
