(* ===== verification/Version.thy ===== *)
theory Version
  imports Go_Json
begin

text \<open>
  pkg/common/version.go: what the driver knows of its own build. The variables set at link time and the
  constants of the runtime package are the record \<open>build\<close>.
\<close>

record build =
  driverVersion :: string
  gitCommit :: string
  buildDate :: string
  runtime_Version :: string
  runtime_Compiler :: string
  runtime_GOOS :: string
  runtime_GOARCH :: string

record VersionInfo =
  DriverVersion :: string
  GitCommit :: string
  BuildDate :: string
  GoVersion :: string
  Compiler :: string
  Platform :: string

definition GetVersion :: "build \<Rightarrow> VersionInfo" where
  "GetVersion b = \<lparr>DriverVersion = driverVersion b, GitCommit = gitCommit b, BuildDate = buildDate b,
     GoVersion = runtime_Version b, Compiler = runtime_Compiler b, Platform = runtime_GOOS b @ ''/'' @ runtime_GOARCH b\<rparr>"

definition GetDriverVersion :: "build \<Rightarrow> string" where
  "GetDriverVersion b = driverVersion b"

definition json_version :: "VersionInfo \<Rightarrow> json" where
  "json_version v = JObject
     [(''driverVersion'', JString (DriverVersion v)), (''gitCommit'', JString (GitCommit v)),
      (''buildDate'', JString (BuildDate v)), (''goVersion'', JString (GoVersion v)),
      (''compiler'', JString (Compiler v)), (''platform'', JString (Platform v))]"

text \<open>Strings always have a text, so \<open>MarshalIndent\<close> gives no error.\<close>

definition GetVersionJSON :: "build \<Rightarrow> string" where
  "GetVersionJSON b = json_indented (json_version (GetVersion b))"

text \<open>What is printed is read back as the version, where the build's texts are in UTF-8.\<close>

definition build_ok :: "build \<Rightarrow> bool" where
  "build_ok b \<longleftrightarrow> list_all utf8 [driverVersion b, gitCommit b, buildDate b, runtime_Version b, runtime_Compiler b,
     runtime_GOOS b @ ''/'' @ runtime_GOARCH b]"

lemma version_printed:
  assumes "build_ok b"
  shows "json_parse (GetVersionJSON b) = Some (json_version (GetVersion b))"
proof -
  have "list_all utf8 [''driverVersion'', ''gitCommit'', ''buildDate'', ''goVersion'', ''compiler'', ''platform'']"
    by code_simp
  moreover have "max_depth = Suc (max_depth - 1)" by (simp add: max_depth_def)
  ultimately have "json_ok max_depth (json_version (GetVersion b))"
    using assms by (simp add: json_version_def GetVersion_def build_ok_def split: nat.split)
  then show ?thesis unfolding GetVersionJSON_def by (rule json_parse_indented)
qed

end
