(* ===== verification/Csi_Rpc.thy ===== *)
theory Csi_Rpc
  imports Startup Version
begin

text \<open>
  All calls of the three CSI services that \<open>Run\<close> registers (pkg/driver: identity.go, controller.go, node.go).
  Theory Service has the six that change something; here they are joined with those that only answer
  and those that are not implemented.
\<close>

datatype identity_rpc = Plugin_info | Plugin_capabilities | Probe

datatype rpc =
    Changing request
  | Identity identity_rpc
  | Validate_capabilities string "volume_capability list"
  | Controller_capabilities
  | Controller_missing controller_rpc
  | Node_capabilities
  | Node_info
  | Node_missing node_rpc

datatype reply =
    Changed response
  | Plugin string string
  | Plugin_can "plugin_capability list"
  | Ready
  | Confirmed "volume_capability list option"
  | Controller_can "controller_capability list"
  | Node_can "node_capability list"
  | Node_is string
  | Nothing

text \<open>A call that changes nothing: its answer from the version and the configuration.\<close>

fun reading :: "string \<Rightarrow> config \<Rightarrow> rpc \<Rightarrow> go_error + reply" where
  "reading version cfg (Identity Plugin_info) = Inr (Plugin (fst (GetPluginInfo version)) (snd (GetPluginInfo version)))"
| "reading version cfg (Identity Plugin_capabilities) = Inr (Plugin_can GetPluginCapabilities)"
| "reading version cfg (Identity Probe) = Inr Ready"
| "reading version cfg (Validate_capabilities volID volCaps) = map_sum id Confirmed (ValidateVolumeCapabilities volID volCaps)"
| "reading version cfg Controller_capabilities = Inr (Controller_can ControllerGetCapabilities)"
| "reading version cfg (Controller_missing r) = map_sum id (\<lambda>_. Nothing) (controller_unimplemented r)"
| "reading version cfg Node_capabilities = Inr (Node_can NodeGetCapabilities)"
| "reading version cfg Node_info = Inr (Node_is (NodeGetInfo cfg))"
| "reading version cfg (Node_missing r) = map_sum id (\<lambda>_. Nothing) (node_unimplemented r)"
| "reading version cfg (Changing req) = Inr Nothing"

definition handle :: "string \<Rightarrow> rpc \<Rightarrow> (go_error + reply) op" where
  "handle version r =
     (case r of
        Changing req \<Rightarrow> do { x \<leftarrow> serve req; ret (map_sum id Changed x) }
      | _ \<Rightarrow> do { cfg \<leftarrow> gets d_config; ret (reading version cfg r) })"

lemma handle_Changing: "handle version (Changing req) = do { x \<leftarrow> serve req; ret (map_sum id Changed x) }"
  by (simp add: handle_def)

fun reads :: "rpc \<Rightarrow> bool" where
  "reads (Changing req) = False" | "reads r = True"

lemma handle_reading: "reads r \<Longrightarrow> run_state (handle version r) d = (reading version (d_config d) r, d)"
  by (cases r) (simp_all add: handle_def)

text \<open>The dispatcher of all calls has the contract of a service, and removes only what was made.\<close>

lemma keeps_handle:
  assumes "\<And>req. keeps P (serve req)"
  shows "keeps P (handle version r)"
  using assms by (cases r) (auto simp: handle_def intro!: keeps_bind keeps_return keeps_gets)

interpretation rpc: driver_service "handle version" for version
  by unfold_locales (auto intro: keeps_handle service.handle_inv service.handle_extends)

lemma keeps_removals_rpc: "keeps removals_ok (run_all (handle version) rs)"
  by (induction rs) (auto intro: keeps_bind keeps_return keeps_handle keeps_removals_serve)

text \<open>What is not implemented says so, on every node and controller call that is.\<close>

definition unimplemented :: "rpc \<Rightarrow> bool" where
  "unimplemented r \<longleftrightarrow> (\<exists>x. r = Controller_missing x) \<or> (\<exists>x. r = Node_missing x)"

lemma unimplemented_answer:
  "unimplemented r \<Longrightarrow> run_state (handle version r) d = (Inl (StatusErr Unimplemented [] []), d)"
  by (auto simp: unimplemented_def handle_reading controller_unimplemented_def node_unimplemented_def)

text \<open>
  The state after any calls is that after the changing ones among them, and the answers of those are
  the same: reading between them makes no difference.
\<close>

fun changing :: "rpc list \<Rightarrow> request list" where
  "changing [] = []"
| "changing (Changing req # rs) = req # changing rs"
| "changing (r # rs) = changing rs"

lemma changing_other: "reads r \<Longrightarrow> changing (r # rs) = changing rs"
  by (cases r) simp_all

lemma run_all_changing:
  "snd (run_state (run_all (handle version) rs) d) = snd (run_state (run_all serve (changing rs)) d)"
proof (induction rs arbitrary: d)
  case (Cons r rs)
  show ?case
  proof (cases "reads r")
    case True
    with Cons [of d] show ?thesis by (simp add: handle_reading changing_other case_prod_beta)
  next
    case False
    then obtain req where "r = Changing req" by (cases r) auto
    with Cons show ?thesis by (simp add: handle_Changing case_prod_beta)
  qed
qed simp

text \<open>A first start, then any calls.\<close>

lemma fresh_calls:
  assumes "fresh_process conf p" and "NewDriver conf p = (Some d, p')"
    and "run_state (run_all (handle version) rs) d = (xs, d')"
  shows "driver_inv (e_lib (w_env (p_world p))) d'" and "d_extends d d'" and "removals_ok d'"
    and "length xs = length rs"
proof -
  note i = fresh_start [OF assms(1,2)]
  show "driver_inv (e_lib (w_env (p_world p))) d'" and "d_extends d d'" and "length xs = length rs"
    using rpc.run_all_spec [OF assms(3) i(1)] by blast+
  show "removals_ok d'" using keepsD [OF keeps_removals_rpc i(2)] assms(3) by (metis snd_conv)
qed

end
