(* ===== verification/Go_Flags.thy ===== *)
theory Go_Flags
  imports Config Errors
begin

text \<open>
  The flags of cmd/main.go and how Go's flag package reads them from the command line: a flag is
  \<open>-name\<close> or \<open>--name\<close>, its value follows \<open>=\<close> or is the next argument, a boolean flag needs none, and the
  first argument that is no flag, or \<open>--\<close>, ends the flags. An error ends the program. The flags that
  klog registers beside them are a parameter.
\<close>

section \<open>strconv.ParseInt with base 0\<close>

datatype num_error = ErrSyntax | ErrRange

definition max_uint64 :: int where
  "max_uint64 = 18446744073709551615"

definition is_alpha :: "char \<Rightarrow> bool" where
  "is_alpha c \<longleftrightarrow> (let n = (of_char c :: nat) in 65 \<le> n \<and> n \<le> 90 \<or> 97 \<le> n \<and> n \<le> 122)"

definition alpha_val :: "char \<Rightarrow> int" where
  "alpha_val c = (let n = (of_char c :: nat) in if n \<le> 90 then int n - 55 else int n - 87)"

definition base_digit :: "char \<Rightarrow> int option" where
  "base_digit c = (if is_digit c then Some (digit_val c) else if is_alpha c then Some (alpha_val c) else None)"

text \<open>The loop of \<open>ParseUint\<close>, with whether an underscore was seen.\<close>

fun uint_loop :: "int \<Rightarrow> string \<Rightarrow> int \<Rightarrow> bool \<Rightarrow> num_error + int \<times> bool" where
  "uint_loop b [] n u = Inr (n, u)"
| "uint_loop b (c # cs) n u =
     (if c = CHR ''_'' then uint_loop b cs n True
      else case base_digit c of
             None \<Rightarrow> Inl ErrSyntax
           | Some d \<Rightarrow>
               if d \<ge> b then Inl ErrSyntax
               else if n \<ge> max_uint64 div b + 1 then Inl ErrRange
               else if n * b + d > max_uint64 then Inl ErrRange
               else uint_loop b cs (n * b + d) u)"

definition base_prefix :: "string \<Rightarrow> int \<times> string" where
  "base_prefix s =
     (if hd s \<noteq> CHR ''0'' then (10, s)
      else if length s \<ge> 3 \<and> s ! 1 \<in> set ''bB'' then (2, drop 2 s)
      else if length s \<ge> 3 \<and> s ! 1 \<in> set ''oO'' then (8, drop 2 s)
      else if length s \<ge> 3 \<and> s ! 1 \<in> set ''xX'' then (16, drop 2 s)
      else (8, drop 1 s))"

text \<open>\<open>underscoreOK\<close>: underscores stand between digits, or between the prefix of a base and a digit.\<close>

datatype saw = Saw_start | Saw_digit | Saw_underscore | Saw_other

fun underscore_loop :: "bool \<Rightarrow> saw \<Rightarrow> string \<Rightarrow> bool" where
  "underscore_loop hex saw [] = (saw \<noteq> Saw_underscore)"
| "underscore_loop hex saw (c # cs) =
     (if is_digit c \<or> hex \<and> is_alpha c \<and> alpha_val c < 16 then underscore_loop hex Saw_digit cs
      else if c = CHR ''_'' then saw = Saw_digit \<and> underscore_loop hex Saw_underscore cs
      else saw \<noteq> Saw_underscore \<and> underscore_loop hex Saw_other cs)"

definition underscoreOK :: "string \<Rightarrow> bool" where
  "underscoreOK s =
     (let s = (if s \<noteq> [] \<and> hd s \<in> set ''-+'' then tl s else s)
      in if length s \<ge> 2 \<and> hd s = CHR ''0'' \<and> s ! 1 \<in> set ''bBoOxX''
         then underscore_loop (s ! 1 \<in> set ''xX'') Saw_digit (drop 2 s)
         else underscore_loop False Saw_start s)"

definition ParseUint :: "string \<Rightarrow> num_error + int" where
  "ParseUint s =
     (if s = [] then Inl ErrSyntax
      else let (b, ds) = base_prefix s
           in case uint_loop b ds 0 False of
                Inl e \<Rightarrow> Inl e
              | Inr (n, u) \<Rightarrow> if u \<and> \<not> underscoreOK s then Inl ErrSyntax else Inr n)"

definition ParseInt :: "string \<Rightarrow> num_error + int" where
  "ParseInt s =
     (if s = [] then Inl ErrSyntax
      else let neg = (hd s = CHR ''-''); ds = (if hd s \<in> set ''-+'' then tl s else s)
           in case ParseUint ds of
                Inl e \<Rightarrow> Inl e
              | Inr un \<Rightarrow>
                  if \<not> neg \<and> un > max_int64 then Inl ErrRange
                  else if neg \<and> un > max_int64 + 1 then Inl ErrRange
                  else Inr (if neg then - un else un))"

text \<open>What \<open>%d\<close> prints is read back.\<close>

lemma foldl_digits_ge: "list_all is_digit s \<Longrightarrow> 0 \<le> n \<Longrightarrow> n \<le> foldl (\<lambda>a c. 10 * a + digit_val c) n s"
proof (induction s arbitrary: n)
  case (Cons c s)
  then have d: "0 \<le> digit_val c" by (simp add: is_digit_def digit_val_def Let_def)
  with Cons have "10 * n + digit_val c \<le> foldl (\<lambda>a c. 10 * a + digit_val c) (10 * n + digit_val c) s" by simp
  with d Cons.prems(2) show ?case by simp
qed simp

lemma uint_loop_digits:
  "list_all is_digit s \<Longrightarrow> 0 \<le> n \<Longrightarrow> foldl (\<lambda>a c. 10 * a + digit_val c) n s \<le> max_uint64 \<Longrightarrow>
     uint_loop 10 s n u = Inr (foldl (\<lambda>a c. 10 * a + digit_val c) n s, u)"
proof (induction s arbitrary: n)
  case (Cons c s)
  have c: "c \<noteq> CHR ''_''" "0 \<le> digit_val c" "digit_val c < 10" "base_digit c = Some (digit_val c)"
    using Cons.prems(1) by (auto simp: is_digit_def digit_val_def base_digit_def Let_def)
  have "10 * n + digit_val c \<le> foldl (\<lambda>a c. 10 * a + digit_val c) (10 * n + digit_val c) s"
    using Cons.prems c by (intro foldl_digits_ge) auto
  with Cons.prems have m: "10 * n + digit_val c \<le> max_uint64" by simp
  with c have "\<not> n \<ge> max_uint64 div 10 + 1" by (simp add: max_uint64_def)
  with Cons c m show ?case by (simp add: mult.commute)
qed simp

lemma nat_digits_hd: "0 < n \<Longrightarrow> hd (nat_digits n) \<noteq> CHR ''0''"
proof (induction n rule: nat_digits.induct)
  case (1 n)
  show ?case
  proof (cases "n < 10")
    case True
    with 1(2) have "of_char (char_of (48 + n) :: char) \<noteq> (of_char (CHR ''0'') :: nat)" by simp
    then have "char_of (48 + n) \<noteq> CHR ''0''" by metis
    with True show ?thesis by (subst nat_digits.simps) simp
  next
    case False
    with 1 show ?thesis by (subst nat_digits.simps) simp
  qed
qed

lemma ParseUint_nat_digits: "int n \<le> max_uint64 \<Longrightarrow> ParseUint (nat_digits n) = Inr (int n)"
proof (cases "n = 0")
  case True
  moreover have "nat_digits 0 = ''0''" by code_simp
  ultimately have "nat_digits n = ''0''" by simp
  with True show ?thesis by (simp add: ParseUint_def base_prefix_def)
next
  case False
  assume m: "int n \<le> max_uint64"
  have d: "foldl (\<lambda>a c. 10 * a + digit_val c) 0 (nat_digits n) = int n"
    using digits_val_nat_digits [of n] by (simp add: digits_val_def)
  from False show ?thesis
    using uint_loop_digits [OF nat_digits_digit, of 0 n False, unfolded d] m nat_digits_hd [of n]
    by (simp add: ParseUint_def base_prefix_def)
qed

lemma ParseInt_Itoa: "min_int64 \<le> n \<Longrightarrow> n \<le> max_int64 \<Longrightarrow> ParseInt (Itoa n) = Inr n"
proof -
  assume r: "min_int64 \<le> n" "n \<le> max_int64"
  have h: "hd (nat_digits m) \<noteq> CHR ''-''" "hd (nat_digits m) \<notin> set ''-+''" for m
    using nat_digits_digit [of m] not_digit_sign [of "hd (nat_digits m)"]
    by (simp_all add: list_all_iff)
  have p: "ParseUint (nat_digits m) = Inr (int m)" if "int m \<le> max_int64 + 1" for m
    using that by (intro ParseUint_nat_digits) (simp add: max_uint64_def max_int64_def)
  show ?thesis
  proof (cases "n < 0")
    case True
    with r p [of "nat (- n)"] show ?thesis by (simp add: ParseInt_def Itoa_def min_int64_def max_int64_def)
  next
    case False
    with r p [of "nat n"] h [of "nat n"] show ?thesis by (simp add: ParseInt_def Itoa_def)
  qed
qed


section \<open>The flags\<close>

record command_line =
  cl_config :: config
  cl_version :: bool

text \<open>The flags' defaults.\<close>

definition flag_defaults :: command_line where
  "flag_defaults = \<lparr>cl_config = \<lparr>Endpoint = ''unix:///tmp/csi.sock'', NodeID = [], SecretPath = ''/etc/irods-csi-dirver'',
     PoolServiceEndpoint = ''unix:///tmp/poolsock'', PrometheusExporterPort = 12022, StoragePath = ''/storage''\<rparr>,
     cl_version = False\<rparr>"

text \<open>A flag of klog: whether it is boolean, and the error of setting it.\<close>

record klog_flag =
  kf_bool :: bool
  kf_set :: "string \<Rightarrow> go_error option"

type_synonym klog_flags = "string \<Rightarrow> klog_flag option"

definition num_error :: "num_error \<Rightarrow> go_error" where
  "num_error e = (case e of ErrSyntax \<Rightarrow> ExtErr ''parse error'' | ErrRange \<Rightarrow> ExtErr ''value out of range'')"

text \<open>The setters, by name: whether the flag is boolean, and the effect or the error of a value.\<close>

definition formal :: "klog_flags \<Rightarrow> string \<Rightarrow> (bool \<times> (string \<Rightarrow> command_line \<Rightarrow> go_error + command_line)) option" where
  "formal klog name =
     (if name = ''endpoint'' then Some (False, \<lambda>s cl. Inr (cl\<lparr>cl_config := (cl_config cl)\<lparr>Endpoint := s\<rparr>\<rparr>))
      else if name = ''nodeid'' then Some (False, \<lambda>s cl. Inr (cl\<lparr>cl_config := (cl_config cl)\<lparr>NodeID := s\<rparr>\<rparr>))
      else if name = ''secretpath'' then Some (False, \<lambda>s cl. Inr (cl\<lparr>cl_config := (cl_config cl)\<lparr>SecretPath := s\<rparr>\<rparr>))
      else if name = ''poolservice'' then Some (False, \<lambda>s cl. Inr (cl\<lparr>cl_config := (cl_config cl)\<lparr>PoolServiceEndpoint := s\<rparr>\<rparr>))
      else if name = ''prometheus_exporter_port'' then
        Some (False, \<lambda>s cl. case ParseInt s of
          Inl e \<Rightarrow> Inl (num_error e) | Inr n \<Rightarrow> Inr (cl\<lparr>cl_config := (cl_config cl)\<lparr>PrometheusExporterPort := n\<rparr>\<rparr>))
      else if name = ''storagepath'' then Some (False, \<lambda>s cl. Inr (cl\<lparr>cl_config := (cl_config cl)\<lparr>StoragePath := s\<rparr>\<rparr>))
      else if name = ''version'' then
        Some (True, \<lambda>s cl. case ParseBool s of None \<Rightarrow> Inl (num_error ErrSyntax) | Some b \<Rightarrow> Inr (cl\<lparr>cl_version := b\<rparr>))
      else map_option (\<lambda>f. (kf_bool f, \<lambda>s cl. case kf_set f s of Some e \<Rightarrow> Inl e | None \<Rightarrow> Inr cl)) (klog name))"


section \<open>flag.Parse\<close>

datatype argument = Not_a_flag | Terminator | Bad_syntax | Flag string "string option"

definition read_argument :: "string \<Rightarrow> argument" where
  "read_argument s =
     (if length s < 2 \<or> hd s \<noteq> CHR ''-'' then Not_a_flag
      else if s = ''--'' then Terminator
      else let name = drop (if s ! 1 = CHR ''-'' then 2 else 1) s
           in if name = [] \<or> hd name = CHR ''-'' \<or> hd name = CHR ''='' then Bad_syntax
              else let n = takeWhile (\<lambda>c. c \<noteq> CHR ''='') name; v = drop (length n) name
                   in Flag n (if v = [] then None else Some (tl v)))"

text \<open>\<open>ErrHelp\<close> ends the program with code 0, any other error with 2.\<close>

datatype flag_error = ErrHelp | Flag_error string "fmt_arg list"

fun parse_flags :: "klog_flags \<Rightarrow> string list \<Rightarrow> command_line \<Rightarrow> flag_error + command_line \<times> string list" where
  "parse_flags klog [] cl = Inr (cl, [])"
| "parse_flags klog (s # args) cl =
     (case read_argument s of
        Not_a_flag \<Rightarrow> Inr (cl, s # args)
      | Terminator \<Rightarrow> Inr (cl, args)
      | Bad_syntax \<Rightarrow> Inl (Flag_error ''bad flag syntax: %s'' [AStr s])
      | Flag name value \<Rightarrow>
          (case formal klog name of
             None \<Rightarrow>
               if name = ''help'' \<or> name = ''h'' then Inl ErrHelp
               else Inl (Flag_error ''flag provided but not defined: -%s'' [AStr name])
           | Some (True, set_flag) \<Rightarrow>
               (case value of
                  Some v \<Rightarrow>
                    (case set_flag v cl of
                       Inl e \<Rightarrow> Inl (Flag_error ''invalid boolean value %q for -%s: %v'' [AStr v, AStr name, AErr e])
                     | Inr cl \<Rightarrow> parse_flags klog args cl)
                | None \<Rightarrow>
                    (case set_flag ''true'' cl of
                       Inl e \<Rightarrow> Inl (Flag_error ''invalid boolean flag %s: %v'' [AStr name, AErr e])
                     | Inr cl \<Rightarrow> parse_flags klog args cl))
           | Some (False, set_flag) \<Rightarrow>
               (case value of
                  Some v \<Rightarrow>
                    (case set_flag v cl of
                       Inl e \<Rightarrow> Inl (Flag_error ''invalid value %q for flag -%s: %v'' [AStr v, AStr name, AErr e])
                     | Inr cl \<Rightarrow> parse_flags klog args cl)
                | None \<Rightarrow>
                    (case args of
                       [] \<Rightarrow> Inl (Flag_error ''flag needs an argument: -%s'' [AStr name])
                     | v # args \<Rightarrow>
                         (case set_flag v cl of
                            Inl e \<Rightarrow> Inl (Flag_error ''invalid value %q for flag -%s: %v'' [AStr v, AStr name, AErr e])
                          | Inr cl \<Rightarrow> parse_flags klog args cl)))))"


section \<open>A command line for every configuration\<close>

definition flag_with :: "string \<Rightarrow> string \<Rightarrow> string" where
  "flag_with name v = ''-'' @ name @ ''='' @ v"

definition command_line_of :: "config \<Rightarrow> string list" where
  "command_line_of c =
     [flag_with ''endpoint'' (Endpoint c), flag_with ''nodeid'' (NodeID c), flag_with ''secretpath'' (SecretPath c),
      flag_with ''poolservice'' (PoolServiceEndpoint c),
      flag_with ''prometheus_exporter_port'' (Itoa (PrometheusExporterPort c)), flag_with ''storagepath'' (StoragePath c)]"

lemma read_flag_with:
  assumes "name \<noteq> []" and "hd name \<noteq> CHR ''-''" and "CHR ''='' \<notin> set name"
  shows "read_argument (flag_with name v) = Flag name (Some v)"
proof -
  have "takeWhile (\<lambda>c. c \<noteq> CHR ''='') (name @ CHR ''='' # v) = name"
    using assms(3) by (subst takeWhile_append2) auto
  with assms show ?thesis
    by (cases name) (auto simp: read_argument_def flag_with_def Let_def simp del: takeWhile_append)
qed

text \<open>Every configuration is read from its command line, whatever stands before that sets no other flag.\<close>

lemma parse_command_line:
  assumes "min_int64 \<le> PrometheusExporterPort c" and "PrometheusExporterPort c \<le> max_int64"
  shows "parse_flags klog (command_line_of c) cl = Inr (cl\<lparr>cl_config := c\<rparr>, [])"
  by (simp add: command_line_of_def read_flag_with formal_def ParseInt_Itoa [OF assms])

text \<open>After \<open>--\<close> nothing is read.\<close>

lemma parse_terminated: "parse_flags klog (''--'' # args) cl = Inr (cl, args)"
  by (simp add: read_argument_def)

end
