(* ===== verification/Main_Program.thy ===== *)
theory Main_Program
  imports Csi_Rpc Go_Flags
begin

text \<open>
  cmd/main.go and the serving part of pkg/driver/driver.go: the process from its command line to its
  exit. The sockets are left out: whether the listener can be opened, which calls come and how the
  server ends are inputs. The exporter of the metrics is started in a goroutine of its own; whether it
  has set its variable when \<open>main\<close> reads it is an input, too. The constructors of the managers return no
  error, so \<open>NewDriver\<close> has none to pass on.
\<close>

section \<open>Run and Stop\<close>

text \<open>\<open>logErr\<close>, the interceptor: the handler's answer, its error logged; the log is kept beside the driver.\<close>

definition logErr :: "(rpc \<Rightarrow> (go_error + reply) op) \<Rightarrow> rpc \<Rightarrow> (driver \<times> go_error list, go_error + reply) state" where
  "logErr handler req = do {
     resp \<leftarrow> zoom fst (\<lambda>d x. (d, snd x)) (handler req);
     case resp of
       Inl err \<Rightarrow> do { _ \<leftarrow> modify (\<lambda>x. (fst x, err # snd x)); ret resp }
     | Inr _ \<Rightarrow> ret resp }"

fun answer :: "string \<Rightarrow> rpc list \<Rightarrow> (driver \<times> go_error list, (go_error + reply) list) state" where
  "answer version [] = ret []"
| "answer version (r # rs) = do { x \<leftarrow> logErr (handle version) r; xs \<leftarrow> answer version rs; ret (x # xs) }"

record net =
  net_listen :: "string \<Rightarrow> string \<Rightarrow> go_error option"
  net_requests :: "rpc list"
  net_serve :: "go_error option"

text \<open>The server takes requests until it stops, with \<open>net_serve\<close>; the answers are what the clients see.\<close>

definition Run :: "string \<Rightarrow> net \<Rightarrow> (driver \<times> go_error list, go_error option \<times> (go_error + reply) list) state" where
  "Run version n = do {
     d \<leftarrow> gets fst;
     r \<leftarrow> zoom fst (\<lambda>d x. (d, snd x)) (os (ParseCSIEndpoint (lib_parse_uri (e_lib (w_env (d_world d)))) (Endpoint (d_config d))));
     case r of
       Inl err \<Rightarrow> ret (Some err, [])
     | Inr (scheme, addr) \<Rightarrow>
         (case net_listen n scheme addr of
            Some err \<Rightarrow> ret (Some err, [])
          | None \<Rightarrow> do { xs \<leftarrow> answer version (net_requests n); ret (net_serve n, xs) }) }"


section \<open>main\<close>

text \<open>\<open>os.Exit(0)\<close>, the exit of the flag package with code 2, \<open>klog.Fatal\<close> (which exits with 255), or a panic.\<close>

datatype exit = Exit_0 | Exit_2 string "fmt_arg list" | Fatal string "fmt_arg list" | Panicked

text \<open>
  The end of the process: how it ends, what it printed, whether it shut the exporter's server down, and
  the answers, with the driver as it was at the end where there was one.
\<close>

record ending =
  en_exit :: exit
  en_printed :: "string list"
  en_shutdown :: bool
  en_answers :: "(go_error + reply) list"
  en_driver :: "driver option"
  en_process :: process

abbreviation (input) ends :: "exit \<Rightarrow> process \<Rightarrow> ending" where
  "ends x p \<equiv> \<lparr>en_exit = x, en_printed = [], en_shutdown = False, en_answers = [], en_driver = None, en_process = p\<rparr>"

definition exporter_server :: "config \<Rightarrow> bool \<Rightarrow> bool" where
  "exporter_server conf started \<longleftrightarrow> PrometheusExporterPort conf > 0 \<and> started"

definition run_driver :: "string \<Rightarrow> config \<Rightarrow> bool \<Rightarrow> net \<Rightarrow> process \<Rightarrow> ending" where
  "run_driver version conf exporter n p =
     (case NewDriver conf p of
        (None, p') \<Rightarrow> ends Panicked p'
      | (Some drv, p') \<Rightarrow>
          (case run_state (Run version n) (drv, []) of
             ((err, answers), (drv', _)) \<Rightarrow>
               \<lparr>en_exit = (case err of Some e \<Rightarrow> Fatal ''%v'' [AErr e] | None \<Rightarrow> Exit_0), en_printed = [],
                en_shutdown = exporter_server conf exporter, en_answers = answers, en_driver = Some drv',
                en_process = d_process drv'\<rparr>))"

definition main :: "build \<Rightarrow> klog_flags \<Rightarrow> string list \<Rightarrow> bool \<Rightarrow> net \<Rightarrow> process \<Rightarrow> ending" where
  "main b klog args exporter n p =
     (case parse_flags klog args flag_defaults of
        Inl ErrHelp \<Rightarrow> ends Exit_0 p
      | Inl (Flag_error msg vs) \<Rightarrow> ends (Exit_2 msg vs) p
      | Inr (cl, _) \<Rightarrow>
          let conf = cl_config cl
          in if cl_version cl then (ends Exit_0 p)\<lparr>en_printed := [GetVersionJSON b]\<rparr>
             else if NodeID conf = [] then ends (Fatal ''Node ID is not given'' []) p
             else (case run_state (in_world (main_storage conf)) p of
                     (Inl msg, p') \<Rightarrow> ends (Fatal (msg @ '' %q'') [AStr (StoragePath conf)]) p'
                   | (Inr _, p') \<Rightarrow> run_driver (GetDriverVersion b) conf exporter n p'))"


section \<open>What a run of the program amounts to\<close>

text \<open>The interceptor changes no answer, and logs the errors; the calls are handled as theory Csi_Rpc says.\<close>

definition errors_of :: "(go_error + 'a) list \<Rightarrow> go_error list" where
  "errors_of xs = concat (map (\<lambda>x. case x of Inl e \<Rightarrow> [e] | Inr _ \<Rightarrow> []) xs)"

lemma answer_serves:
  "run_state (answer version rs) (d, l) =
     (let (xs, d') = run_state (run_all (handle version) rs) d in (xs, (d', rev (errors_of xs) @ l)))"
proof (induction rs arbitrary: d l)
  case (Cons r rs)
  obtain x d1 where "run_state (handle version r) d = (x, d1)" by force
  with Cons show ?case
    by (cases x) (simp_all add: logErr_def errors_of_def Let_def split: prod.splits)
qed (simp add: errors_of_def)

lemma keeps_ParseCSIEndpoint [keeps_rules]:
  "keeps (extends w0) (ParseCSIEndpoint parse ep)" "keeps (rm_is R) (ParseCSIEndpoint parse ep)"
  unfolding ParseCSIEndpoint_def Let_def by (intro keeps_rules; simp)+

lemma keeps_rm_main_storage [keeps_rules]: "keeps (rm_is R) (main_storage conf)"
  unfolding main_storage_def by (intro keeps_rules; simp)

lemma Run_keeps:
  assumes "run_state (Run version n) (d, l) = ((err, xs), (d', l'))" and "driver_inv lib d" and "removals_ok d"
  shows "driver_inv lib d'" and "removals_ok d'" and "d_extends d d'"
    and "xs = [] \<and> err \<noteq> None \<or> length xs = length (net_requests n) \<and> err = net_serve n"
    and "l' = rev (errors_of xs) @ l"
proof -
  let ?m = "os (ParseCSIEndpoint (lib_parse_uri (e_lib (w_env (d_world d)))) (Endpoint (d_config d)))"
  obtain r d1 where m: "run_state ?m d = (r, d1)" by force
  have k: "keeps (driver_inv lib) ?m" "keeps (d_extends d) ?m" "keeps removals_ok ?m"
    by (intro keeps_rules)+
  have d1: "driver_inv lib d1" "d_extends d d1" "removals_ok d1"
    using keepsD [OF k(1) assms(2)] keepsD [OF k(2) d_extends_refl] keepsD [OF k(3) assms(3)] m by simp_all
  have ends: "d' = d1 \<and> xs = [] \<and> err \<noteq> None \<and> l' = l \<or>
      run_state (run_all (handle version) (net_requests n)) d1 = (xs, d') \<and> err = net_serve n \<and> l' = rev (errors_of xs) @ l"
    using assms(1) m by (auto simp: Run_def answer_serves Let_def simp del: run_os split: prod.splits sum.splits option.splits)
  show "driver_inv lib d'" and "d_extends d d'" 
    using ends d1 rpc.run_all_spec(1,2) [OF _ d1(1)] by (auto intro: d_extends_trans)
  show "removals_ok d'"
    using ends d1(3) keepsD [OF keeps_removals_rpc d1(3)] by (metis snd_conv)
  show "xs = [] \<and> err \<noteq> None \<or> length xs = length (net_requests n) \<and> err = net_serve n"
    using ends rpc.run_all_spec(3) [OF _ d1(1)] by auto
  show "l' = rev (errors_of xs) @ l" using ends by (auto simp: errors_of_def)
qed

text \<open>Whether the storage directory is there at the start.\<close>

definition storage_missing :: "config \<Rightarrow> world \<Rightarrow> bool" where
  "storage_missing conf w \<longleftrightarrow> StoragePath conf \<noteq> [] \<and> isl (e_stat (w_env w) (w_trace w) (StoragePath conf))"

lemma main_storage_ok:
  assumes "run_state (main_storage conf) w = (Inr (), w')"
  shows "w_env w' = w_env w" and "w_umask w' = (if storage_missing conf w then 0 else w_umask w)"
    and "removed_dirs (w_trace w') = removed_dirs (w_trace w)"
  using assms rm_isD [OF keeps_rm_main_storage assms]
  by (auto simp: main_storage_def storage_missing_def run_rules Let_def split: if_splits sum.splits option.splits prod.splits)

lemma main_driver:
  assumes "main b klog args exporter n p = en" and "en_driver en = Some d"
    and "parse_flags klog args flag_defaults = Inr (cl, rest)"
  obtains w drv p' l' err where "\<not> cl_version cl" and "NodeID (cl_config cl) \<noteq> []"
    and "run_state (main_storage (cl_config cl)) (p_world p) = (Inr (), w)"
    and "NewDriver (cl_config cl) (p\<lparr>p_world := w\<rparr>) = (Some drv, p')"
    and "run_state (Run (GetDriverVersion b) n) (drv, []) = ((err, en_answers en), (d, l'))"
    and "en_exit en = (case err of Some e \<Rightarrow> Fatal ''%v'' [AErr e] | None \<Rightarrow> Exit_0)"
  using assms by (auto simp: main_def run_driver_def Let_def split: if_splits prod.splits sum.splits option.splits)

text \<open>The program from its start: what it has served, it has served as a service that keeps its invariants.\<close>

theorem main_serves:
  assumes "parse_flags klog args flag_defaults = Inr (cl, rest)" and "fresh_process (cl_config cl) p"
    and "main b klog args exporter n p = en" and "en_driver en = Some d"
  shows "driver_inv (e_lib (w_env (p_world p))) d" and "removed_dirs (d_trace d) \<subseteq> made_dirs (d_trace d)"
    and "d_config d = cl_config cl" and "NodeID (cl_config cl) \<noteq> []"
    and "w_umask (d_world d) = (if storage_missing (cl_config cl) (p_world p) then 0 else w_umask (p_world p))"
    and "en_exit en = Exit_0 \<Longrightarrow> length (en_answers en) = length (net_requests n) \<and> net_serve n = None"
proof -
  let ?conf = "cl_config cl"
  from assms(3,4,1) obtain w drv p' l' err where m: "NodeID ?conf \<noteq> []" "run_state (main_storage ?conf) (p_world p) = (Inr (), w)"
    "NewDriver ?conf (p\<lparr>p_world := w\<rparr>) = (Some drv, p')"
    "run_state (Run (GetDriverVersion b) n) (drv, []) = ((err, en_answers en), (d, l'))"
    "en_exit en = (case err of Some e \<Rightarrow> Fatal ''%v'' [AErr e] | None \<Rightarrow> Exit_0)"
    by (rule main_driver)
  note st = main_storage_ok [OF m(2)]
  have f: "no_volume_files (w_env w) (StoragePath ?conf)" "balanced (p_metrics p)" "removed_dirs (w_trace w) = {}"
    using assms(2) st by (simp_all add: fresh_process_def balanced_init removed_dirs_def)
  note start = first_start [OF m(3), simplified, OF f]
  note run = Run_keeps [OF m(4) start(1,2)]
  show "driver_inv (e_lib (w_env (p_world p))) d" using run(1) st(1) by simp
  show "removed_dirs (d_trace d) \<subseteq> made_dirs (d_trace d)" using run(2) by (simp add: removals_ok_def)
  show "d_config d = ?conf"
    using run(3) NewDriver_parts [OF m(3)] by (metis d_extends_def)
  show "NodeID ?conf \<noteq> []" by (rule m(1))
  show "w_umask (d_world d) = (if storage_missing ?conf (p_world p) then 0 else w_umask (p_world p))"
    using run(3) start(3) st(2) by (simp add: d_extends_def extends_def)
  show "length (en_answers en) = length (net_requests n) \<and> net_serve n = None" if "en_exit en = Exit_0"
    using run(4) m(5) that by (auto split: option.splits)
qed

text \<open>Without a driver nothing was answered; bad flags and a request for the version end the program at once.\<close>

lemma main_without_driver:
  assumes "en_driver (main b klog args exporter n p) = None"
  shows "en_answers (main b klog args exporter n p) = []"
  using assms by (auto simp: main_def run_driver_def Let_def split: prod.splits sum.splits option.splits if_splits flag_error.splits)

lemma main_ends_at_once:
  "parse_flags klog args flag_defaults = Inl (Flag_error msg vs) \<Longrightarrow>
     en_exit (main b klog args exporter n p) = Exit_2 msg vs \<and> en_process (main b klog args exporter n p) = p"
  "parse_flags klog args flag_defaults = Inr (cl, rest) \<Longrightarrow> cl_version cl \<Longrightarrow>
     en_printed (main b klog args exporter n p) = [GetVersionJSON b] \<and> en_process (main b klog args exporter n p) = p"
  by (simp_all add: main_def Let_def)

end
