(* ===== verification/Umask_Race.thy ===== *)
theory Umask_Race
  imports World
begin

text \<open>
  The umask belongs to the process, and gRPC runs the handlers of concurrent calls in goroutines. The
  directories made with mode 0777 (pkg/client/irods/mount.go, pkg/client/webdav/mount.go) clear the
  umask and restore what they found. Here that function is cut at its system calls and run by several
  goroutines at once, each with a path of its own: alone or one after the other they restore the
  umask, but interleaved they can leave it cleared for good, and make a directory under a mask.
\<close>

section \<open>The function, call by call\<close>

datatype dir_pc =
    At_Stat | At_Clear | At_Mkdir nat | At_Restore nat "go_error option" | Returned "go_error option"

definition dir_result :: "string \<Rightarrow> string \<Rightarrow> go_error option \<Rightarrow> go_error option" where
  "dir_result create_msg path mk = map_option (\<lambda>e. XErr create_msg [AStr path, AErr e]) mk"

text \<open>One system call; the messages are those of the caller. What has returned does nothing.\<close>

fun dir_step :: "string \<Rightarrow> string \<Rightarrow> string \<Rightarrow> dir_pc \<Rightarrow> dir_pc io" where
  "dir_step create_msg access_msg path At_Stat = do {
     r \<leftarrow> os_stat path;
     ret (case r of
            Inr _ \<Rightarrow> Returned None
          | Inl err \<Rightarrow> if IsNotExist err then At_Clear else Returned (Some (XErr access_msg [AStr path, AErr err]))) }"
| "dir_step create_msg access_msg path At_Clear = do { oldMask \<leftarrow> Umask 0; ret (At_Mkdir oldMask) }"
| "dir_step create_msg access_msg path (At_Mkdir oldMask) = do {
     mk \<leftarrow> os_call (MkdirAll path mode_0777); ret (At_Restore oldMask mk) }"
| "dir_step create_msg access_msg path (At_Restore oldMask mk) = do {
     _ \<leftarrow> Umask oldMask; ret (Returned (dir_result create_msg path mk)) }"
| "dir_step create_msg access_msg path (Returned r) = ret (Returned r)"

fun dir_run :: "string \<Rightarrow> string \<Rightarrow> string \<Rightarrow> nat \<Rightarrow> dir_pc \<Rightarrow> dir_pc io" where
  "dir_run create_msg access_msg path 0 pc = ret pc"
| "dir_run create_msg access_msg path (Suc n) pc = do {
     pc \<leftarrow> dir_step create_msg access_msg path pc; dir_run create_msg access_msg path n pc }"

text \<open>Alone, four calls are the whole function.\<close>

lemma dir_run_alone: "dir_run cm am path 4 At_Stat = do { r \<leftarrow> make_open_dir cm am path; ret (Returned r) }"
proof (rule state.expand, rule ext)
  have four: "4 = Suc (Suc (Suc (Suc 0)))" by simp
  fix w
  show "run_state (dir_run cm am path 4 At_Stat) w = run_state (do { r \<leftarrow> make_open_dir cm am path; ret (Returned r) }) w"
    unfolding four
    by (auto simp: make_open_dir_def run_rules Let_def dir_result_def split: sum.splits option.splits prod.splits)
qed


section \<open>Several goroutines\<close>

text \<open>\<open>ra_made\<close> has the umask each directory was made under, the latest first.\<close>

record race =
  ra_goroutines :: "(string \<times> dir_pc) list"
  ra_world :: world
  ra_made :: "(string \<times> nat) list"

definition goroutine_step :: "string \<Rightarrow> string \<Rightarrow> nat \<Rightarrow> race \<Rightarrow> race" where
  "goroutine_step create_msg access_msg i s =
     (if i < length (ra_goroutines s) then
        (let (path, pc) = ra_goroutines s ! i;
             (pc', w) = run_state (dir_step create_msg access_msg path pc) (ra_world s)
         in s\<lparr>ra_goroutines := (ra_goroutines s)[i := (path, pc')], ra_world := w,
              ra_made := (case pc of At_Mkdir _ \<Rightarrow> (path, w_umask (ra_world s)) # ra_made s | _ \<Rightarrow> ra_made s)\<rparr>)
      else s)"

definition race_start :: "string list \<Rightarrow> world \<Rightarrow> race" where
  "race_start paths w = \<lparr>ra_goroutines = map (\<lambda>p. (p, At_Stat)) paths, ra_world = w, ra_made = []\<rparr>"

text \<open>Between clearing the umask and restoring it.\<close>

fun inside :: "dir_pc \<Rightarrow> bool" where
  "inside (At_Mkdir m) = True" | "inside (At_Restore m mk) = True" | "inside _ = False"

definition one_inside :: "race \<Rightarrow> bool" where
  "one_inside s \<longleftrightarrow> length (filter (\<lambda>(p, pc). inside pc) (ra_goroutines s)) \<le> 1"

definition all_returned :: "race \<Rightarrow> bool" where
  "all_returned s \<longleftrightarrow> list_all (\<lambda>(p, pc). \<exists>r. pc = Returned r) (ra_goroutines s)"

text \<open>A schedule is the goroutines in the order of their calls; \<open>exclusive\<close> ones never have two inside at once.\<close>

fun run_schedule :: "string \<Rightarrow> string \<Rightarrow> nat list \<Rightarrow> race \<Rightarrow> race" where
  "run_schedule cm am [] s = s"
| "run_schedule cm am (i # is) s = run_schedule cm am is (goroutine_step cm am i s)"

fun exclusive :: "string \<Rightarrow> string \<Rightarrow> nat list \<Rightarrow> race \<Rightarrow> bool" where
  "exclusive cm am [] s = True"
| "exclusive cm am (i # is) s = (one_inside (goroutine_step cm am i s) \<and> exclusive cm am is (goroutine_step cm am i s))"

lemma one_insideD:
  assumes "one_inside s" and "i < length (ra_goroutines s)" "inside (snd (ra_goroutines s ! i))"
    and "j < length (ra_goroutines s)" "inside (snd (ra_goroutines s ! j))"
  shows "i = j"
proof -
  let ?A = "{i. i < length (ra_goroutines s) \<and> inside (snd (ra_goroutines s ! i))}"
  have "card ?A \<le> 1"
    using assms(1) by (simp add: one_inside_def length_filter_conv_card case_prod_beta)
  moreover have "finite ?A" by simp
  ultimately show ?thesis using assms(2-5) by (simp add: card_le_Suc0_iff_eq)
qed


section \<open>Without overlap the umask is restored\<close>

fun saved :: "dir_pc \<Rightarrow> nat option" where
  "saved (At_Mkdir m) = Some m" | "saved (At_Restore m mk) = Some m" | "saved _ = None"

text \<open>Nobody inside: the umask is the first one. Somebody inside: it is cleared, and the first one is kept.\<close>

definition race_inv :: "nat \<Rightarrow> race \<Rightarrow> bool" where
  "race_inv u s \<longleftrightarrow>
     (\<forall>i < length (ra_goroutines s). inside (snd (ra_goroutines s ! i)) \<longrightarrow>
        saved (snd (ra_goroutines s ! i)) = Some u \<and> w_umask (ra_world s) = 0) \<and>
     ((\<forall>i < length (ra_goroutines s). \<not> inside (snd (ra_goroutines s ! i))) \<longrightarrow> w_umask (ra_world s) = u) \<and>
     (\<forall>(p, m) \<in> set (ra_made s). m = 0)"

lemma dir_step_umask:
  assumes "run_state (dir_step cm am path pc) w = (pc', w')"
  shows "w_umask w' = (case pc of At_Clear \<Rightarrow> 0 | At_Restore m mk \<Rightarrow> m | _ \<Rightarrow> w_umask w)"
    and "saved pc' = (case pc of At_Clear \<Rightarrow> Some (w_umask w) | At_Mkdir m \<Rightarrow> Some m | _ \<Rightarrow> None)"
    and "inside pc' \<longleftrightarrow> pc = At_Clear \<or> (\<exists>m. pc = At_Mkdir m)"
proof -
  have "pc' = fst (run_state (dir_step cm am path pc) w)" "w' = snd (run_state (dir_step cm am path pc) w)"
    using assms by simp_all
  then show "w_umask w' = (case pc of At_Clear \<Rightarrow> 0 | At_Restore m mk \<Rightarrow> m | _ \<Rightarrow> w_umask w)"
    and "saved pc' = (case pc of At_Clear \<Rightarrow> Some (w_umask w) | At_Mkdir m \<Rightarrow> Some m | _ \<Rightarrow> None)"
    and "inside pc' \<longleftrightarrow> pc = At_Clear \<or> (\<exists>m. pc = At_Mkdir m)"
    by (cases pc; simp add: run_rules Let_def split: sum.split)+
qed

lemma goroutine_step_inv:
  assumes "race_inv u s" and "one_inside s" and "one_inside (goroutine_step cm am i s)"
  shows "race_inv u (goroutine_step cm am i s)"
proof (cases "i < length (ra_goroutines s)")
  case True
  obtain path pc where g: "ra_goroutines s ! i = (path, pc)" by (cases "ra_goroutines s ! i")
  obtain pc' w where r: "run_state (dir_step cm am path pc) (ra_world s) = (pc', w)" by fastforce
  let ?s = "goroutine_step cm am i s"
  have s': "ra_goroutines ?s = (ra_goroutines s)[i := (path, pc')]" "ra_world ?s = w"
    "ra_made ?s = (case pc of At_Mkdir _ \<Rightarrow> (path, w_umask (ra_world s)) # ra_made s | _ \<Rightarrow> ra_made s)"
    using True g r by (simp_all add: goroutine_step_def)
  note d = dir_step_umask [OF r]
  have before: "j = i" if "j < length (ra_goroutines s)" "inside (snd (ra_goroutines s ! j))" "inside pc" for j
    using one_insideD [OF assms(2) that(1,2) True] that(3) g by simp
  have later: "j = i" if "j < length (ra_goroutines s)" "inside (snd (ra_goroutines s ! j))" "inside pc'" for j
  proof (rule ccontr)
    assume "j \<noteq> i"
    with one_insideD [OF assms(3), of j i] that True s'(1) show False by simp
  qed
  have u: "saved pc = Some u" "w_umask (ra_world s) = 0" if "inside pc"
    using assms(1) True g that by (auto simp: race_inv_def)
  have out: "w_umask (ra_world s) = u" if "\<And>j. j < length (ra_goroutines s) \<Longrightarrow> \<not> inside (snd (ra_goroutines s ! j))"
    using assms(1) that by (simp add: race_inv_def)
  have "saved pc' = Some u \<and> w_umask w = 0" if p: "inside pc'"
  proof (cases "pc = At_Clear")
    case c: True
    have "w_umask (ra_world s) = u"
    proof (rule out)
      fix j assume j: "j < length (ra_goroutines s)"
      show "\<not> inside (snd (ra_goroutines s ! j))" using later [OF j _ p] g c by auto
    qed
    with c d show ?thesis by simp
  next
    case False
    with p d u show ?thesis by auto
  qed
  moreover have "saved (snd (ra_goroutines s ! j)) = Some u \<and> w_umask w = 0"
    if j: "j < length (ra_goroutines s)" "inside (snd (ra_goroutines s ! j))" "j \<noteq> i" for j
  proof -
    have "saved (snd (ra_goroutines s ! j)) = Some u" "w_umask (ra_world s) = 0"
      using assms(1) j(1,2) by (simp_all add: race_inv_def)
    moreover have "\<not> inside pc" "\<not> inside pc'" using before [OF j(1,2)] later [OF j(1,2)] j(3) by auto
    ultimately show ?thesis using d(1,3) by (cases pc) simp_all
  qed
  moreover have "w_umask w = u" if n: "\<And>j. j < length (ra_goroutines s) \<Longrightarrow> \<not> inside (snd ((ra_goroutines s)[i := (path, pc')] ! j))"
  proof -
    have p: "\<not> inside pc'" using n [OF True] True by simp
    show ?thesis
    proof (cases "inside pc")
      case True
      with p d(1,3) u show ?thesis by (cases pc) simp_all
    next
      case False
      have "w_umask (ra_world s) = u"
      proof (rule out)
        fix j assume "j < length (ra_goroutines s)"
        then show "\<not> inside (snd (ra_goroutines s ! j))" using n [of j] g False by (cases "j = i") simp_all
      qed
      with False p d(1,3) show ?thesis by (cases pc) simp_all
    qed
  qed
  moreover have "\<forall>(p, m) \<in> set (ra_made (goroutine_step cm am i s)). m = 0"
    using assms(1) u unfolding s'(3) race_inv_def by (cases pc) simp_all
  ultimately show ?thesis
    using True unfolding race_inv_def s'(1,2) by (simp add: nth_list_update)
next
  case False
  then show ?thesis using assms(1) by (simp add: goroutine_step_def)
qed

lemma exclusive_inv:
  "race_inv u s \<Longrightarrow> one_inside s \<Longrightarrow> exclusive cm am is s \<Longrightarrow> race_inv u (run_schedule cm am is s)"
proof (induction "is" arbitrary: s)
  case (Cons i "is")
  then show ?case using goroutine_step_inv [of u s cm am i] by simp
qed simp

lemma race_inv_start: "race_inv (w_umask w) (race_start paths w)" "one_inside (race_start paths w)"
  by (auto simp: race_inv_def race_start_def one_inside_def filter_map o_def)

text \<open>When all are back from a run without overlap, the umask is what it was, and every directory was made with mask 0.\<close>

lemma exclusive_restores:
  assumes "exclusive cm am is (race_start paths w)" and "all_returned (run_schedule cm am is (race_start paths w))"
  shows "w_umask (ra_world (run_schedule cm am is (race_start paths w))) = w_umask w"
    and "\<forall>(p, m) \<in> set (ra_made (run_schedule cm am is (race_start paths w))). m = 0"
proof -
  let ?s = "run_schedule cm am is (race_start paths w)"
  have "race_inv (w_umask w) ?s" by (rule exclusive_inv [OF race_inv_start assms(1)])
  moreover have "\<forall>i < length (ra_goroutines ?s). \<not> inside (snd (ra_goroutines ?s ! i))"
    using assms(2) by (auto simp: all_returned_def list_all_length case_prod_beta)
  ultimately show "w_umask (ra_world ?s) = w_umask w" and "\<forall>(p, m) \<in> set (ra_made ?s). m = 0"
    by (simp_all add: race_inv_def)
qed

text \<open>
  With overlap they need not be: the second clears the umask before the first has restored it, so it finds
  and restores 0, and makes its directory after the first has restored the old one.
\<close>

lemma race_possible:
  assumes "e_stat (w_env w) (w_trace w) p = Inl e" and "IsNotExist e"
    and "e_stat (w_env w) (EvStat p (Inl e) # w_trace w) q = Inl e'" and "IsNotExist e'"
  shows "\<exists>is. all_returned (run_schedule cm am is (race_start [p, q] w)) \<and>
    w_umask (ra_world (run_schedule cm am is (race_start [p, q] w))) = 0 \<and>
    ra_made (run_schedule cm am is (race_start [p, q] w)) = [(q, w_umask w), (p, 0)]"
  by (rule exI [of _ "[0, 1, 0, 1, 0, 0, 1, 1]"])
    (use assms in \<open>simp add: race_start_def goroutine_step_def all_returned_def run_rules Let_def\<close>)

end
