(* ===== verification/Manager_Mutex.thy ===== *)
theory Manager_Mutex
  imports Volume_Store
begin

text \<open>
  The mutex of the volume managers. Handlers run at the same time, so the four operations of a manager
  (pkg/volumeinfo) are cut here at the lock, the access to the map, the save and the unlock, and run by
  any number of goroutines in any order. Whatever the order, what comes of it is what comes of the
  operations one after the other, in the order in which they took the mutex: theory Volume_Store and
  the handlers may take each operation as one step. And nobody waits for ever.
\<close>

section \<open>The operations\<close>

datatype 'v mgr_op = M_Put 'v | M_Pop string | M_Get string | M_Check string

datatype 'v mgr_result =
    R_Put "go_error option" | R_Pop "'v option" "go_error option" | R_Get "'v option" | R_Check bool

text \<open>An operation as one step, and several in turn.\<close>

fun do_op :: "'v codec \<Rightarrow> ('v \<Rightarrow> string) \<Rightarrow> 'v mgr_op \<Rightarrow> 'v manager \<Rightarrow> ('v mgr_result \<times> 'v manager) io" where
  "do_op cd vid (M_Put v) m = do { (err, m) \<leftarrow> manager_Put cd (vid v) v m; ret (R_Put err, m) }"
| "do_op cd vid (M_Pop k) m = do { (r, m) \<leftarrow> manager_Pop cd k m; ret (R_Pop (fst r) (snd r), m) }"
| "do_op cd vid (M_Get k) m = ret (R_Get (manager_Get m k), m)"
| "do_op cd vid (M_Check k) m = ret (R_Check (manager_Check m k), m)"

fun do_ops :: "'v codec \<Rightarrow> ('v \<Rightarrow> string) \<Rightarrow> 'v mgr_op list \<Rightarrow> 'v manager \<Rightarrow> ('v mgr_result list \<times> 'v manager) io" where
  "do_ops cd vid [] m = ret ([], m)"
| "do_ops cd vid (x # xs) m = do {
     (r, m) \<leftarrow> do_op cd vid x m; (rs, m) \<leftarrow> do_ops cd vid xs m; ret (r # rs, m) }"

lemma do_ops_snoc:
  assumes "run_state (do_ops cd vid xs m) w = ((rs, m1), w1)" and "run_state (do_op cd vid x m1) w1 = ((r, m2), w2)"
  shows "run_state (do_ops cd vid (xs @ [x]) m) w = ((rs @ [r], m2), w2)"
  using assms
proof (induction xs arbitrary: m w rs)
  case (Cons y ys)
  obtain r1 m3 w3 where y: "run_state (do_op cd vid y m) w = ((r1, m3), w3)" by (metis surj_pair)
  with Cons.prems obtain rs' where "run_state (do_ops cd vid ys m3) w3 = ((rs', m1), w1)" "rs = r1 # rs'"
    by (auto split: prod.splits)
  with Cons.IH [of m3 w3 rs'] Cons.prems(2) y show ?case by simp
qed simp

lemma do_ops_length: "run_state (do_ops cd vid xs m) w = ((rs, m'), w') \<Longrightarrow> length rs = length xs"
  by (induction xs arbitrary: m w rs) (auto split: prod.splits)


section \<open>Goroutines\<close>

text \<open>Between access and save, \<open>Pop\<close> holds the volume it has taken out.\<close>

datatype 'v mgr_pc = At_Lock | At_Map | At_Save "'v option" | At_Unlock "'v mgr_result" | Returned "'v mgr_result"

text \<open>\<open>sh_log\<close> has the goroutines in the order in which they took the mutex, the latest first.\<close>

record 'v shared =
  sh_mutex :: "nat option"
  sh_manager :: "'v manager"
  sh_world :: world
  sh_threads :: "('v mgr_op \<times> 'v mgr_pc) list"
  sh_log :: "nat list"

abbreviation goto :: "nat \<Rightarrow> 'v mgr_op \<Rightarrow> 'v mgr_pc \<Rightarrow> 'v shared \<Rightarrow> 'v shared" where
  "goto i op pc s \<equiv> s\<lparr>sh_threads := (sh_threads s)[i := (op, pc)]\<rparr>"

definition at :: "nat \<Rightarrow> 'v mgr_op \<Rightarrow> 'v mgr_pc \<Rightarrow> 'v shared \<Rightarrow> bool" where
  "at i op pc s \<longleftrightarrow> i < length (sh_threads s) \<and> sh_threads s ! i = (op, pc)"

fun save_result :: "'v mgr_op \<Rightarrow> 'v option \<Rightarrow> go_error option \<Rightarrow> 'v mgr_result" where
  "save_result (M_Put v) q err = R_Put err"
| "save_result op q err = R_Pop q err"

inductive mgr_step :: "'v codec \<Rightarrow> ('v \<Rightarrow> string) \<Rightarrow> 'v shared \<Rightarrow> 'v shared \<Rightarrow> bool" for cd vid where
  lock: "at i op At_Lock s \<Longrightarrow> sh_mutex s = None \<Longrightarrow>
    mgr_step cd vid s (goto i op At_Map s\<lparr>sh_mutex := Some i, sh_log := i # sh_log s\<rparr>)"
| put: "at i (M_Put v) At_Map s \<Longrightarrow>
    mgr_step cd vid s (goto i (M_Put v) (At_Save None)
      (s\<lparr>sh_manager := (sh_manager s)\<lparr>mg_volumes := AList.update (vid v) v (mg_volumes (sh_manager s))\<rparr>\<rparr>))"
| pop: "at i (M_Pop k) At_Map s \<Longrightarrow> map_of (mg_volumes (sh_manager s)) k = Some vol \<Longrightarrow>
    mgr_step cd vid s (goto i (M_Pop k) (At_Save (Some vol))
      (s\<lparr>sh_manager := (sh_manager s)\<lparr>mg_volumes := AList.delete k (mg_volumes (sh_manager s))\<rparr>\<rparr>))"
| pop_absent: "at i (M_Pop k) At_Map s \<Longrightarrow> map_of (mg_volumes (sh_manager s)) k = None \<Longrightarrow>
    mgr_step cd vid s (goto i (M_Pop k) (At_Unlock (R_Pop None None)) s)"
| get: "at i (M_Get k) At_Map s \<Longrightarrow>
    mgr_step cd vid s (goto i (M_Get k) (At_Unlock (R_Get (manager_Get (sh_manager s) k))) s)"
| check: "at i (M_Check k) At_Map s \<Longrightarrow>
    mgr_step cd vid s (goto i (M_Check k) (At_Unlock (R_Check (manager_Check (sh_manager s) k))) s)"
| save: "at i op (At_Save q) s \<Longrightarrow> run_state (manager_save cd (sh_manager s)) (sh_world s) = (err, w) \<Longrightarrow>
    mgr_step cd vid s (goto i op (At_Unlock (save_result op q err)) s\<lparr>sh_world := w\<rparr>)"
| unlock: "at i op (At_Unlock r) s \<Longrightarrow>
    mgr_step cd vid s (goto i op (Returned r) s\<lparr>sh_mutex := None\<rparr>)"

definition shared_start :: "'v mgr_op list \<Rightarrow> 'v manager \<Rightarrow> world \<Rightarrow> 'v shared" where
  "shared_start ops m w = \<lparr>sh_mutex = None, sh_manager = m, sh_world = w,
     sh_threads = map (\<lambda>op. (op, At_Lock)) ops, sh_log = []\<rparr>"

definition all_back :: "'v shared \<Rightarrow> bool" where
  "all_back s \<longleftrightarrow> list_all (\<lambda>(op, pc). \<exists>r. pc = Returned r) (sh_threads s)"


section \<open>The invariant\<close>

text \<open>
  Who has the mutex is in the middle of its operation, which began where those before it ended:
  \<open>middle\<close> relates its program counter to the state \<open>(m, w)\<close> at its start.
\<close>

fun middle :: "'v codec \<Rightarrow> ('v \<Rightarrow> string) \<Rightarrow> 'v mgr_op \<Rightarrow> 'v mgr_pc \<Rightarrow> 'v manager \<Rightarrow> world \<Rightarrow> 'v manager \<Rightarrow> world \<Rightarrow> bool" where
  "middle cd vid op At_Map m w m' w' = (m' = m \<and> w' = w)"
| "middle cd vid op (At_Save q) m w m' w' = (w' = w \<and>
     (case op of
        M_Put v \<Rightarrow> m' = m\<lparr>mg_volumes := AList.update (vid v) v (mg_volumes m)\<rparr>
      | M_Pop k \<Rightarrow> q \<noteq> None \<and> map_of (mg_volumes m) k = q \<and> m' = m\<lparr>mg_volumes := AList.delete k (mg_volumes m)\<rparr>
      | _ \<Rightarrow> False))"
| "middle cd vid op (At_Unlock r) m w m' w' = (run_state (do_op cd vid op m) w = ((r, m'), w'))"
| "middle cd vid op _ m w m' w' = False"

text \<open>The goroutines in \<open>order\<close> are back with the results of their operations in turn; the rest has not begun.\<close>

definition served :: "('v mgr_op \<times> 'v mgr_pc) list \<Rightarrow> 'v mgr_op list \<Rightarrow> nat list \<Rightarrow> 'v mgr_result list \<Rightarrow> nat option \<Rightarrow> bool" where
  "served ts ops order rs h \<longleftrightarrow> length ts = length ops \<and> length rs = length order \<and> distinct order \<and>
     (\<forall>i < length ops. fst (ts ! i) = ops ! i) \<and> (\<forall>i \<in> set order. i < length ops) \<and>
     (\<forall>j < length order. snd (ts ! (order ! j)) = Returned (rs ! j)) \<and>
     (\<forall>i < length ops. i \<notin> set order \<longrightarrow> h \<noteq> Some i \<longrightarrow> snd (ts ! i) = At_Lock)"

definition mutex_inv :: "'v codec \<Rightarrow> ('v \<Rightarrow> string) \<Rightarrow> 'v mgr_op list \<Rightarrow> 'v manager \<Rightarrow> world \<Rightarrow> 'v shared \<Rightarrow> bool" where
  "mutex_inv cd vid ops m0 w0 s \<longleftrightarrow>
     (case sh_mutex s of
        None \<Rightarrow> \<exists>rs. served (sh_threads s) ops (rev (sh_log s)) rs None \<and>
          run_state (do_ops cd vid (map ((!) ops) (rev (sh_log s))) m0) w0 = ((rs, sh_manager s), sh_world s)
      | Some h \<Rightarrow> h < length ops \<and> (\<exists>log rs m w. sh_log s = h # log \<and> h \<notin> set log \<and>
          served (sh_threads s) ops (rev log) rs (Some h) \<and>
          run_state (do_ops cd vid (map ((!) ops) (rev log)) m0) w0 = ((rs, m), w) \<and>
          middle cd vid (ops ! h) (snd (sh_threads s ! h)) m w (sh_manager s) (sh_world s)))"

text \<open>A goroutine that is past the lock and not back is the one that has the mutex.\<close>

lemma holder:
  assumes "mutex_inv cd vid ops m0 w0 s" and "at i op pc s" and "pc \<noteq> At_Lock" and "\<And>r. pc \<noteq> Returned r"
  shows "sh_mutex s = Some i" and "op = ops ! i"
proof -
  have "sh_mutex s = Some i \<and> op = ops ! i"
  proof (cases "sh_mutex s")
    case None
    with assms(1) obtain rs where s: "served (sh_threads s) ops (rev (sh_log s)) rs None" by (auto simp: mutex_inv_def)
    have "\<exists>r. pc = Returned r \<or> pc = At_Lock"
      using s assms(2) unfolding served_def at_def by (cases "i \<in> set (rev (sh_log s))") (metis in_set_conv_nth snd_conv option.distinct(1))+
    with assms(3,4) show ?thesis by blast
  next
    case (Some h)
    with assms(1) obtain log rs where s: "served (sh_threads s) ops (rev log) rs (Some h)" by (auto simp: mutex_inv_def)
    have "h = i"
    proof (rule ccontr)
      assume "h \<noteq> i"
      with s assms(2) have "\<exists>r. pc = Returned r \<or> pc = At_Lock"
        unfolding served_def at_def by (cases "i \<in> set (rev log)") (metis in_set_conv_nth snd_conv option.inject)+
      with assms(3,4) show False by blast
    qed
    with Some s assms(2) show ?thesis by (auto simp: served_def at_def)
  qed
  then show "sh_mutex s = Some i" and "op = ops ! i" by blast+
qed

text \<open>A step of the holder that keeps the mutex keeps the invariant where its \<open>middle\<close> stays true.\<close>

lemma served_goto: "served ts ops order rs (Some h) \<Longrightarrow> h \<notin> set order \<Longrightarrow> h < length ops \<Longrightarrow>
    served (ts[h := (ops ! h, pc)]) ops order rs (Some h)"
  using nth_mem [of _ order] by (auto simp: served_def nth_list_update)

lemma served_append:
  assumes "served ts ops order rs (Some h)" and "h \<notin> set order" and "h < length ops"
  shows "served (ts[h := (ops ! h, Returned r)]) ops (order @ [h]) (rs @ [r]) None"
proof -
  have "snd (ts[h := (ops ! h, Returned r)] ! ((order @ [h]) ! j)) = Returned ((rs @ [r]) ! j)" if "j < Suc (length order)" for j
    using assms that nth_mem [of j order] by (auto simp: served_def nth_append less_Suc_eq nth_list_update)
  with assms show ?thesis by (auto simp: served_def nth_list_update)
qed

lemma holder_step:
  assumes "mutex_inv cd vid ops m0 w0 s" and "sh_mutex s = Some i"
    and "sh_mutex s' = Some i" and "sh_log s' = sh_log s" and "sh_threads s' = (sh_threads s)[i := (ops ! i, pc)]"
    and "\<And>m w. middle cd vid (ops ! i) (snd (sh_threads s ! i)) m w (sh_manager s) (sh_world s) \<Longrightarrow>
      middle cd vid (ops ! i) pc m w (sh_manager s') (sh_world s')"
  shows "mutex_inv cd vid ops m0 w0 s'"
proof -
  obtain log rs m w where h: "i < length ops" "sh_log s = i # log" "i \<notin> set log" "served (sh_threads s) ops (rev log) rs (Some i)"
    "run_state (do_ops cd vid (map ((!) ops) (rev log)) m0) w0 = ((rs, m), w)"
    "middle cd vid (ops ! i) (snd (sh_threads s ! i)) m w (sh_manager s) (sh_world s)"
    using assms(1,2) by (auto simp: mutex_inv_def)
  then have "served (sh_threads s') ops (rev log) rs (Some i)" "i < length (sh_threads s)"
    using assms(5) served_goto [OF h(4) _ h(1)] by (simp_all add: served_def [of "sh_threads s"])
  with h assms show ?thesis by (fastforce simp: mutex_inv_def)
qed

lemma mutex_inv_step:
  assumes "mgr_step cd vid s s'" and "mutex_inv cd vid ops m0 w0 s"
  shows "mutex_inv cd vid ops m0 w0 s'"
  using assms(1)
proof cases
  case (lock i op)
  then obtain rs where s: "served (sh_threads s) ops (rev (sh_log s)) rs None"
    "run_state (do_ops cd vid (map ((!) ops) (rev (sh_log s))) m0) w0 = ((rs, sh_manager s), sh_world s)"
    using assms(2) by (auto simp: mutex_inv_def)
  have i: "i < length ops" "op = ops ! i" using s(1) lock(2) by (auto simp: served_def at_def)
  have "i \<notin> set (rev (sh_log s))"
    using s(1) lock(2) unfolding served_def at_def by (metis in_set_conv_nth snd_conv mgr_pc.distinct(7))
  moreover have "served ((sh_threads s)[i := (ops ! i, At_Map)]) ops (rev (sh_log s)) rs (Some i)"
    using s(1) i calculation by (auto simp: served_def nth_list_update)
  moreover have "i < length (sh_threads s)" using lock(2) by (simp add: at_def)
  ultimately show ?thesis using s(2) i lock by (auto simp: mutex_inv_def)
next
  case (put i v)
  note h = holder [OF assms(2) put(2)]
  show ?thesis
    by (rule holder_step [OF assms(2), of i _ "At_Save None"])
      (use put h in \<open>auto simp: at_def split: mgr_op.splits\<close>)
next
  case (pop i k vol)
  note h = holder [OF assms(2) pop(2)]
  show ?thesis
    by (rule holder_step [OF assms(2), of i _ "At_Save (Some vol)"])
      (use pop h in \<open>auto simp: at_def split: mgr_op.splits\<close>)
next
  case (pop_absent i k)
  note h = holder [OF assms(2) pop_absent(2)]
  show ?thesis
    by (rule holder_step [OF assms(2), of i _ "At_Unlock (R_Pop None None)"])
      (use pop_absent h in \<open>auto simp: at_def manager_Pop_def dest: sym [of _ "ops ! i"]\<close>)
next
  case (get i k)
  note h = holder [OF assms(2) get(2)]
  show ?thesis
    by (rule holder_step [OF assms(2), of i _ "At_Unlock (R_Get (manager_Get (sh_manager s) k))"])
      (use get h in \<open>auto simp: at_def dest: sym [of _ "ops ! i"]\<close>)
next
  case (check i k)
  note h = holder [OF assms(2) check(2)]
  show ?thesis
    by (rule holder_step [OF assms(2), of i _ "At_Unlock (R_Check (manager_Check (sh_manager s) k))"])
      (use check h in \<open>auto simp: at_def dest: sym [of _ "ops ! i"]\<close>)
next
  case (save i op q err w)
  note h = holder [OF assms(2) save(2)]
  show ?thesis
    by (rule holder_step [OF assms(2), of i _ "At_Unlock (save_result op q err)"])
      (use save h in \<open>auto simp: at_def manager_Put_def manager_Pop_def Let_def dest: sym [of _ "ops ! i"] split: mgr_op.splits option.splits\<close>)
next
  case (unlock i op r)
  note h = holder [OF assms(2) unlock(2)]
  obtain log rs m w where s: "i < length ops" "sh_log s = i # log" "i \<notin> set log" "served (sh_threads s) ops (rev log) rs (Some i)"
    "run_state (do_ops cd vid (map ((!) ops) (rev log)) m0) w0 = ((rs, m), w)"
    "middle cd vid (ops ! i) (snd (sh_threads s ! i)) m w (sh_manager s) (sh_world s)"
    using assms(2) h by (auto simp: mutex_inv_def)
  then have "run_state (do_op cd vid (ops ! i) m) w = ((r, sh_manager s), sh_world s)"
    using unlock(2) by (simp add: at_def)
  from do_ops_snoc [OF s(5) this] have
    "run_state (do_ops cd vid (map ((!) ops) (rev (i # log))) m0) w0 = ((rs @ [r], sh_manager s), sh_world s)" by simp
  moreover have "served ((sh_threads s)[i := (op, Returned r)]) ops (rev (i # log)) (rs @ [r]) None"
    using served_append [OF s(4) _ s(1)] s(3) h(2) by simp
  ultimately show ?thesis using s(2) unlock(1) unfolding mutex_inv_def by (auto simp del: rev.simps)
qed

lemma mutex_inv_start: "mutex_inv cd vid ops m w (shared_start ops m w)"
  by (auto simp: mutex_inv_def shared_start_def served_def)

lemma mutex_inv_reachable:
  assumes "(mgr_step cd vid)\<^sup>*\<^sup>* (shared_start ops m w) s"
  shows "mutex_inv cd vid ops m w s"
  using assms by (induction rule: rtranclp_induct) (auto intro: mutex_inv_start mutex_inv_step)


section \<open>What it gives\<close>

text \<open>When all goroutines are back, their operations have been done one after the other.\<close>

lemma mutex_serialises:
  assumes "(mgr_step cd vid)\<^sup>*\<^sup>* (shared_start ops m w) s" and "all_back s"
  shows "\<exists>order rs. distinct order \<and> set order = {..<length ops} \<and> length rs = length order \<and>
    run_state (do_ops cd vid (map ((!) ops) order) m) w = ((rs, sh_manager s), sh_world s) \<and>
    (\<forall>j < length order. snd (sh_threads s ! (order ! j)) = Returned (rs ! j))"
proof -
  have inv: "mutex_inv cd vid ops m w s" by (rule mutex_inv_reachable [OF assms(1)])
  have ret_all: "\<exists>r. snd (sh_threads s ! i) = Returned r" if "i < length (sh_threads s)" for i
    using assms(2) that by (auto simp: all_back_def list_all_length case_prod_beta)
  have "sh_mutex s = None"
  proof (cases "sh_mutex s")
    case (Some h)
    with inv obtain log rs m1 w1 where h: "h < length ops" "served (sh_threads s) ops (rev log) rs (Some h)"
      "middle cd vid (ops ! h) (snd (sh_threads s ! h)) m1 w1 (sh_manager s) (sh_world s)"
      by (auto simp: mutex_inv_def)
    with ret_all [of h] show ?thesis by (auto simp: served_def)
  qed
  with inv obtain rs where s: "served (sh_threads s) ops (rev (sh_log s)) rs None"
    "run_state (do_ops cd vid (map ((!) ops) (rev (sh_log s))) m) w = ((rs, sh_manager s), sh_world s)"
    by (auto simp: mutex_inv_def)
  have "i \<in> set (rev (sh_log s))" if "i < length ops" for i
    using s(1) that ret_all [of i] unfolding served_def by (metis mgr_pc.distinct(7) option.distinct(1))
  then have "set (rev (sh_log s)) = {..<length ops}" using s(1) by (auto simp: served_def)
  with s show ?thesis by (intro exI [of _ "rev (sh_log s)"] exI [of _ rs]) (auto simp: served_def)
qed

text \<open>Until then somebody can go on.\<close>

lemma mutex_progress:
  assumes "(mgr_step cd vid)\<^sup>*\<^sup>* (shared_start ops m w) s" and "\<not> all_back s"
  shows "\<exists>s'. mgr_step cd vid s s'"
proof -
  have inv: "mutex_inv cd vid ops m w s" by (rule mutex_inv_reachable [OF assms(1)])
  show ?thesis
  proof (cases "sh_mutex s")
    case None
    with inv obtain rs where s: "served (sh_threads s) ops (rev (sh_log s)) rs None" by (auto simp: mutex_inv_def)
    obtain i where i: "i < length (sh_threads s)" "\<nexists>r. snd (sh_threads s ! i) = Returned r"
      using assms(2) by (auto simp: all_back_def list_all_length case_prod_beta)
    then have "snd (sh_threads s ! i) = At_Lock"
      using s unfolding served_def by (cases "i \<in> set (rev (sh_log s))") (metis in_set_conv_nth option.distinct(1))+
    with i have "at i (fst (sh_threads s ! i)) At_Lock s" by (simp add: at_def prod_eq_iff)
    with None show ?thesis by (blast intro: mgr_step.lock)
  next
    case (Some h)
    with inv obtain log rs m1 w1 where h: "h < length ops" "served (sh_threads s) ops (rev log) rs (Some h)"
      "middle cd vid (ops ! h) (snd (sh_threads s ! h)) m1 w1 (sh_manager s) (sh_world s)"
      by (auto simp: mutex_inv_def)
    obtain op pc where p: "sh_threads s ! h = (op, pc)" by (cases "sh_threads s ! h")
    have a: "at h op pc s" using h(1,2) p by (simp add: at_def served_def)
    show ?thesis
    proof (cases pc)
      case At_Map
      with a show ?thesis
        by (cases op) (metis mgr_step.put, metis mgr_step.pop mgr_step.pop_absent option.exhaust, metis mgr_step.get, metis mgr_step.check)
    next
      case (At_Save q)
      obtain err w where "run_state (manager_save cd (sh_manager s)) (sh_world s) = (err, w)" by force
      with a At_Save show ?thesis by (blast intro: mgr_step.save)
    next
      case (At_Unlock r)
      with a show ?thesis by (blast intro: mgr_step.unlock)
    qed (use h p in simp_all)
  qed
qed

text \<open>Every step is one of at most four of its goroutine, so a run ends, and then all are back.\<close>

fun left :: "'v mgr_pc \<Rightarrow> nat" where
  "left At_Lock = 4" | "left At_Map = 3" | "left (At_Save q) = 2" | "left (At_Unlock r) = 1" | "left (Returned r) = 0"

definition work_left :: "'v shared \<Rightarrow> nat" where
  "work_left s = sum_list (map (left \<circ> snd) (sh_threads s))"

lemma work_goto:
  assumes a: "at i op pc s" and t: "sh_threads s' = (sh_threads s)[i := (op', pc')]" and l: "left pc' < left pc"
  shows "work_left s' < work_left s"
proof -
  let ?ws = "map (left \<circ> snd) (sh_threads s)"
  have i: "i < length ?ws" "?ws ! i = left pc" using a by (simp_all add: at_def)
  then have "left pc \<le> sum_list ?ws" by (metis elem_le_sum_list)
  with i l have "sum_list (?ws[i := left pc']) < sum_list ?ws" by (simp add: sum_list_update)
  then show ?thesis by (simp add: work_left_def t map_update)
qed

lemma work_left_step: "mgr_step cd vid s s' \<Longrightarrow> work_left s' < work_left s"
  by (induction rule: mgr_step.induct) (rule work_goto, assumption, simp, simp)+

lemma some_run_ends:
  assumes "(mgr_step cd vid)\<^sup>*\<^sup>* (shared_start ops m w) s"
  shows "\<exists>s'. (mgr_step cd vid)\<^sup>*\<^sup>* s s' \<and> all_back s'"
  using assms
proof (induction "work_left s" arbitrary: s rule: less_induct)
  case less
  show ?case
  proof (cases "all_back s")
    case False
    then obtain s1 where s1: "mgr_step cd vid s s1" using mutex_progress [OF less.prems] by blast
    with less.prems have "(mgr_step cd vid)\<^sup>*\<^sup>* (shared_start ops m w) s1" by simp
    with less.hyps [OF work_left_step [OF s1]] s1 show ?thesis by (meson converse_rtranclp_into_rtranclp)
  qed blast
qed

text \<open>The map of volumes is then that of the updates in this order.\<close>

fun mgr_spec :: "('v \<Rightarrow> string) \<Rightarrow> 'v mgr_op \<Rightarrow> (string \<rightharpoonup> 'v) \<Rightarrow> (string \<rightharpoonup> 'v)" where
  "mgr_spec vid (M_Put v) s = s(vid v \<mapsto> v)"
| "mgr_spec vid (M_Pop k) s = s(k := None)"
| "mgr_spec vid op s = s"

lemma do_op_spec:
  assumes "run_state (do_op cd vid x m) w = ((r, m'), w')"
  shows "manager_Get m' = mgr_spec vid x (manager_Get m)"
  using assms by (cases x) (auto simp: manager_Put_run(2) manager_Pop_run(2) split: prod.splits)

lemma do_ops_spec:
  "run_state (do_ops cd vid xs m) w = ((rs, m'), w') \<Longrightarrow> manager_Get m' = fold (mgr_spec vid) xs (manager_Get m)"
  by (induction xs arbitrary: m w rs) (auto split: prod.splits dest!: do_op_spec)

end
