(* ===== verification/Spec2Isabelle.thy ===== *)
theory Spec2Isabelle
  imports Example_Overlay Proc_Mounts Recovery Main_Program Umask_Race Manager_Mutex
begin

text \<open>
  The iRODS CSI driver (Go): a node and controller plugin that provisions, mounts and unmounts
  iRODS collections for Kubernetes, through one of three file system clients.

  Parts of the program and where they are modelled. Names are those of the source where a name is
  not taken already; a package prefix (\<open>irods_\<close>, \<open>nfs_\<close>, \<open>webdav_\<close>) separates functions of one name.

    - What the code uses of the Go library: strings and numbers (Go_Strings), lexical paths (Go_Filepath,
      and Abs_Path for absolute ones by their elements), error values with their wrapping and gRPC
      codes (Errors), encoding/json (Json_String, Go_Json), the flag package (Go_Flags). Strings are
      byte lists; a Go map is an association list with distinct keys, and each \<open>range\<close> over one
      visits a permutation that the environment picks (\<open>go_range\<close> in World).
    - World: the operating system, the mount tables, the iRODS connection and randomness. A call is
      answered by the environment from the history of calls (\<open>e_call\<close>, \<open>e_stat\<close>, ...), and appended
      to it, so what a program did is the trace it leaves. \<open>None\<close>, \<open>Inl\<close> and \<open>Some\<close> values carry errors.
    - pkg/common: Config (config.go), Version (version.go). pkg/client/common and overlayfs.go: Client_Common.
    - pkg/mounter: Whitelist (whitelist.go), Mount_Args (mount options and the command line with its
      log text), Node_Mounter (mounter.go, bindmount.go), Proc_Mounts (the readers of /proc/mounts and
      /proc/self/mountinfo, and the search for the mounts of one source).
    - pkg/client/irods: Irods_Connection and Irods_Validate (connection_info.go), Irods_Mount (mount.go,
      operations.go); Overlay_Sync (overlay.go: the walk of the upper layer and its tasks),
      Parallel_Jobs and Parallel_Run (parallel.go: the goroutines of the job manager, without and with
      what the jobs do), Overlay_Run (\<open>Sync\<close> as a whole, and the goroutine that \<open>Unmount\<close> leaves behind).
      pkg/client/nfs: Nfs. pkg/client/webdav: Webdav. pkg/client/client.go: Client. Umask_Race has
      the makers of the data directories again, cut at their system calls.
    - pkg/metrics: Metrics. pkg/volumeinfo: Volume_Types, Volume_Json (the text of the save files),
      Volume_Store (both managers), Manager_Mutex (their operations cut at the mutex).
    - pkg/driver: Driver (state, start-up, configuration, capabilities, identity, and the storage
      directory of cmd/main.go), Controller (controller.go), Node (node.go), Service (the dispatcher of the
      calls that change something), Csi_Rpc (all calls). cmd/main.go with \<open>Run\<close> of driver.go: Main_Program.

  How they interact. \<open>main\<close> reads the flags, makes the storage directory, starts the driver and serves calls
  until the server ends. A handler of Controller or Node runs on the record \<open>driver\<close>, which holds the
  process (world and counters), the configuration, the secrets and the two volume managers. It
  merges the configuration, prepares the target, calls a client through Client, and stores a
  record. Handlers run one after the other: a call is a step from one driver state to the next. What
  goroutines do at the same time is modelled where the code's correctness hangs on it: the job manager
  and the synchronisation, the mutex of the volume managers, and the umask.

  Interfaces are locales: \<open>mount_client\<close> (Client, for the three clients), \<open>volume_store\<close> (Volume_Store, for
  both managers), \<open>volume_json\<close> and its extension \<open>volume_json_typed\<close> (Volume_Json, for the two kinds of volume),
  \<open>task_runner\<close> (Parallel_Run, for the job manager) and \<open>driver_service\<close> (Service, for every handler and for the
  dispatchers).

  What the lemmas show, by theory. Service: the driver's invariant, and the accounting of failures.
  Lifecycle: a volume on a node from staging to unstaging. Provisioning: what is made and removed in
  iRODS. Startup: the invariants hold after a first start. Recovery: what a call saved, the next
  process reads. Controller_Config: the volume configuration as a function of the parameters.
  Go_Json: what is printed is parsed to the same value, by induction over the scanner's runs.
  Manager_Mutex: any interleaving of the managers' operations is one after the other. Parallel_Run: the
  job manager runs the jobs between two barriers in some order. Overlay_Tasks: each task refines an
  update of the collection (as a tree, Irods_Tree). Overlay_Merge: the updates of a walk amount to the
  merge of the layer. Main_Program: the whole program keeps the invariants. Example_World and
  Example_Overlay run the driver and a synchronisation in concrete worlds, to which the properties
  below are applied. The properties themselves are stated here, each by the claim it makes.

  Bounds. All recursion is structural or on a text that gets shorter. Go's \<open>int\<close> is 64 bits wide: \<open>Atoi\<close>
  and \<open>ParseInt\<close> refuse what does not fit, and no arithmetic of the modelled code can leave that range
  except the counters, which are unbounded here (float64 gauges and counters of the Prometheus
  library in the source). The JSON scanner refuses more than 10000 open brackets, as the library does; a
  volume file has three, and its connections what the iRODS packages make of them.

  Parameters, for code that is not in the repository: the irodsfs configuration type's defaults,
  corrections, mapping check and JSON sections (\<open>irods_lib\<close>), the JSON text of a connection (\<open>conn_codec\<close>),
  k8s.io/utils/mount (\<open>e_device\<close>, \<open>e_make_bind_opts\<close>, \<open>e_path_within_base\<close>, the plain unmount), YAML, URL
  parsing and xid, the iRODS client with its virtual paths and extended attributes in the
  synchronisation (\<open>irods_fs\<close>), the flags that klog registers; AES-GCM (\<open>e_seal\<close>, \<open>e_open\<close>) is one, too. What
  is used of them is a named hypothesis: \<open>cipher_ok\<close> (what was sealed opens to the same text),
  \<open>conn_reads_back\<close> (a connection's text is read as the same connection), \<open>mount_table_ok\<close> (a path whose last
  operation mounted it has references in the mount table), \<open>irods_contract\<close> and \<open>maps_root\<close> (what an iRODS
  call has done where it reports success, and where the synchronised collection lies).

  Not modelled: logging, whose arguments are pure; the sockets and the gRPC library (which calls come
  and how the server ends are inputs of \<open>main\<close>, and \<open>Stop\<close>, which only ends the server, is such an end); the
  HTTP server of the metrics; two handlers at the same time beyond the managers and the umask. A task
  of the synchronisation is one step, and the upper layer does not change while it is uploaded. A
  nil list, map or volume in a save file, which the driver never writes, is read as empty or absent.
\<close>

section \<open>The driver as a service\<close>

text \<open>
  C1. A driver started in a fresh process keeps its invariant over every sequence of CSI calls, of all
  three services: the gauge of active mounts is the mounts minus the unmounts, both volume stores
  hold each volume once under its ID, every stored record is sound, the configuration and the
  secrets stay as they were, every call is answered, and those that only answer make no difference.
\<close>

theorem service_keeps_invariant:
  assumes "fresh_process conf p" and "NewDriver conf p = (Some d, p')"
    and "run_state (run_all (handle version) calls) d = (rs, d')"
  shows "driver_inv (e_lib (w_env (p_world p))) d' \<and> d_extends d d' \<and> length rs = length calls \<and>
    d' = snd (run_state (run_all serve (changing calls)) d)"
  using fresh_calls(1,2,4) [OF assms] run_all_changing [of version calls d] assms(3) by simp

text \<open>The example's run, with two calls between that only answer; both requests succeed.\<close>

definition example_calls :: "rpc list" where
  "example_calls = [Identity Probe, Changing (Create example_create), Controller_missing ListVolumes,
     Changing (Delete ''volid-pvc-x1'')]"

definition example_end :: driver where
  "example_end = snd (run_state (run_all (handle ''v0'') example_calls) example_started)"

lemma example_calls_run:
  "run_state (run_all (handle ''v0'') example_calls) example_started =
     (fst (run_state (run_all (handle ''v0'') example_calls) example_started), example_end)"
  by (simp add: example_end_def)

theorem service_keeps_invariant_witness:
  "driver_inv example_lib example_end \<and> d_extends example_started example_end \<and> example_end = example_served \<and>
   list_all (\<lambda>r. \<not> isl r) (fst (run_state (run_all serve example_requests) example_started))"
proof -
  have c: "changing example_calls = example_requests" by (simp add: example_calls_def example_requests_def)
  from service_keeps_invariant [OF example_fresh example_start example_calls_run] example_service show ?thesis
    by (simp add: example_process_def example_world_def example_env_def c example_served_def)
qed











text \<open>
  C4. The life of a dynamically provisioned volume on a node: staged, published, unpublished and
  unstaged with success, both its mount points were last unmounted, its record is gone, the
  gauge is where it was and mounts and unmounts rose by two, no failure counted.
\<close>

theorem dynamic_volume_lifecycle:
  assumes "go_map_ok (st_VolumeContext sreq)" and "isDynamicVolumeProvisioningMode (st_VolumeContext sreq)"
    and "go_map_ok (pb_VolumeContext preq)" and "isDynamicVolumeProvisioningMode (pb_VolumeContext preq)"
    and "pb_VolumeId preq = st_VolumeId sreq" and "pb_TargetPath preq \<noteq> st_StagingTargetPath sreq"
    and "driver_inv lib d0" and "mount_table_ok (w_env (d_world d0))"
    and "run_state (NodeStageVolume sreq) d0 = (Inr (), d1)"
    and "run_state (NodePublishVolume preq) d1 = (Inr (), d2)"
    and "run_state (NodeUnpublishVolume (st_VolumeId sreq) (pb_TargetPath preq)) d2 = (Inr (), d3)"
    and "run_state (NodeUnstageVolume (st_VolumeId sreq) (st_StagingTargetPath sreq)) d3 = (Inr (), d4)"
  shows "last_op (pb_TargetPath preq) (d_trace d3) = Some Did_unmount \<and>
    last_op (st_StagingTargetPath sreq) (d_trace d4) = Some Did_unmount \<and>
    manager_Get (d_nodes d4) (st_VolumeId sreq) = None \<and>
    promCounterForActiveVolumeMount (d_metrics d4) = promCounterForActiveVolumeMount (d_metrics d0) \<and>
    promCounterForVolumeMount (d_metrics d4) = promCounterForVolumeMount (d_metrics d0) + 2 \<and>
    promCounterForVolumeUnmount (d_metrics d4) = promCounterForVolumeUnmount (d_metrics d0) + 2 \<and>
    mount_failures d4 = mount_failures d0"
  using volume_lifecycle [OF assms] by blast

theorem dynamic_volume_lifecycle_witness:
  "last_op ''/stage'' (d_trace example_unstaged) = Some Did_unmount \<and>
   promCounterForActiveVolumeMount (d_metrics example_unstaged) = 0 \<and>
   promCounterForVolumeMount (d_metrics example_unstaged) = 2"
proof -
  have ex: "st_VolumeContext example_stage = example_context" "pb_VolumeContext example_publish = example_context"
    "st_VolumeId example_stage = ''v''" "pb_VolumeId example_publish = ''v''"
    "st_StagingTargetPath example_stage = ''/stage''" "pb_TargetPath example_publish = ''/target''"
    by (simp_all add: example_stage_def example_publish_def)
  have w: "w_env (d_world example_driver) = example_env" "d_metrics example_driver = metrics_init"
    by (simp_all add: example_driver_def example_process_def example_world_def)
  show ?thesis
    using dynamic_volume_lifecycle [of example_stage example_publish, unfolded ex,
        OF example_context_ok example_context_ok refl _ example_driver_inv, unfolded w,
        OF _ example_mount_table example_runs]
    by (simp add: metrics_init_def)
qed

text \<open>
  C5. A published volume is mounted: success of NodePublishVolume, on either path of the handler,
  leaves the target mounted by the last operation on it, and counts one mount.
\<close>

theorem publish_mounts_target:
  assumes "run_state (NodePublishVolume req) d = (Inr (), d')"
  shows "last_op (pb_TargetPath req) (d_trace d') = Some Did_mount \<and>
    d_metrics d' = apply_step Mounted_one (d_metrics d)"
  using postD [OF NodePublishVolume_ok assms] .

theorem publish_mounts_target_witness: "last_op ''/target'' (d_trace example_published) = Some Did_mount"
  using publish_mounts_target [OF example_runs(2)] by (simp add: example_publish_def)

text \<open>
  C6. Unpublishing undoes it: where the mount table knows the target, success of
  NodeUnpublishVolume leaves it unmounted and counts one unmount, with or without a record of the
  volume, whichever client mounted it.
\<close>

theorem unpublish_unmounts_target:
  assumes "mount_table_ok (w_env (d_world d))" and "last_op target (d_trace d) = Some Did_mount"
    and "run_state (NodeUnpublishVolume volID target) d = (Inr (), d')"
  shows "last_op target (d_trace d') = Some Did_unmount \<and> d_metrics d' = apply_step Unmounted_one (d_metrics d)"
  using postD [OF NodeUnpublishVolume_ok [OF assms(1,2)] assms(3)] .

lemma example_env_kept:
  "w_env (d_world example_staged) = example_env" "w_env (d_world example_published) = example_env"
proof -
  have "w_env (d_world example_driver) = example_env"
    by (simp add: example_driver_def example_process_def example_world_def)
  then show "w_env (d_world example_staged) = example_env"
    using env_same [OF keeps_NodeStageVolume(2) example_runs(1)] by simp
  then show "w_env (d_world example_published) = example_env"
    using env_same [OF keeps_NodePublishVolume(2) example_runs(2)] by simp
qed

lemma example_target_mounted: "last_op ''/target'' (d_trace example_published) = Some Did_mount"
  using postD [OF NodePublishVolume_ok example_runs(2)] by (simp add: example_publish_def)

theorem unpublish_unmounts_target_witness:
  "last_op ''/target'' (d_trace example_unpublished) = Some Did_unmount"
  using unpublish_unmounts_target [OF _ example_target_mounted example_runs(3)] example_mount_table
  by (simp add: example_env_kept)

text \<open>
  C7. Staging a volume: one that the controller provisioned is mounted at the staging path through its
  client, counted and recorded as staged there; any other is only recorded, every path's last
  operation and every counter being what it was.
\<close>

theorem stage_records_volume:
  assumes "go_map_ok (st_VolumeContext req)" and "run_state (NodeStageVolume req) d = (Inr (), d')"
  shows "(isDynamicVolumeProvisioningMode (st_VolumeContext req) \<longrightarrow>
      last_op (st_StagingTargetPath req) (d_trace d') = Some Did_mount \<and>
      d_metrics d' = apply_step Mounted_one (d_metrics d) \<and>
      staged (st_VolumeId req) (st_StagingTargetPath req) d') \<and>
    (\<not> isDynamicVolumeProvisioningMode (st_VolumeContext req) \<longrightarrow>
      same_ops d d' \<and> d_metrics d' = d_metrics d \<and>
      (\<exists>v. manager_Get (d_nodes d') = (manager_Get (d_nodes d))(st_VolumeId req \<mapsto> v) \<and>
         nv_StageVolume v \<and> \<not> nv_DynamicVolumeProvisioning v))"
  using postD [OF NodeStageVolume_dynamic [OF assms(1)] assms(2)] postD [OF NodeStageVolume_static [OF assms(1)] assms(2)]
  by blast

definition example_static :: node_stage_request where
  "example_static = example_stage\<lparr>st_VolumeContext := [(''client'', ''nfs'')]\<rparr>"

theorem stage_records_volume_witness:
  "staged ''v'' ''/stage'' example_staged \<and>
   d_metrics (snd (run_state (NodeStageVolume example_static) example_driver)) = metrics_init"
proof -
  let ?d = "snd (run_state (NodeStageVolume example_static) example_driver)"
  have "fst (run_state (NodeStageVolume example_static) example_driver) = Inr ()" by code_simp
  then have r: "run_state (NodeStageVolume example_static) example_driver = (Inr (), ?d)"
    by (simp add: prod_eq_iff)
  have st: "go_map_ok (st_VolumeContext example_static)"
    "\<not> isDynamicVolumeProvisioningMode (st_VolumeContext example_static)"
    by (simp_all add: example_static_def go_map_ok_def, code_simp)
  have ex: "st_VolumeContext example_stage = example_context" "st_VolumeId example_stage = ''v''"
    "st_StagingTargetPath example_stage = ''/stage''"
    by (simp_all add: example_stage_def)
  have "staged ''v'' ''/stage'' example_staged"
    using stage_records_volume [of example_stage, unfolded ex, OF example_context_ok(1) example_runs(1)] example_context_ok(2)
    by blast
  moreover have "d_metrics ?d = metrics_init"
    using stage_records_volume [OF st(1) r] st(2) by (simp add: example_driver_def example_process_def)
  ultimately show ?thesis by blast
qed

text \<open>
  C8. Failed mounts are counted exactly: CreateVolume, NodeStageVolume and NodePublishVolume raise
  the failure counter by one where they return an error and leave it where they do not, on every
  branch.
\<close>

theorem failures_are_counted:
  "mount_failures (snd (run_state (CreateVolume creq) d)) =
     mount_failures d + (if isl (fst (run_state (CreateVolume creq) d)) then 1 else 0) \<and>
   mount_failures (snd (run_state (NodeStageVolume sreq) d)) =
     mount_failures d + (if isl (fst (run_state (NodeStageVolume sreq) d)) then 1 else 0) \<and>
   mount_failures (snd (run_state (NodePublishVolume preq) d)) =
     mount_failures d + (if isl (fst (run_state (NodePublishVolume preq) d)) then 1 else 0)"
  using books_CreateVolume [of creq] books_NodeStageVolume [of sreq] books_NodePublishVolume [of preq]
  by (simp_all add: books_def)


text \<open>
  C10. CreateVolume tells the node what it made: the ID is derived from the name, the capacity is
  the requested one or the default, the volume context is the parameters with the path of the
  volume and the dynamic mode set, and a record with that path is stored under the ID.
\<close>

theorem create_volume_records:
  assumes "go_map_ok (cr_Parameters req)" and "run_state (CreateVolume req) d = (Inr vol, d')"
  shows "(\<exists>x. csi_VolumeId vol = ''volid-'' @ cr_Name req @ ''-'' @ x) \<and>
    csi_CapacityBytes vol = (case cr_CapacityRange req of None \<Rightarrow> defaultVolumeSize | Some n \<Rightarrow> n) \<and>
    (\<exists>v. stored_volume req vol d' v)"
  using postD [OF CreateVolume_ok [OF assms(1)] assms(2)] .

theorem create_volume_records_witness:
  "csi_CapacityBytes (fst example_created) = defaultVolumeSize \<and>
   (\<exists>v. stored_volume example_create (fst example_created) (snd example_created) v)"
proof -
  have "go_map_ok (cr_Parameters example_create)" and "cr_CapacityRange example_create = None"
    by (simp_all add: example_create_def go_map_ok_def)
  with create_volume_records [OF this(1) example_create_runs] show ?thesis by simp
qed

text \<open>
  C11. The configuration of a new volume: accepted exactly when every entry is valid and a root path
  is given; the path is the root path itself, with the data retained, where no directory is wanted,
  and otherwise the root path, a slash and the volume's name.
\<close>

theorem controller_config_result:
  assumes "distinct (map fst (normal_entries es))"
  shows "makeControllerConfig volName es = Inr cc \<longleftrightarrow>
    list_all (\<lambda>(k, v). config_entry_ok k v) (normal_entries es) \<and>
    (let c = config_of (map_of (normal_entries es))
       \<lparr>VolumeRootPath = [], VolumePath = [], RetainData = False, NotCreateVolumeDir = False\<rparr>
     in VolumeRootPath c \<noteq> [] \<and>
        cc = (if NotCreateVolumeDir c then c\<lparr>VolumePath := VolumeRootPath c, RetainData := True\<rparr>
              else c\<lparr>VolumePath := VolumeRootPath c @ ''/'' @ volName\<rparr>))"
proof -
  let ?c0 = "\<lparr>VolumeRootPath = [], VolumePath = [], RetainData = False, NotCreateVolumeDir = False\<rparr>"
  note spec = getControllerConfigFromMap_spec [OF assms, of ?c0]
  show ?thesis
  proof (cases "getControllerConfigFromMap es ?c0")
    case (Inl e)
    with spec [of "config_of (map_of (normal_entries es)) ?c0"] show ?thesis
      by (simp add: makeControllerConfig_def list_all_iff)
  next
    case (Inr c)
    with spec [of c] show ?thesis
      by (auto simp: makeControllerConfig_def list_all_iff Let_def)
  qed
qed

theorem controller_config_result_witness:
  "makeControllerConfig ''pvc'' [(''volumeRootPath'', ''/z/home/''), (''retain_data'', ''true'')] =
     Inr \<lparr>VolumeRootPath = ''/z/home'', VolumePath = ''/z/home/pvc'', RetainData = True, NotCreateVolumeDir = False\<rparr>"
  by (subst controller_config_result) code_simp+

section \<open>The synchronisation of an overlay\<close>








text \<open>
  C15. An update can be lost: where an upload fails, the error is only logged, \<open>Sync\<close> returns without one,
  and the goroutine deletes the upper layer, which held the only copy.
\<close>

theorem failed_upload_is_lost:
  "\<exists>z. unmount_background mem_lib ''v'' mem_conn ''/u'' (Inr [''a'', ''w'']) (Inr (NDir None mem_entries)) (mem_start False, []) z \<and>
     irods_contract mem_fs [''z'', ''c''] mem_tree (\<lambda>p. p) (\<lambda>p name. Inl (ExtErr ''no attribute'')) \<and>
     map_of mem_entries ''a'' = Some NFile \<and> lookup_at [''a''] (mem_tree (fst z)) = None \<and> \<not> mem_upper (fst z) \<and> length (snd z) = 1"
proof -
  have "Clean ''/u'' = ''/u''" by code_simp
  then have new: "run_state (NewOverlayFSSyncher mem_lib ''v'' mem_conn ''/u'') w = (Inr mem_syncher, w)" for w
    by (simp add: NewOverlayFSSyncher_def mem_lib_def Abs_def IsAbs_def mem_syncher_def)
  obtain s' where "run_state (in_fs (Release mem_lib mem_syncher)) (mem_end False) = (s', mem_end False)"
    by (cases "mem_end False") (simp add: Release_def mem_lib_def mem_syncher_def)
  note sync = with_syncher [OF new mem_failed_returns this, simplified]
  obtain z where "run_state (delete_upper mem_lib ''/u'' None) (mem_end False) = ((), z)" "\<not> mem_upper (fst z)"
    "mem_tree (fst z) = mem_tree (fst (mem_end False))" "snd z = snd (mem_end False)"
    by (cases "mem_end False") (simp add: delete_upper_def mem_lib_def)
  with unmount_background.intros [OF sync] mem_failed mem_contract show ?thesis
    by (intro exI [of _ z]) (auto simp: mem_entries_def)
qed


section \<open>Parallel jobs\<close>

text \<open>
  C16. The job manager keeps its limits: in every run without overlapping updates of the thread
  count, the tasks that run use at most the threads of the manager together, and none of them was
  scheduled before the last barrier that was started.
\<close>

theorem jobs_within_limit:
  assumes "0 \<le> m" and "list_all (cmd_fits m) cmds"
    and "safe_step\<^sup>*\<^sup>* (NewParallelJobManager m cmds) s"
  shows "load s \<le> m \<and> subseq (running s) (since_barrier (jm_started s))"
proof -
  have "jm_maxThreads s = m"
    using assms(3) by (induction rule: rtranclp_induct) (auto simp: NewParallelJobManager_def safe_step_def dest: max_step)
  with pjm_inv_reachable [OF assms(3,1,2)] show ?thesis
    by (auto simp: pjm_inv_def accurate_def bounded_def separated_def)
qed

theorem jobs_within_limit_witness:
  "map (fst \<circ> job_name) (running (after_safe overlapping_schedule)) = [''b'', ''a''] \<and> load (after_safe overlapping_schedule) \<le> 4"
proof -
  have "list_all (cmd_fits 4) example_jobs" and "map (fst \<circ> job_name) (running (after_safe overlapping_schedule)) = [''b'', ''a'']"
    by code_simp+
  with jobs_within_limit [of 4 example_jobs, OF _ _ after_safe_steps] show ?thesis by simp
qed

text \<open>
  C17. A run of the job manager ends: every step uses up work, and from every state of a run without
  overlapping updates there is a continuation to a panic or to the end of all goroutines, where, if
  no task failed, every job was started in the order of the calls.
\<close>

theorem parallel_runs_end:
  assumes "0 \<le> m" and "list_all (cmd_fits m) cmds"
    and "safe_step\<^sup>*\<^sup>* (NewParallelJobManager m cmds) s"
  shows "(\<exists>t. safe_step\<^sup>*\<^sup>* s t \<and> (jm_panicked t \<or>
      finished t \<and> (jm_lastError t = None \<longrightarrow> rev (jm_started t) = jobs_from 0 cmds))) \<and>
    (pstep s s' \<longrightarrow> work s' < work s)"
  using runs_end [OF pjm_inv_reachable [OF assms(3,1,2)]] finished_all work_less by blast

theorem parallel_runs_end_witness:
  "\<exists>t. safe_step\<^sup>*\<^sup>* (after_safe overlapping_schedule) t \<and> (jm_panicked t \<or> finished t)"
proof -
  have "list_all (cmd_fits 4) example_jobs" by code_simp
  from parallel_runs_end [of 4, OF _ this after_safe_steps [of overlapping_schedule]] show ?thesis by fastforce
qed




section \<open>The volume stores\<close>

text \<open>
  C20. Both volume managers refine a partial map from IDs to volumes: after any sequence of Put and
  Pop, whatever came of the saves, Get answers as the map does after the same updates.
\<close>

theorem stores_refine_maps:
  "manager_Get (fst (run_state (run_ops NodeVolumeManager_Put NodeVolumeManager_Pop nops nm) w)) =
     fold (op_spec nv_ID) nops (manager_Get nm) \<and>
   manager_Get (fst (run_state (run_ops ControllerVolumeManager_Put ControllerVolumeManager_Pop cops cm) w)) =
     fold (op_spec cv_ID) cops (manager_Get cm)"
  using nodes.run_ops_spec [OF surjective_pairing] controllers.run_ops_spec [OF surjective_pairing] by blast

text \<open>
  C21. A restart reads the volumes back: where Put saved the node's file, encrypted or plain, a manager
  started with the same key in any world that holds the file has the volumes that were held when it
  was written, each with its configuration as the same map in the order of its keys. The texts are to
  be UTF-8; the JSON text is that of encoding/json, the cipher is a parameter.
\<close>

theorem restart_reads_back:
  assumes "run_state (NodeVolumeManager_Put v m) w = ((None, m'), w')" and "cipher_ok (w_env w)"
    and "volumes_ok node_ok (mg_volumes m')"
    and "mg_savefilePath m = JoinPath [if dir = [] then ''/'' else dir, ''node_volumes.json'']"
  shows "\<exists>data. hd (w_trace w') = EvCall (WriteFile (mg_savefilePath m) data mode_0644) None \<and>
    (\<forall>w2. e_open (w_env w2) = e_open (w_env w) \<longrightarrow> holds_file w2 (mg_savefilePath m) data \<longrightarrow>
       (\<exists>m2 w3. run_state (NewNodeVolumeManager (mg_encryptKey m) dir) w2 = (Some m2, w3)
          \<and> manager_Get m2 = map_option norm_node \<circ> (manager_Get m)(nv_ID v \<mapsto> v)))"
  by (rule nodes_restart [OF assms])

text \<open>One volume with two settings, and a world that holds what is in a file.\<close>

definition one_volume :: node_volume where
  "one_volume = zero_node\<lparr>nv_ID := ''v'', nv_MountOptions := [''rw''], nv_ClientConfig := [(''path'', ''/p''), (''host'', ''h&'')]\<rparr>"

definition one_manager :: "node_volume manager" where
  "one_manager = \<lparr>mg_encryptKey = ''key'', mg_savefilePath = ''/s/node_volumes.json'', mg_volumes = []\<rparr>"

definition one_world :: "string \<Rightarrow> world" where
  "one_world data = example_world\<lparr>w_env := example_env\<lparr>e_stat := (\<lambda>_ _. Inr 1), e_read_file := (\<lambda>_ _. Inr data)\<rparr>\<rparr>"

theorem restart_reads_back_witness:
  "\<exists>data m2 w3. run_state (NewNodeVolumeManager ''key'' ''/s'') (one_world data) = (Some m2, w3) \<and>
     manager_Get m2 ''v'' = Some (one_volume\<lparr>nv_ClientConfig := [(''host'', ''h&''), (''path'', ''/p'')]\<rparr>)"
proof -
  let ?r = "run_state (NodeVolumeManager_Put one_volume one_manager) example_world"
  have "fst (fst ?r) = None" by code_simp
  moreover have "snd (fst ?r) = one_manager\<lparr>mg_volumes := [(''v'', one_volume)]\<rparr>"
    using manager_Put_run(1) [of node_codec "nv_ID one_volume" one_volume one_manager example_world "fst (fst ?r)" "snd (fst ?r)" "snd ?r"]
    by (simp add: NodeVolumeManager_Put_def one_manager_def one_volume_def)
  ultimately have r: "?r = ((None, one_manager\<lparr>mg_volumes := [(''v'', one_volume)]\<rparr>), snd ?r)"
    by (simp add: prod_eq_iff)
  have ok: "volumes_ok node_ok (mg_volumes (one_manager\<lparr>mg_volumes := [(''v'', one_volume)]\<rparr>))" by code_simp
  have path: "mg_savefilePath one_manager = JoinPath [if ''/s'' = [] then ''/'' else ''/s'', ''node_volumes.json'']" by code_simp
  have norm: "norm_node one_volume = one_volume\<lparr>nv_ClientConfig := [(''host'', ''h&''), (''path'', ''/p'')]\<rparr>" by code_simp
  have w: "w_env example_world = example_env" "cipher_ok example_env" by (simp_all add: example_world_def example_cipher)
  obtain data where "\<And>w2. e_open (w_env w2) = e_open example_env \<Longrightarrow> holds_file w2 (mg_savefilePath one_manager) data \<Longrightarrow>
      \<exists>m2 w3. run_state (NewNodeVolumeManager (mg_encryptKey one_manager) ''/s'') w2 = (Some m2, w3) \<and>
        manager_Get m2 = map_option norm_node \<circ> (manager_Get one_manager)(nv_ID one_volume \<mapsto> one_volume)"
    using restart_reads_back [OF r, unfolded w(1), OF w(2) ok path] by blast
  from this [of "one_world data"] norm show ?thesis
    by (fastforce simp: one_world_def example_world_def holds_file_def example_env_def one_manager_def one_volume_def zero_node_def)
qed

text \<open>
  C22. The mutex makes the operations of a manager atomic: goroutines that run any Put, Pop, Get and Check
  at the same time, step by step, never get stuck, every run of them ends, and what comes of it,
  results, map and world, is what comes of the operations done one after the other in some order.
\<close>

theorem managers_serialise:
  assumes "(mgr_step cd vid)\<^sup>*\<^sup>* (shared_start ops m w) s"
  shows "(\<exists>s'. (mgr_step cd vid)\<^sup>*\<^sup>* s s' \<and> all_back s') \<and> (mgr_step cd vid s t \<longrightarrow> work_left t < work_left s) \<and>
    (all_back s \<longrightarrow> (\<exists>order rs. distinct order \<and> set order = {..<length ops} \<and>
       run_state (do_ops cd vid (map ((!) ops) order) m) w = ((rs, sh_manager s), sh_world s) \<and>
       (\<forall>j < length order. snd (sh_threads s ! (order ! j)) = Returned (rs ! j)) \<and>
       manager_Get (sh_manager s) = fold (mgr_spec vid) (map ((!) ops) order) (manager_Get m)))"
  using some_run_ends [OF assms] work_left_step [of cd vid s t] mutex_serialises [OF assms] do_ops_spec by metis

theorem managers_serialise_witness:
  "\<exists>s. (mgr_step node_codec nv_ID)\<^sup>*\<^sup>* (shared_start [M_Put one_volume, M_Get ''v''] one_manager example_world) s \<and>
     all_back s \<and> manager_Get (sh_manager s) ''v'' = Some one_volume"
proof -
  let ?ops = "[M_Put one_volume, M_Get ''v'']"
  obtain s where s: "(mgr_step node_codec nv_ID)\<^sup>*\<^sup>* (shared_start ?ops one_manager example_world) s" "all_back s"
    using managers_serialise [of node_codec nv_ID ?ops one_manager example_world, OF rtranclp.rtrancl_refl] by blast
  obtain order where o: "distinct order" "set order = {..<length ?ops}"
    "manager_Get (sh_manager s) = fold (mgr_spec nv_ID) (map ((!) ?ops) order) (manager_Get one_manager)"
    using managers_serialise [OF s(1)] s(2) by blast
  have "length order = 2" using distinct_card [OF o(1)] o(2) by simp
  then obtain a b where ab: "order = [a, b]" by (auto simp: numeral_2_eq_2 length_Suc_conv)
  have "{a, b} = {0, 1}" using o(2) unfolding ab by (auto simp: lessThan_Suc)
  then have "order = [0, 1] \<or> order = [1, 0]" using o(1) unfolding ab by (auto simp: doubleton_eq_iff)
  with o(3) have "manager_Get (sh_manager s) ''v'' = Some one_volume" by (auto simp: one_volume_def)
  with s show ?thesis by blast
qed

text \<open>
  C23. The type of what a manager of the node holds after a start, whatever was in its file: every text
  is UTF-8, and every map has each key once. So what was read can be saved, and its file
  reads back the same volumes.
\<close>

theorem loaded_volumes_typed:
  assumes "run_state (NewNodeVolumeManager key dir) w = (Some m, w')"
  shows "volumes_ok node_ok (mg_volumes m) \<and> codec_reads_back norm_node node_codec (mg_volumes m)"
  using new_node_manager_ok [OF assms] node_json.codec_reads_back [of "mg_volumes m"]
  by (simp add: volumes_ok_def node_codec_def)

text \<open>A file with a byte outside UTF-8, a name in other letters, an unknown one and a value of the wrong type.\<close>

definition odd_file :: string where
  "odd_file = ''{'' @ json_string ''v'' @ '':{'' @ json_string ''ID'' @ '':'' @ [quote, CHR 0xFF, quote] @ '', '' @
     json_string ''o'' @ '':[1]}, '' @ json_string ''x'' @ '':3}''"

theorem loaded_volumes_typed_witness:
  "\<exists>m w'. run_state (NewNodeVolumeManager [] ''/s'') (one_world odd_file) = (Some m, w') \<and>
     mg_volumes m = [(''v'', zero_node\<lparr>nv_ID := replacement\<rparr>), (''x'', zero_node)] \<and> volumes_ok node_ok (mg_volumes m)"
proof -
  let ?r = "run_state (NewNodeVolumeManager [] ''/s'') (one_world odd_file)"
  have v: "map_option mg_volumes (fst ?r) = Some [(''v'', zero_node\<lparr>nv_ID := replacement\<rparr>), (''x'', zero_node)]"
    by code_simp
  then obtain m where "?r = (Some m, snd ?r)" and
    "mg_volumes m = [(''v'', zero_node\<lparr>nv_ID := replacement\<rparr>), (''x'', zero_node)]"
    by (cases "fst ?r") (auto simp: prod_eq_iff)
  with loaded_volumes_typed show ?thesis by blast
qed

text \<open>
  C24. A staged volume is known after a restart of the driver: NodeStageVolume has saved the records last
  thing, and every later driver that starts on that file with the same key has all records of the
  node, the volume staged at its path among them.
\<close>

theorem staged_survives_restart:
  assumes "go_map_ok (st_VolumeContext req)" and "isDynamicVolumeProvisioningMode (st_VolumeContext req)"
    and "run_state (NodeStageVolume req) d = (Inr (), d')" and "cipher_ok (w_env (d_world d))"
    and "volumes_ok node_ok (mg_volumes (d_nodes d'))"
  shows "\<exists>data. hd (d_trace d') = EvCall (WriteFile (mg_savefilePath (d_nodes d')) data mode_0644) None \<and>
    (\<forall>d2. restarted conf ''node_volumes.json'' d' data d2 \<longrightarrow>
       manager_Get (d_nodes d2) = map_option norm_node \<circ> manager_Get (d_nodes d') \<and>
       staged (st_VolumeId req) (st_StagingTargetPath req) d2)"
  by (rule stage_restart [OF assms])

lemma example_started_env: "w_env (d_world example_started) = example_env"
  using first_start(3) [OF example_start] example_fresh
  by (simp add: fresh_process_def balanced_init removed_dirs_def extends_env example_process_def example_world_def)

text \<open>The driver of the first start stages the volume; the world of the second holds the node's file.\<close>

definition again :: "string \<Rightarrow> process" where
  "again data = example_process\<lparr>p_world := example_world\<lparr>w_env := example_env
     \<lparr>e_stat := (\<lambda>_ p. if p = ''/storage/controller_volumes.json'' then Inl (SysErr PathError ENOENT) else Inr 1),
      e_read_file := (\<lambda>_ _. Inr data)\<rparr>\<rparr>\<rparr>"

theorem staged_survives_restart_witness:
  "\<exists>data d2. restarted example_conf ''node_volumes.json'' (snd (run_state (NodeStageVolume example_stage) example_started)) data d2 \<and>
     staged ''v'' ''/stage'' d2"
proof -
  let ?r = "run_state (NodeStageVolume example_stage) example_started" and ?d = "snd (run_state (NodeStageVolume example_stage) example_started)"
  have ex: "st_VolumeContext example_stage = example_context" "st_VolumeId example_stage = ''v''"
    "st_StagingTargetPath example_stage = ''/stage''"
    by (simp_all add: example_stage_def)
  have "case ?r of (x, d) \<Rightarrow> x = Inr () \<and> volumes_ok node_ok (mg_volumes (d_nodes d)) \<and>
      mg_encryptKey (d_nodes d) = default_encrypt_key \<and> mg_encryptKey (d_controllers d) = default_encrypt_key"
    by code_simp
  then have r: "?r = (Inr (), ?d)" and v: "volumes_ok node_ok (mg_volumes (d_nodes ?d))"
    and k: "mg_encryptKey (d_nodes ?d) = default_encrypt_key" "mg_encryptKey (d_controllers ?d) = default_encrypt_key"
    by (simp_all add: case_prod_beta prod_eq_iff)
  have e: "w_env (d_world example_started) = example_env" by (rule example_started_env)
  then have e2: "w_env (d_world ?d) = example_env"
    using env_same [OF keeps_NodeStageVolume(2) r] by simp
  have c: "cipher_ok (w_env (d_world example_started))" using example_cipher e by simp
  obtain data where h: "hd (d_trace ?d) = EvCall (WriteFile (mg_savefilePath (d_nodes ?d)) data mode_0644) None"
    and s: "\<And>d2. restarted example_conf ''node_volumes.json'' ?d data d2 \<Longrightarrow> staged ''v'' ''/stage'' d2"
    using staged_survives_restart [of example_stage, unfolded ex, OF example_context_ok r c v] by blast
  have "fst (run_state (start_secrets example_conf) (p_world (again data))) = ([], default_encrypt_key)" by code_simp
  then obtain w1 where st: "run_state (start_secrets example_conf) (p_world (again data)) = (([], default_encrypt_key), w1)"
    by (metis prod.exhaust_sel)
  have p: "save_path ''/storage'' ''controller_volumes.json'' = ''/storage/controller_volumes.json''" by code_simp
  have "w_env w1 = w_env (p_world (again data))" using extendsD [OF keeps_start_secrets st] by (simp add: extends_env)
  then have "case e_stat (w_env w1) (w_trace w1) (save_path ''/storage'' ''controller_volumes.json'') of
      Inl err \<Rightarrow> IsNotExist err | Inr _ \<Rightarrow> False"
    unfolding p by (simp add: again_def IsNotExist_def)
  from new_manager_empty [OF this, of "controller_codec (e_conn_json (w_env w1))" default_encrypt_key] obtain cm w2 where
    cm: "run_state (NewControllerVolumeManager default_encrypt_key (StoragePath example_conf)) w1 = (Some cm, w2)"
    unfolding NewControllerVolumeManager_def by (auto simp: run_the_env example_conf_def prod_eq_iff)
  have n: "save_path (StoragePath example_conf) ''node_volumes.json'' \<noteq> ''/storage/controller_volumes.json''" by code_simp
  have "saved_nodes ?d" by (rule savesD [OF saves_NodeStageVolume r c])
  then have "\<exists>d2. restarted example_conf ''node_volumes.json'' ?d data d2"
    using st cm k h e2 n by (intro restart_possible [of example_conf "again data"])
      (simp_all add: again_def example_world_def example_process_def file_is_def)
  with s show ?thesis by blast
qed

text \<open>
  C25. A volume that was created is known after a restart, and can be deleted: CreateVolume has saved the
  controller's records last thing, a later driver that starts on that file has them all, with
  their connections, and where its DeleteVolume succeeds it has removed the collection, unless the
  data is retained.
\<close>

theorem created_survives_restart:
  assumes "go_map_ok (cr_Parameters req)"
    and "run_state (CreateVolume req) d = (Inr vol, d')" and "cipher_ok (w_env (d_world d))"
    and "volumes_ok (controller_ok (e_conn_json (w_env (d_world d')))) (mg_volumes (d_controllers d'))"
  shows "\<exists>data v. hd (d_trace d') = EvCall (WriteFile (mg_savefilePath (d_controllers d')) data mode_0644) None \<and>
    stored_volume req vol d' v \<and>
    (\<forall>d2 d3. restarted conf ''controller_volumes.json'' d' data d2 \<longrightarrow>
       manager_Get (d_controllers d2) = manager_Get (d_controllers d') \<and>
       (run_state (DeleteVolume (csi_VolumeId vol)) d2 = (Inr (), d3) \<longrightarrow> \<not> cv_RetainData v \<longrightarrow>
          EvCall (IrodsRemoveDir (cv_Path v) True True) None \<in> set (d_trace d3)))"
  by (rule create_restart [OF assms])

text \<open>A world in which the fields of a connection that the example uses are written and read.\<close>

definition used_fields :: conn_codec where
  "used_fields = \<lparr>
     cc_to_json = (\<lambda>ci. JArray (map JString [Host ci, ZoneName ci, Username ci, Password ci, IRODSPath (hd (PathMappings ci))])),
     cc_of_json = (\<lambda>j.
       case j of
         JArray [JString h, JString z, JString u, JString pw, JString c] \<Rightarrow>
           ((NewIRODSFSConnectionInfo example_lib)\<lparr>Host := h, ZoneName := z, Username := u, Password := pw,
              PathMappings := [\<lparr>IRODSPath = c, MappingPath = ''/'', ResourceType = ''dir'', vpath_rest = []\<rparr>]\<rparr>, None)
       | _ \<Rightarrow> (NewIRODSFSConnectionInfo example_lib, Some (ExtErr ''json''))),
     cc_zero = NewIRODSFSConnectionInfo example_lib\<rparr>"

definition alice_connection :: conn_info where
  "alice_connection = (NewIRODSFSConnectionInfo example_lib)\<lparr>Host := ''irods'', ZoneName := ''z'', Username := ''alice'',
     Password := ''pw'', PathMappings := [\<lparr>IRODSPath = ''/z/home/pvc'', MappingPath = ''/'', ResourceType = ''dir'', vpath_rest = []\<rparr>]\<rparr>"

definition writing_driver :: driver where
  "writing_driver = example_driver\<lparr>d_process := example_process\<lparr>p_world :=
     example_world\<lparr>w_env := example_env\<lparr>e_conn_json := used_fields\<rparr>\<rparr>\<rparr>\<rparr>"

lemma alice_reads_back: "conn_reads_back used_fields alice_connection"
proof -
  have "cc_of_json used_fields (cc_to_json used_fields alice_connection) = (alice_connection, None)"
    and "cc_to_json used_fields alice_connection = JArray (map JString [''irods'', ''z'', ''alice'', ''pw'', ''/z/home/pvc''])"
    and "list_all utf8 [''irods'', ''z'', ''alice'', ''pw'', ''/z/home/pvc'']"
    by code_simp+
  then show ?thesis by (simp add: conn_reads_back_def max_depth_def)
qed

theorem created_survives_restart_witness:
  "\<exists>vol d' data. run_state (CreateVolume example_create) writing_driver = (Inr vol, d') \<and>
     hd (d_trace d') = EvCall (WriteFile (mg_savefilePath (d_controllers d')) data mode_0644) None \<and>
     (\<forall>d2. restarted example_conf ''controller_volumes.json'' d' data d2 \<longrightarrow>
        map_option cv_ConnectionInfo (manager_Get (d_controllers d2) ''volid-pvc-x1'') = Some alice_connection)"
proof -
  let ?v = "\<lparr>cv_ID = ''volid-pvc-x1'', cv_Name = ''pvc'', cv_RootPath = ''/z/home'', cv_Path = ''/z/home/pvc'',
    cv_ConnectionInfo = alice_connection, cv_RetainData = False\<rparr>"
  have "case run_state (CreateVolume example_create) writing_driver of (r, d) \<Rightarrow>
      \<not> isl r \<and> mg_volumes (d_controllers d) = [(''volid-pvc-x1'', ?v)]"
    by code_simp
  then obtain vol d' where r: "run_state (CreateVolume example_create) writing_driver = (Inr vol, d')"
    and m: "mg_volumes (d_controllers d') = [(''volid-pvc-x1'', ?v)]"
    by (auto split: prod.splits sum.splits simp: isl_def) (metis obj_sumE)
  have w: "w_env (d_world writing_driver) = example_env\<lparr>e_conn_json := used_fields\<rparr>"
    by (simp add: writing_driver_def example_process_def example_world_def)
  have e: "w_env (d_world d') = w_env (d_world writing_driver)" by (rule env_same [OF keeps_CreateVolume(2) r])
  have c: "cipher_ok (w_env (d_world writing_driver))" using example_cipher unfolding w by (simp add: cipher_ok_def)
  have u: "list_all utf8 [''volid-pvc-x1'', ''pvc'', ''/z/home'', ''/z/home/pvc'']" by code_simp
  have ok: "volumes_ok (controller_ok (e_conn_json (w_env (d_world d')))) (mg_volumes (d_controllers d'))"
    unfolding m e w using alice_reads_back u by (simp add: volumes_ok_def controller_ok_def)
  have p: "go_map_ok (cr_Parameters example_create)" by code_simp
  obtain data where d: "hd (d_trace d') = EvCall (WriteFile (mg_savefilePath (d_controllers d')) data mode_0644) None"
    "\<And>d2. restarted example_conf ''controller_volumes.json'' d' data d2 \<Longrightarrow> manager_Get (d_controllers d2) = manager_Get (d_controllers d')"
    using created_survives_restart [OF p r c ok, of example_conf] by blast
  have "map_option cv_ConnectionInfo (manager_Get (d_controllers d') ''volid-pvc-x1'') = Some alice_connection"
    by (simp add: manager_Get_def m)
  with r d show ?thesis by metis
qed

text \<open>
  C26. Two flaws of loading. With a key, a file shorter than the nonce makes the constructor of either
  manager panic, so the driver does not start. Without a key, loading a file with content always
  reports an error, also where the text is good and the volumes have been read from it.
\<close>

theorem load_flaws:
  "(holds_file w (JoinPath [if dir = [] then ''/'' else dir, fileName]) data \<longrightarrow> length data < nonceSize \<longrightarrow> key \<noteq> [] \<longrightarrow>
      fst (run_state (new_manager cd fileName key dir) w) = None) \<and>
   snd (load_plain cd m (c # cs)) \<noteq> None \<and>
   (cd_valid cd (c # cs) \<and> cd_unmarshal cd (c # cs) (mg_volumes m) = (vs, None) \<longrightarrow>
      load_plain cd m (c # cs) = (vs, Some (StatusErr Internal ''invalid json data'' [])))"
  using new_manager_panics [of w dir fileName data key cd]
  by (auto simp: load_plain_def unmarshal_volumes_def split: prod.splits option.splits)

definition good_text :: string where
  "good_text = ''{'' @ json_string ''v'' @ '': {'' @ json_string ''id'' @ '': '' @ json_string ''v'' @ ''}}''"

theorem load_flaws_witness:
  "fst (run_state (new_manager node_codec ''node_volumes.json'' ''key'' ''/s'') (one_world ''{}'')) = None \<and>
   load_plain node_codec one_manager good_text =
     ([(''v'', zero_node\<lparr>nv_ID := ''v''\<rparr>)], Some (StatusErr Internal ''invalid json data'' []))"
proof -
  have "good_text = CHR ''{'' # tl good_text" by code_simp
  moreover have "cd_valid node_codec good_text \<and>
      cd_unmarshal node_codec good_text (mg_volumes one_manager) = ([(''v'', zero_node\<lparr>nv_ID := ''v''\<rparr>)], None)"
    by code_simp
  moreover have "holds_file (one_world ''{}'') (JoinPath [if ''/s'' = [] then ''/'' else ''/s'', ''node_volumes.json'']) ''{}''"
    "length ''{}'' < nonceSize"
    by (simp_all add: holds_file_def one_world_def example_world_def example_env_def nonceSize_def)
  ultimately show ?thesis
    using load_flaws [of "one_world ''{}''" "''/s''" "''node_volumes.json''" "''{}''" "''key''" node_codec one_manager "CHR ''{''" "tl good_text"]
    by simp
qed

section \<open>Configuration and connections\<close>

text \<open>
  C27. Precedence of MergeConfig: the driver's own storage path and pool endpoint come first, then
  the driver's secrets, the volume parameters, and last the volume secrets; entries with an empty
  value do not count, and keys are compared in their normal form.
\<close>

theorem merge_precedence:
  "map_of (MergeConfig dc ds vs vp) k =
     (if k = ''storagepath'' \<and> StoragePath dc \<noteq> [] then Some (StoragePath dc)
      else if k = ''poolendpoint'' \<and> PoolServiceEndpoint dc \<noteq> [] then Some (PoolServiceEndpoint dc)
      else case map_of (normed ds) k of
          Some v \<Rightarrow> Some v
        | None \<Rightarrow> (case map_of (normed vp) k of Some v \<Rightarrow> Some v | None \<Rightarrow> map_of (normed vs) k))"
  by (rule map_of_MergeConfig)

text \<open>
  C28. The three loops of MergeConfig visit their maps in orders the runtime chooses; where no map has
  two counting keys with the same normal form, the result is the same map.
\<close>

theorem merge_order:
  assumes "mset ds = mset ds'" and "no_alias ds" and "mset vs = mset vs'" and "no_alias vs"
    and "mset vp = mset vp'" and "no_alias vp"
  shows "map_of (MergeConfig dc ds vs vp) = map_of (MergeConfig dc ds' vs' vp')"
  unfolding map_of_MergeConfig fun_eq_iff normed_perm [OF assms(1,2)] normed_perm [OF assms(3,4)]
    normed_perm [OF assms(5,6)] by simp

theorem merge_order_witness:
  "map_of (MergeConfig example_conf [(''user'', ''a''), (''host'', ''h'')] [] [(''path'', ''/p''), (''Zone'', ''z'')]) =
   map_of (MergeConfig example_conf [(''host'', ''h''), (''user'', ''a'')] [] [(''Zone'', ''z''), (''path'', ''/p'')])"
  by (rule merge_order) code_simp+


text \<open>
  C30. RedactConfig hides the two password entries and nothing else: every other entry keeps its
  value, and no entry is added.
\<close>

theorem redact_hides_passwords:
  assumes "go_map_ok config"
  shows "map_of (RedactConfig config) k =
    (if k = ''password'' \<or> k = ''irodsuserpassword'' then map_option (\<lambda>_. ''**REDACTED**'') (map_of config k)
     else map_of config k)"
  using map_of_redact_entries [of "[]" config k] assms
  by (auto simp: RedactConfig_def go_map_ok_def split: option.splits)

theorem redact_hides_passwords_witness:
  "map_of (RedactConfig [(''user'', ''a''), (''password'', ''pw''), (''userpassword'', ''pw'')]) ''password'' =
     Some ''**REDACTED**'' \<and>
   map_of (RedactConfig [(''user'', ''a''), (''password'', ''pw''), (''userpassword'', ''pw'')]) ''userpassword'' =
     Some ''pw''"
proof -
  have ok: "go_map_ok [(''user'', ''a''), (''password'', ''pw''), (''userpassword'', ''pw'')]"
    by (simp add: go_map_ok_def)
  show ?thesis by (simp add: redact_hides_passwords [OF ok])
qed




text \<open>
  C32. The whitelist check is the intended one, up to a flaw: an absolute path is allowed exactly
  where its cleaned elements extend those of an item of the list, except where the next element
  below the item starts with two dots.
\<close>

theorem whitelist_exact:
  "IsMountPathAllowed ws (CHR ''/'' # path) \<longleftrightarrow>
     (\<exists>item \<in> set ws. lies_below item (CHR ''/'' # path) \<and> \<not> next_elem_dotted item (CHR ''/'' # path))"
  using isSubDir_iff [of "CHR ''/'' # path"] by (auto simp: IsMountPathAllowed_iff IsAbs_def)




section \<open>Mounting\<close>

text \<open>
  C34. The client's mount: success leaves the target mounted and counts one mount, failure counts one
  failure, the history only grows, and no other path is mounted or unmounted but the volume's own
  overlay directory.
\<close>

theorem mount_client_contract:
  assumes "run_state (MountClient volID configs opts target) p = (err, p')"
  shows "p_metrics p' = apply_step (if err = None then Mounted_one else Mount_failure) (p_metrics p) \<and>
    extends (p_world p) (p_world p') \<and>
    (err = None \<longrightarrow> last_op target (w_trace (p_world p')) = Some Did_mount) \<and>
    (q \<noteq> target \<and> q \<noteq> GetConfigOverlayFSLowerPath configs volID \<longrightarrow>
       last_op q (w_trace (p_world p')) = last_op q (w_trace (p_world p)))"
  using MountClient_spec [OF assms] MountClient_frame [OF assms, of q] by blast

theorem mount_client_contract_witness:
  "let p' = snd (run_state (MountClient ''v'' example_context [''rw''] ''/mnt'') example_process)
   in last_op ''/mnt'' (w_trace (p_world p')) = Some Did_mount \<and> last_op ''/other'' (w_trace (p_world p')) = None"
proof -
  let ?p = "snd (run_state (MountClient ''v'' example_context [''rw''] ''/mnt'') example_process)"
  have f: "fst (run_state (MountClient ''v'' example_context [''rw''] ''/mnt'') example_process) = None"
    and q: "''/other'' \<noteq> GetConfigOverlayFSLowerPath example_context ''v''" by code_simp+
  from f have "run_state (MountClient ''v'' example_context [''rw''] ''/mnt'') example_process = (None, ?p)"
    by (simp add: prod_eq_iff)
  from mount_client_contract [OF this, of "''/other''"] q show ?thesis
    by (simp add: example_process_def example_world_def)
qed

text \<open>
  C35. What is logged of a mount command does not depend on its secrets: the log text is the same for
  any sensitive options of the same number and any source shown under the same mask.
\<close>

theorem mount_log_hides_secrets:
  assumes "length sens = length sens'" and "src = [] \<longleftrightarrow> src' = []"
  shows "snd (MakeMountArgsSensitive src masked target fstype opts sens) =
    snd (MakeMountArgsSensitive src' masked target fstype opts sens')"
  using assms by (auto simp: MakeMountArgsSensitive_def Let_def sanitizedOptionsForLogging_eq)

theorem mount_log_hides_secrets_witness:
  "snd (MakeMountArgsSensitive ''s'' ''***'' ''/t'' ''irodsfs'' [''rw''] [''password=pw'']) =
     ''-t irodsfs -o rw,<masked> *** /t'' \<and>
   snd (MakeMountArgsSensitive ''u'' ''***'' ''/t'' ''irodsfs'' [''rw''] [''password=qx'']) =
     ''-t irodsfs -o rw,<masked> *** /t''"
proof -
  have r: "snd (MakeMountArgsSensitive ''s'' ''***'' ''/t'' ''irodsfs'' [''rw''] [''password=pw'']) =
     ''-t irodsfs -o rw,<masked> *** /t''" by code_simp
  with mount_log_hides_secrets [of "[''password=pw'']" "[''password=qx'']" "''s''" "''u''"] show ?thesis
    by simp
qed



definition example_info :: "int \<Rightarrow> string \<Rightarrow> mount_info" where
  "example_info i path = \<lparr>mi_ID = i, mi_ParentID = 1, mi_Major = 8, mi_Minor = 2, mi_Root = ''/'', mi_Source = ''/dev/sda'',
     mi_MountPoint = path, mi_OptionalFields = [''shared:1''], mi_FsType = ''ext4'', mi_MountOptions = [''rw''],
     mi_SuperOptions = [''rw'']\<rparr>"


text \<open>
  C37. The other mounts of a source: with the last entry of the table that covers the path as the
  mount it lies on, the result lists exactly the mount points of the other entries of the same device
  with the same root.
\<close>

theorem mount_refs_spec:
  assumes "search_refs within h mis = Inr refs"
  shows "\<exists>before mi after. mis = before @ mi # after \<and> covers within h mi \<and> list_all (\<lambda>x. \<not> covers within h x) after \<and>
    refs = map mi_MountPoint (filter (\<lambda>x. mi_ID x \<noteq> mi_ID mi \<and> mi_Root x = root_path h mi \<and>
      mi_Major x = mi_Major mi \<and> mi_Minor x = mi_Minor mi) mis)"
proof -
  from assms obtain mi where mi: "find_last within h mis = Some mi"
    by (auto simp: search_refs_def split: option.splits if_splits)
  with assms have "refs = map mi_MountPoint (filter (\<lambda>x. mi_ID x \<noteq> mi_ID mi \<and> mi_Root x = root_path h mi \<and>
      mi_Major x = mi_Major mi \<and> mi_Minor x = mi_Minor mi) mis)"
    by (auto simp: search_refs_def Let_def split: if_splits)
  with find_last_Some [OF mi] show ?thesis by (auto simp: list_all_iff)
qed

theorem mount_refs_spec_witness:
  "search_refs HasPrefix ''/'' [example_info 20 ''/'', example_info 21 ''/b''] = Inr [''/b''] \<and>
   (\<exists>before mi after. [example_info 20 ''/'', example_info 21 ''/b''] = before @ mi # after \<and> covers HasPrefix ''/'' mi)"
proof -
  have r: "search_refs HasPrefix ''/'' [example_info 20 ''/'', example_info 21 ''/b''] = Inr [''/b'']" by code_simp
  obtain before mi after where "[example_info 20 ''/'', example_info 21 ''/b''] = before @ mi # after"
    "covers HasPrefix ''/'' mi"
    using mount_refs_spec [OF r] by (elim exE conjE)
  then show ?thesis by (intro conjI exI r)
qed


section \<open>The host\<close>

text \<open>
  C38. The kernel version is read back from what the kernel prints, three numbers, an optional suffix
  after a dash and a newline, and the overlay driver is used exactly from 5.15 on, in the
  lexicographic order; an unreadable version counts as too old.
\<close>

theorem kernel_version_roundtrip:
  assumes "0 \<le> a" "a \<le> max_int64" "0 \<le> b" "b \<le> max_int64" "0 \<le> c" "c \<le> max_int64"
    and "sfx = [] \<or> hd sfx = CHR ''-''" and "list_all (\<lambda>x. \<not> is_space x) sfx"
  shows "GetKernelInfo (Inr (Join [Itoa a, Itoa b, Itoa c] ''.'' @ sfx @ [CHR 0x0A])) =
      Inr \<lparr>Major = a, Minor = b, Patch = c\<rparr> \<and>
    (overlay_supported (GetKernelInfo (Inr (Join [Itoa a, Itoa b, Itoa c] ''.'' @ sfx @ [CHR 0x0A]))) \<longleftrightarrow>
      5 < a \<or> a = 5 \<and> 15 \<le> b) \<and> \<not> overlay_supported (Inl err)"
proof -
  have "overlay_supported (Inr \<lparr>Major = a, Minor = b, Patch = c\<rparr>) \<longleftrightarrow> 5 < a \<or> a = 5 \<and> 15 \<le> b"
    using assms(5) by (auto simp: overlay_supported_def HasHigherKernelVersionThan_def)
  with GetKernelInfo_print [OF assms(1-7)] assms(8) show ?thesis by (simp add: list_all_iff overlay_supported_def)
qed

theorem kernel_version_roundtrip_witness:
  "GetKernelInfo (Inr (''5.15.0-generic'' @ [CHR 0x0A])) = Inr \<lparr>Major = 5, Minor = 15, Patch = 0\<rparr> \<and>
   overlay_supported (GetKernelInfo (Inr (''5.15.0-generic'' @ [CHR 0x0A])))"
proof -
  have j: "Join [Itoa 5, Itoa 15, Itoa 0] ''.'' @ ''-generic'' @ [CHR 0x0A] = ''5.15.0-generic'' @ [CHR 0x0A]"
    and l: "list_all (\<lambda>x. \<not> is_space x) ''-generic''"
    by code_simp+
  have "GetKernelInfo (Inr (Join [Itoa 5, Itoa 15, Itoa 0] ''.'' @ ''-generic'' @ [CHR 0x0A])) =
      Inr \<lparr>Major = 5, Minor = 15, Patch = 0\<rparr> \<and>
    (overlay_supported (GetKernelInfo (Inr (Join [Itoa 5, Itoa 15, Itoa 0] ''.'' @ ''-generic'' @ [CHR 0x0A]))) \<longleftrightarrow>
      5 < (5::int) \<or> (5::int) = 5 \<and> 15 \<le> (15::int)) \<and> \<not> overlay_supported (Inl (ExtErr []))"
    by (rule kernel_version_roundtrip [OF _ _ _ _ _ _ _ l]) (simp_all add: max_int64_def)
  then show ?thesis using order.refl [of "15::int"] unfolding j by blast
qed

text \<open>
  C39. The umask belongs to the process: goroutines that make their directories one after the other leave it
  as it was and make each directory under mask 0; but for any two missing directories there is an
  order of the calls that makes the second one under the old mask and leaves the process without
  a umask for good.
\<close>

theorem umask_race:
  assumes "e_stat (w_env w) (w_trace w) p = Inl e" and "IsNotExist e"
    and "e_stat (w_env w) (EvStat p (Inl e) # w_trace w) q = Inl e'" and "IsNotExist e'"
  shows "(\<forall>is. let s = run_schedule cm am is (race_start [p, q] w) in
      exclusive cm am is (race_start [p, q] w) \<longrightarrow> all_returned s \<longrightarrow>
        w_umask (ra_world s) = w_umask w \<and> (\<forall>(x, m) \<in> set (ra_made s). m = 0)) \<and>
    (\<exists>is. let s = run_schedule cm am is (race_start [p, q] w) in
      all_returned s \<and> w_umask (ra_world s) = 0 \<and> ra_made s = [(q, w_umask w), (p, 0)])"
  using exclusive_restores [of cm am _ "[p, q]" w] race_possible [OF assms] unfolding Let_def by blast

theorem umask_race_witness:
  "let w = example_world\<lparr>w_env := example_env\<lparr>e_stat := (\<lambda>_ _. Inl (SysErr PathError ENOENT))\<rparr>\<rparr> in
     \<exists>is. w_umask w = 18 \<and> w_umask (ra_world (run_schedule ''m'' ''a'' is (race_start [''/a'', ''/b''] w))) = 0"
proof -
  let ?e = "SysErr PathError ENOENT"
  let ?w = "example_world\<lparr>w_env := example_env\<lparr>e_stat := (\<lambda>_ _. Inl ?e)\<rparr>\<rparr>"
  have "e_stat (w_env ?w) (w_trace ?w) ''/a'' = Inl ?e" "IsNotExist ?e"
    "e_stat (w_env ?w) (EvStat ''/a'' (Inl ?e) # w_trace ?w) ''/b'' = Inl ?e" "w_umask ?w = 18"
    by (simp_all add: example_world_def IsNotExist_def)
  with umask_race [of ?w "''/a''" ?e "''/b''" ?e "''m''" "''a''"] show ?thesis unfolding Let_def by blast
qed

text \<open>
  C40. What a request's capabilities become: they are accepted exactly where each has one of the five
  access modes the driver names, and the mount options are the flags without repetitions, in the
  order of their first occurrence, with \<open>ro\<close> at the end for the two read-only modes.
\<close>

theorem capabilities_spec:
  "(isValidVolumeCapabilities caps \<longleftrightarrow>
     list_all (\<lambda>c. vc_access_mode c \<in> Some ` {SINGLE_NODE_WRITER, SINGLE_NODE_READER_ONLY, MULTI_NODE_READER_ONLY,
       MULTI_NODE_SINGLE_WRITER, MULTI_NODE_MULTI_WRITER}) caps) \<and>
   GetMountOptions flags mode = (case flags of None \<Rightarrow> [] | Some fs \<Rightarrow> rev (remdups (rev fs))) @
     (if mode \<in> {Some SINGLE_NODE_READER_ONLY, Some MULTI_NODE_READER_ONLY} then [''ro''] else [])"
proof (rule conjI)
  have "(\<exists>m. am = Some m \<and> (\<forall>n. m \<noteq> OTHER_MODE n)) \<longleftrightarrow> am \<in> Some ` {SINGLE_NODE_WRITER, SINGLE_NODE_READER_ONLY,
       MULTI_NODE_READER_ONLY, MULTI_NODE_SINGLE_WRITER, MULTI_NODE_MULTI_WRITER}" for am
    by (cases am) (auto, metis access_mode.exhaust)
  then show "isValidVolumeCapabilities caps \<longleftrightarrow>
     list_all (\<lambda>c. vc_access_mode c \<in> Some ` {SINGLE_NODE_WRITER, SINGLE_NODE_READER_ONLY, MULTI_NODE_READER_ONLY,
       MULTI_NODE_SINGLE_WRITER, MULTI_NODE_MULTI_WRITER}) caps"
    by (simp add: isValidVolumeCapabilities_iff list_all_iff)
  have snoc: "add_flags acc (fs @ [f]) =
      (if f \<in> set acc \<union> set fs then add_flags acc fs else add_flags acc fs @ [f])" for acc fs f
    by (induction acc fs rule: add_flags.induct) auto
  have "add_flags [] fs = rev (remdups (rev fs))" for fs
    by (induction fs rule: rev_induct) (simp_all add: snoc)
  then show "GetMountOptions flags mode = (case flags of None \<Rightarrow> [] | Some fs \<Rightarrow> rev (remdups (rev fs))) @
     (if mode \<in> {Some SINGLE_NODE_READER_ONLY, Some MULTI_NODE_READER_ONLY} then [''ro''] else [])"
    by (auto simp: GetMountOptions_def GetMode_def Let_def split: option.splits)
qed

end
